theory Spec2Isabelle
  imports Complex_Main "HOL-Library.Sublist" "HOL-Library.AList"
begin

section \<open>Python values\<close>

text \<open>
  The pipeline of \<^verbatim>\<open>data_pipeline.py\<close> moves untyped Python values around: parsed JSON
  from the geocoding service, and the cells of pandas data frames. One datatype covers
  both. \<open>PNone\<close> is Python's \<^verbatim>\<open>None\<close> (JSON \<^verbatim>\<open>null\<close>), \<open>PNaN\<close> is the float
  not-a-number that pandas uses for a missing cell, \<open>PNum\<close> is any other number,
  \<open>PDict\<close> is a dictionary with string keys in insertion order.

  Strings are lists of 8-bit characters, read as the code points U+0000 to U+00FF.
\<close>

datatype pyval =
    PNone
  | PNaN
  | PBool bool
  | PNum real
  | PStr string
  | PList "pyval list"
  | PDict "(string \<times> pyval) list"

datatype py_error =
    KeyError
  | IndexError
  | TypeError
  | ValueError
  | JSONDecodeError
  | RequestException

text \<open>Truth value of an object, as \<^verbatim>\<open>if x\<close>, \<^verbatim>\<open>not x\<close> and \<^verbatim>\<open>x or y\<close> use it.
  The float NaN is true.\<close>

fun truthy :: "pyval \<Rightarrow> bool" where
  "truthy PNone = False"
| "truthy PNaN = True"
| "truthy (PBool b) = b"
| "truthy (PNum x) = (x \<noteq> 0)"
| "truthy (PStr s) = (s \<noteq> [])"
| "truthy (PList xs) = (xs \<noteq> [])"
| "truthy (PDict kvs) = (kvs \<noteq> [])"

text \<open>\<^verbatim>\<open>isinstance(x, str)\<close>.\<close>

fun is_str :: "pyval \<Rightarrow> bool" where
  "is_str (PStr s) = True"
| "is_str _ = False"

text \<open>\<^verbatim>\<open>pd.isna\<close> and \<^verbatim>\<open>pd.notna\<close> on a scalar, \<^verbatim>\<open>Series.isna\<close> on the cells of a column.\<close>

fun isna :: "pyval \<Rightarrow> bool" where
  "isna PNone = True"
| "isna PNaN = True"
| "isna _ = False"

text \<open>
  \<^verbatim>\<open>str(x)\<close>, which an f-string applies as well. The text of a number or of a container
  is left to the parameter \<open>fmt\<close>.
\<close>

fun py_str :: "(pyval \<Rightarrow> string) \<Rightarrow> pyval \<Rightarrow> string" where
  "py_str fmt (PStr s) = s"
| "py_str fmt PNone = ''None''"
| "py_str fmt PNaN = ''nan''"
| "py_str fmt (PBool True) = ''True''"
| "py_str fmt (PBool False) = ''False''"
| "py_str fmt v = fmt v"

text \<open>\<^verbatim>\<open>v[key]\<close> with a string key.\<close>

fun getitem :: "pyval \<Rightarrow> string \<Rightarrow> py_error + pyval" where
  "getitem (PDict kvs) k = (case map_of kvs k of None \<Rightarrow> Inl KeyError | Some v \<Rightarrow> Inr v)"
| "getitem _ k = Inl TypeError"

text \<open>\<^verbatim>\<open>v[0]\<close>. The keys of a parsed JSON object are strings, so \<open>0\<close> is never one.\<close>

fun getitem0 :: "pyval \<Rightarrow> py_error + pyval" where
  "getitem0 (PList []) = Inl IndexError"
| "getitem0 (PList (x # xs)) = Inr x"
| "getitem0 (PStr []) = Inl IndexError"
| "getitem0 (PStr (c # cs)) = Inr (PStr [c])"
| "getitem0 (PDict kvs) = Inl KeyError"
| "getitem0 _ = Inl TypeError"

text \<open>The items a \<^verbatim>\<open>for\<close> loop over \<open>v\<close> visits.\<close>

fun py_iter :: "pyval \<Rightarrow> py_error + pyval list" where
  "py_iter (PList xs) = Inr xs"
| "py_iter (PStr s) = Inr (map (\<lambda>c. PStr [c]) s)"
| "py_iter (PDict kvs) = Inr (map (\<lambda>kv. PStr (fst kv)) kvs)"
| "py_iter _ = Inl TypeError"

text \<open>\<^verbatim>\<open>key in v\<close> for a string \<open>key\<close>: membership in a list, a key of a dictionary,
  a substring of a string.\<close>

fun py_in :: "string \<Rightarrow> pyval \<Rightarrow> py_error + bool" where
  "py_in k (PList xs) = Inr (PStr k \<in> set xs)"
| "py_in k (PStr s) = Inr (sublist k s)"
| "py_in k (PDict kvs) = Inr (k \<in> fst ` set kvs)"
| "py_in k _ = Inl TypeError"

section \<open>Regular expressions of the address cleaner\<close>

text \<open>
  The two patterns of \<^verbatim>\<open>DataCleaner.clean_bc_address\<close> are sequences of single
  characters, optional characters and greedy repetitions of a character class. The
  matcher below is the backtracking matcher of Python's \<^verbatim>\<open>re\<close> on such sequences.
\<close>

definition is_digit :: "char \<Rightarrow> bool" where
  "is_digit c = (c \<in> set ''0123456789'')"

definition is_ascii_letter :: "char \<Rightarrow> bool" where
  "is_ascii_letter c =
     (c \<in> set ''ABCDEFGHIJKLMNOPQRSTUVWXYZ'' \<or> c \<in> set ''abcdefghijklmnopqrstuvwxyz'')"

text \<open>The characters below U+0100 that \<^verbatim>\<open>\s\<close> matches and \<^verbatim>\<open>str.strip\<close> removes.\<close>

definition is_space :: "char \<Rightarrow> bool" where
  "is_space c =
     (c \<in> {CHR 0x09, CHR 0x0A, CHR 0x0B, CHR 0x0C, CHR 0x0D,
            CHR 0x1C, CHR 0x1D, CHR 0x1E, CHR 0x1F, CHR 0x20, CHR 0x85, CHR 0xA0})"

text \<open>Lower case below U+0100: A to Z, and the Latin-1 capitals except the
  multiplication sign.\<close>

definition lower_chr :: "char \<Rightarrow> char" where
  "lower_chr c =
     (let n = (of_char c :: nat)
      in if (65 \<le> n \<and> n \<le> 90) \<or> (192 \<le> n \<and> n \<le> 222 \<and> n \<noteq> 215)
         then char_of (n + 32) else c)"

datatype cls =
    Letter
  | Digit
  | Space
  | LitCI char

fun in_cls :: "cls \<Rightarrow> char \<Rightarrow> bool" where
  "in_cls Letter c = is_ascii_letter c"
| "in_cls Digit c = is_digit c"
| "in_cls Space c = is_space c"
| "in_cls (LitCI d) c = (lower_chr c = lower_chr d)"

datatype atom =
    One cls
  | Opt cls
  | Star cls

text \<open>
  \<open>match_here p s\<close> is the length of the match of \<open>p\<close> at the start of \<open>s\<close> that
  the backtracking matcher finds first: a greedy item takes a character when it can
  and gives it back when the rest of the pattern fails.
\<close>

fun match_here :: "atom list \<Rightarrow> string \<Rightarrow> nat option" where
  "match_here [] s = Some 0"
| "match_here (One k # p) [] = None"
| "match_here (One k # p) (c # cs) =
     (if in_cls k c then map_option Suc (match_here p cs) else None)"
| "match_here (Opt k # p) [] = match_here p []"
| "match_here (Opt k # p) (c # cs) =
     (if in_cls k c
      then (case match_here p cs of
              Some n \<Rightarrow> Some (Suc n)
            | None \<Rightarrow> match_here p (c # cs))
      else match_here p (c # cs))"
| "match_here (Star k # p) [] = match_here p []"
| "match_here (Star k # p) (c # cs) =
     (if in_cls k c
      then (case match_here (Star k # p) cs of
              Some n \<Rightarrow> Some (Suc n)
            | None \<Rightarrow> match_here p (c # cs))
      else match_here p (c # cs))"

text \<open>\<^verbatim>\<open>re.search\<close>: the leftmost position with a match, and the length matched there.\<close>

fun search :: "atom list \<Rightarrow> string \<Rightarrow> (nat \<times> nat) option" where
  "search p [] = map_option (\<lambda>n. (0, n)) (match_here p [])"
| "search p (c # cs) =
     (case match_here p (c # cs) of
        Some n \<Rightarrow> Some (0, n)
      | None \<Rightarrow> map_option (\<lambda>(i, n). (Suc i, n)) (search p cs))"

text \<open>
  \<^verbatim>\<open>re.sub(p, "", s)\<close>: every match, left to right and without overlap, is removed.
  The counter is the number of characters of the current match still to drop. The
  pattern deleted by the cleaner starts with a comma, so its matches are never empty.
\<close>

fun sub_aux :: "atom list \<Rightarrow> nat \<Rightarrow> string \<Rightarrow> string" where
  "sub_aux p k [] = []"
| "sub_aux p (Suc k) (c # cs) = sub_aux p k cs"
| "sub_aux p 0 (c # cs) =
     (case match_here p (c # cs) of
        Some (Suc n) \<Rightarrow> sub_aux p n cs
      | _ \<Rightarrow> c # sub_aux p 0 cs)"

definition re_sub_empty :: "atom list \<Rightarrow> string \<Rightarrow> string" where
  "re_sub_empty p s = sub_aux p 0 s"

text \<open>\<^verbatim>\<open>str.strip()\<close>.\<close>

definition strip :: "string \<Rightarrow> string" where
  "strip s = rev (dropWhile is_space (rev (dropWhile is_space s)))"

text \<open>\<^verbatim>\<open>[A-Za-z]\d[A-Za-z]\s?\d[A-Za-z]\d\<close>\<close>

definition postal_pattern :: "atom list" where
  "postal_pattern =
     [One Letter, One Digit, One Letter, Opt Space, One Digit, One Letter, One Digit]"

text \<open>A string put into a pattern as literal text, matched without regard to case.\<close>

definition literal :: "string \<Rightarrow> atom list" where
  "literal s = map (\<lambda>c. One (LitCI c)) s"

text \<open>
  The characters that are special in a pattern of \<^verbatim>\<open>re\<close> (the last one is the
  backslash), and the strings free of them: in a pattern such a string stands for
  itself.
\<close>

definition regex_special :: "char \<Rightarrow> bool" where
  "regex_special c = (c \<in> set ''.^$*+?{}[]|()'' \<or> c = CHR 0x5C)"

definition plain_text :: "string \<Rightarrow> bool" where
  "plain_text s = list_all (\<lambda>c. \<not> regex_special c) s"

text \<open>
  \<^verbatim>\<open>rf",\s*{re.escape(str(city))}\s*,?\s*{str(province)}\s*{str(postal_code) if postal_code else ''}"\<close>
  compiled with \<^verbatim>\<open>re.IGNORECASE\<close>. The city is escaped and a postal code holds no
  special character. The province is spliced in unescaped: \<open>remove_pattern\<close> is the
  compiled pattern for a province that is \<open>plain_text\<close>, as the
  \<^verbatim>\<open>"British Columbia"\<close> of the pipeline is, and only for such a province; with a
  special character in it \<^verbatim>\<open>re\<close> reads the province as a pattern of its own or
  refuses it. What is proved about the cleaned address assumes \<open>plain_text\<close>.
\<close>

definition remove_pattern :: "string \<Rightarrow> string \<Rightarrow> string option \<Rightarrow> atom list" where
  "remove_pattern city province postal_code =
     [One (LitCI CHR '',''), Star Space] @ literal city
     @ [Star Space, Opt (LitCI CHR '',''), Star Space] @ literal province
     @ [Star Space] @ literal (case postal_code of Some pc \<Rightarrow> pc | None \<Rightarrow> [])"

section \<open>DataCleaner.clean\_bc\_address\<close>

definition clean_bc_address ::
  "(pyval \<Rightarrow> string) \<Rightarrow> pyval \<Rightarrow> pyval \<Rightarrow> string \<Rightarrow> pyval \<times> pyval" where
  "clean_bc_address fmt full_address city province =
     (case full_address of
        PStr a \<Rightarrow>
          (let postal_match = search postal_pattern a;
               postal_code = (case postal_match of
                                Some (i, n) \<Rightarrow> Some (take n (drop i a))
                              | None \<Rightarrow> None);
               cleaned = re_sub_empty (remove_pattern (py_str fmt city) province postal_code) a
           in (PStr (strip cleaned),
               (case postal_code of Some pc \<Rightarrow> PStr pc | None \<Rightarrow> PNone)))
      | _ \<Rightarrow> (full_address, PNone))"

subsection \<open>The postal-code shape, as the specification words it\<close>

text \<open>
  Letter, digit, letter, an optional white-space character, digit, letter, digit.
  \<open>postal_at a i m\<close>: the substring \<open>m\<close> of \<open>a\<close> that starts at position \<open>i\<close>
  has that shape.
\<close>

definition postal_shape :: "string \<Rightarrow> bool" where
  "postal_shape m =
     (list_all2 in_cls [Letter, Digit, Letter, Digit, Letter, Digit] m \<or>
      list_all2 in_cls [Letter, Digit, Letter, Space, Digit, Letter, Digit] m)"

definition postal_at :: "string \<Rightarrow> nat \<Rightarrow> string \<Rightarrow> bool" where
  "postal_at a i m =
     (postal_shape m \<and> i + length m \<le> length a \<and> take (length m) (drop i a) = m)"

definition has_postal :: "string \<Rightarrow> bool" where
  "has_postal a = (\<exists>i m. postal_at a i m)"

section \<open>The world outside the program\<close>

text \<open>
  A request to the geocoding service is its parameter dictionary: \<^verbatim>\<open>address\<close> and
  \<^verbatim>\<open>key\<close>, or \<^verbatim>\<open>latlng\<close> (built from the two coordinates) and \<^verbatim>\<open>key\<close>.
\<close>

datatype request =
    ForwardRequest pyval string
  | ReverseRequest pyval pyval pyval

text \<open>
  What one \<^verbatim>\<open>requests.get\<close> followed by \<^verbatim>\<open>response.json()\<close> yields:
  \<^verbatim>\<open>requests.get\<close> raises, \<^verbatim>\<open>response.json()\<close> raises, or the parsed body.
\<close>

datatype http_outcome =
    RequestFailed
  | InvalidJson
  | Json pyval

text \<open>The lines the program prints, by format string.\<close>

datatype message =
    ErrorGeocoding string py_error
  | ErrorReverseGeocoding pyval pyval py_error
  | ProcessingProvince string string
  | UnsupportedFileFormat string
  | MissingDependency string
  | InstallHint
  | ErrorReadingFile string
  | RetryFailed int int string
  | GeocodingFailed string
  | Geocoded string pyval pyval pyval
  | FilledMissingPostal pyval pyval
  | ErrorProcessing string py_error

text \<open>Everything the program does to the outside, in the order it does it.\<close>

datatype event =
    NetGet request
  | Print message
  | Sleep real

text \<open>
  The state of a run: the \<^verbatim>\<open>GeocodingService\<close> object (\<^verbatim>\<open>api_key\<close>, \<^verbatim>\<open>cache\<close>) and the
  events so far.
\<close>

record state =
  api_key :: pyval
  cache :: "string \<rightharpoonup> (pyval \<times> pyval \<times> pyval)"
  trace :: "event list"

text \<open>
  The remote service is a parameter: \<open>remote n req\<close> is the answer to the request
  \<open>req\<close> when \<open>n\<close> requests went out before it. Any run of the sequential program
  against any service is such a function.
\<close>

type_synonym remote = "nat \<Rightarrow> request \<Rightarrow> http_outcome"

fun is_request :: "event \<Rightarrow> bool" where
  "is_request (NetGet r) = True"
| "is_request _ = False"

definition requests_made :: "state \<Rightarrow> nat" where
  "requests_made s = length (filter is_request (trace s))"

definition emit :: "event \<Rightarrow> state \<Rightarrow> state" where
  "emit e s = s\<lparr>trace := trace s @ [e]\<rparr>"

definition API_DELAY :: real where
  "API_DELAY = 0.2"

section \<open>GeocodingService\<close>

text \<open>
  The loop over \<^verbatim>\<open>address_components\<close>: the \<^verbatim>\<open>long_name\<close> of the first component whose
  \<^verbatim>\<open>types\<close> contain \<^verbatim>\<open>"postal_code"\<close>; the components after it are not looked at.
\<close>

fun scan_components :: "pyval list \<Rightarrow> py_error + pyval option" where
  "scan_components [] = Inr None"
| "scan_components (component # rest) =
     (case getitem component ''types'' of
        Inl e \<Rightarrow> Inl e
      | Inr types \<Rightarrow>
          (case py_in ''postal_code'' types of
             Inl e \<Rightarrow> Inl e
           | Inr True \<Rightarrow>
               (case getitem component ''long_name'' of
                  Inl e \<Rightarrow> Inl e
                | Inr long_name \<Rightarrow> Inr (Some long_name))
           | Inr False \<Rightarrow> scan_components rest))"

text \<open>
  The body of the \<^verbatim>\<open>try\<close> of \<^verbatim>\<open>get_coordinates\<close> from \<^verbatim>\<open>data["status"]\<close> on:
  \<open>Inl e\<close> when an exception \<open>e\<close> is raised, \<open>Inr None\<close> when the status is not
  \<^verbatim>\<open>"OK"\<close>, \<open>Inr (Some (lat, lng, postal_code))\<close> at the \<^verbatim>\<open>return\<close> inside.
\<close>

definition extract_forward :: "pyval \<Rightarrow> py_error + (pyval \<times> pyval \<times> pyval) option" where
  "extract_forward data =
     (case getitem data ''status'' of
        Inl e \<Rightarrow> Inl e
      | Inr status \<Rightarrow>
          if status = PStr ''OK'' then
            (case getitem data ''results'' of Inl e \<Rightarrow> Inl e | Inr results \<Rightarrow>
             (case getitem0 results of Inl e \<Rightarrow> Inl e | Inr result \<Rightarrow>
              (case getitem result ''geometry'' of Inl e \<Rightarrow> Inl e | Inr geometry \<Rightarrow>
               (case getitem geometry ''location'' of Inl e \<Rightarrow> Inl e | Inr location \<Rightarrow>
                (case getitem location ''lat'' of Inl e \<Rightarrow> Inl e | Inr lat \<Rightarrow>
                 (case getitem location ''lng'' of Inl e \<Rightarrow> Inl e | Inr lng \<Rightarrow>
                  (case getitem result ''address_components'' of Inl e \<Rightarrow> Inl e | Inr comps \<Rightarrow>
                   (case py_iter comps of Inl e \<Rightarrow> Inl e | Inr components \<Rightarrow>
                    (case scan_components components of
                       Inl e \<Rightarrow> Inl e
                     | Inr found \<Rightarrow>
                         Inr (Some (lat, lng,
                                    (case found of Some pc \<Rightarrow> pc | None \<Rightarrow> PNone))))))))))))
          else Inr None)"

definition unresolved :: "pyval \<times> pyval \<times> pyval" where
  "unresolved = (PNone, PNone, PNone)"

text \<open>
  \<^verbatim>\<open>GeocodingService.get_coordinates\<close>. Every exception of the \<^verbatim>\<open>try\<close> block is
  caught, printed and turned into the final \<^verbatim>\<open>return None, None, None\<close>.
\<close>

definition get_coordinates ::
  "remote \<Rightarrow> pyval \<Rightarrow> state \<Rightarrow> (pyval \<times> pyval \<times> pyval) \<times> state" where
  "get_coordinates remote address s =
     (if \<not> truthy address \<or> \<not> is_str address then (unresolved, s)
      else
        (case address of
           PStr a \<Rightarrow>
             (case cache s a of
                Some hit \<Rightarrow> (hit, s)
              | None \<Rightarrow>
                  (let req = ForwardRequest (api_key s) a;
                       s1 = emit (NetGet req) s
                   in case remote (requests_made s) req of
                        RequestFailed \<Rightarrow>
                          (unresolved, emit (Print (ErrorGeocoding a RequestException)) s1)
                      | InvalidJson \<Rightarrow>
                          (unresolved, emit (Print (ErrorGeocoding a JSONDecodeError)) s1)
                      | Json data \<Rightarrow>
                          (case extract_forward data of
                             Inl e \<Rightarrow> (unresolved, emit (Print (ErrorGeocoding a e)) s1)
                           | Inr None \<Rightarrow> (unresolved, s1)
                           | Inr (Some result) \<Rightarrow>
                               (result, s1\<lparr>cache := (cache s1)(a \<mapsto> result)\<rparr>))))
         | _ \<Rightarrow> (unresolved, s)))"

text \<open>The two nested loops of \<^verbatim>\<open>get_postal_from_coords\<close>, with their \<^verbatim>\<open>return\<close>.\<close>

fun scan_results :: "pyval list \<Rightarrow> py_error + pyval option" where
  "scan_results [] = Inr None"
| "scan_results (result # rest) =
     (case getitem result ''address_components'' of
        Inl e \<Rightarrow> Inl e
      | Inr comps \<Rightarrow>
          (case py_iter comps of
             Inl e \<Rightarrow> Inl e
           | Inr components \<Rightarrow>
               (case scan_components components of
                  Inl e \<Rightarrow> Inl e
                | Inr (Some pc) \<Rightarrow> Inr (Some pc)
                | Inr None \<Rightarrow> scan_results rest)))"

definition extract_reverse :: "pyval \<Rightarrow> py_error + pyval option" where
  "extract_reverse data =
     (case getitem data ''status'' of
        Inl e \<Rightarrow> Inl e
      | Inr status \<Rightarrow>
          if status = PStr ''OK'' then
            (case getitem data ''results'' of Inl e \<Rightarrow> Inl e | Inr rs \<Rightarrow>
             (case py_iter rs of Inl e \<Rightarrow> Inl e | Inr results \<Rightarrow> scan_results results))
          else Inr None)"

text \<open>\<^verbatim>\<open>GeocodingService.get_postal_from_coords\<close>.\<close>

definition get_postal_from_coords ::
  "remote \<Rightarrow> pyval \<Rightarrow> pyval \<Rightarrow> state \<Rightarrow> pyval \<times> state" where
  "get_postal_from_coords remote lat lng s =
     (let req = ReverseRequest (api_key s) lat lng;
          s1 = emit (NetGet req) s
      in case remote (requests_made s) req of
           RequestFailed \<Rightarrow>
             (PNone, emit (Print (ErrorReverseGeocoding lat lng RequestException)) s1)
         | InvalidJson \<Rightarrow>
             (PNone, emit (Print (ErrorReverseGeocoding lat lng JSONDecodeError)) s1)
         | Json data \<Rightarrow>
             (case extract_reverse data of
                Inl e \<Rightarrow> (PNone, emit (Print (ErrorReverseGeocoding lat lng e)) s1)
              | Inr None \<Rightarrow> (PNone, s1)
              | Inr (Some pc) \<Rightarrow> (pc, s1)))"

text \<open>
  The outcomes on which \<open>get_coordinates\<close> ends in one of its failure paths, read
  off the code: the request raises, the body is not JSON, the traversal raises, or the
  status is not \<^verbatim>\<open>"OK"\<close>. It serves the proofs; the outcomes that a claim speaks of
  are described by their shape, below.
\<close>

definition not_resolved :: "http_outcome \<Rightarrow> bool" where
  "not_resolved outcome =
     (outcome = RequestFailed
      \<or> outcome = InvalidJson
      \<or> (\<exists>data e. outcome = Json data \<and> extract_forward data = Inl e)
      \<or> (\<exists>data status. outcome = Json data \<and> getitem data ''status'' = Inr status
            \<and> status \<noteq> PStr ''OK''))"

section \<open>The shape of an answer\<close>

text \<open>
  The specification expects
  \<^verbatim>\<open>{status, results:[{geometry:{location:{lat,lng}}, address_components:[{types:[...], long_name}]}]}\<close>.
  The definitions of this section describe a body by its shape alone; none of them
  runs the code. \<open>member_of k v\<close> is the member \<open>k\<close> of the JSON object \<open>v\<close>
  (nothing when \<open>v\<close> is not an object or has no such member), \<open>first_result\<close> the
  first element of the array \<^verbatim>\<open>results\<close>.
\<close>

definition member_of :: "string \<Rightarrow> pyval \<Rightarrow> pyval option" where
  "member_of k v = (case v of PDict kvs \<Rightarrow> map_of kvs k | _ \<Rightarrow> None)"

definition first_result :: "pyval \<Rightarrow> pyval option" where
  "first_result data =
     (case member_of ''results'' data of Some (PList (r # rs)) \<Rightarrow> Some r | _ \<Rightarrow> None)"

text \<open>The members \<^verbatim>\<open>lat\<close> and \<^verbatim>\<open>lng\<close> of \<^verbatim>\<open>geometry.location\<close> of the first result,
  when all of these are there.\<close>

definition coordinates_of :: "pyval \<Rightarrow> (pyval \<times> pyval) option" where
  "coordinates_of data =
     (case first_result data of
        None \<Rightarrow> None
      | Some r \<Rightarrow>
          (case member_of ''geometry'' r of
             None \<Rightarrow> None
           | Some g \<Rightarrow>
               (case member_of ''location'' g of
                  None \<Rightarrow> None
                | Some l \<Rightarrow>
                    (case (member_of ''lat'' l, member_of ''lng'' l) of
                       (Some lat, Some lng) \<Rightarrow> Some (lat, lng)
                     | _ \<Rightarrow> None))))"

fun is_scalar :: "pyval \<Rightarrow> bool" where
  "is_scalar PNone = True"
| "is_scalar PNaN = True"
| "is_scalar (PBool b) = True"
| "is_scalar (PNum x) = True"
| "is_scalar _ = False"

text \<open>The member \<^verbatim>\<open>address_components\<close> of the first result, when it is there and is
  not \<^verbatim>\<open>null\<close>, a number or a truth value.\<close>

definition components_of :: "pyval \<Rightarrow> pyval option" where
  "components_of data =
     (case first_result data of
        None \<Rightarrow> None
      | Some r \<Rightarrow>
          (case member_of ''address_components'' r of
             None \<Rightarrow> None
           | Some ac \<Rightarrow> if is_scalar ac then None else Some ac))"

text \<open>
  An outcome with which a lookup cannot succeed: a transport failure, a body that is
  not JSON, a body whose status is not \<^verbatim>\<open>"OK"\<close> (or that has none, or is no object),
  and a body with status \<^verbatim>\<open>"OK"\<close> that lacks a part: the first result, its geometry,
  location, latitude or longitude, or its address components.
\<close>

definition rejected :: "http_outcome \<Rightarrow> bool" where
  "rejected outcome =
     (case outcome of
        RequestFailed \<Rightarrow> True
      | InvalidJson \<Rightarrow> True
      | Json data \<Rightarrow>
          member_of ''status'' data \<noteq> Some (PStr ''OK'')
          \<or> coordinates_of data = None
          \<or> components_of data = None)"




text \<open>A well-formed answer of the service, for the examples.\<close>

definition ok_response :: "real \<Rightarrow> real \<Rightarrow> string \<Rightarrow> pyval" where
  "ok_response lat lng pc =
     PDict [(''status'', PStr ''OK''),
            (''results'',
             PList [PDict [
               (''geometry'',
                PDict [(''location'', PDict [(''lat'', PNum lat), (''lng'', PNum lng)])]),
               (''address_components'',
                PList [PDict [(''types'', PList [PStr ''route'']),
                              (''long_name'', PStr ''Main St'')],
                       PDict [(''types'', PList [PStr ''postal_code'']),
                              (''long_name'', PStr pc)]])]])]"

definition zero_results :: pyval where
  "zero_results = PDict [(''status'', PStr ''ZERO_RESULTS''), (''results'', PList [])]"


definition no_location :: pyval where
  "no_location =
     PDict [(''status'', PStr ''OK''),
            (''results'', PList [PDict [(''geometry'', PDict []),
                                        (''address_components'', PList [])]])]"


definition fresh :: state where
  "fresh = \<lparr>api_key = PStr ''key'', cache = Map.empty, trace = []\<rparr>"

text \<open>\<^verbatim>\<open>GeocodingService.__init__\<close>, before anything has happened.\<close>

definition new_service :: "pyval \<Rightarrow> state" where
  "new_service key = \<lparr>api_key = key, cache = Map.empty, trace = []\<rparr>"

section \<open>Data frames\<close>

text \<open>
  A data frame is its column labels and its rows; a row maps a column label to a cell.
  Rows are addressed by position: the index labels of every frame the program builds
  are unique (the range index of the readers, kept by the province filter, renewed by
  \<^verbatim>\<open>ignore_index=True\<close>). Column labels are taken to be distinct. A cell holds the
  object that was stored in it; the conversions that pandas applies to fit the type
  of a column are left out (they turn \<^verbatim>\<open>None\<close> into NaN, and both are null).
\<close>

type_synonym row = "(string \<times> pyval) list"

record dataframe =
  columns :: "string list"
  rows :: "row list"

text \<open>What reading the file of a province yields: the readers raise \<^verbatim>\<open>ImportError\<close>,
  raise something else, or return the table.\<close>

datatype read_outcome =
    ReadImportError
  | ReadError
  | Table dataframe

text \<open>The file system is a parameter: the outcome for a file type and a file name.\<close>

type_synonym files = "string \<Rightarrow> string \<Rightarrow> read_outcome"

text \<open>\<^verbatim>\<open>df[df["Site Province Abbrev"] == province_code]\<close>\<close>

definition filter_province :: "string \<Rightarrow> dataframe \<Rightarrow> dataframe" where
  "filter_province province_code df =
     (if ''Site Province Abbrev'' \<in> set (columns df)
      then df\<lparr>rows := filter (\<lambda>r. map_of r ''Site Province Abbrev'' = Some (PStr province_code))
                          (rows df)\<rparr>
      else df)"

text \<open>\<^verbatim>\<open>df.rename(columns=col_mapping)\<close>\<close>

definition rename_label :: "(string \<times> string) list \<Rightarrow> string \<Rightarrow> string" where
  "rename_label col_mapping c = (case map_of col_mapping c of Some c' \<Rightarrow> c' | None \<Rightarrow> c)"

definition rename :: "(string \<times> string) list \<Rightarrow> dataframe \<Rightarrow> dataframe" where
  "rename col_mapping df =
     \<lparr>columns = map (rename_label col_mapping) (columns df),
      rows = map (map (\<lambda>(c, v). (rename_label col_mapping c, v))) (rows df)\<rparr>"

text \<open>\<^verbatim>\<open>df[col] = value\<close> with a scalar: every row gets the value, a new column goes last.\<close>

definition set_column :: "string \<Rightarrow> pyval \<Rightarrow> dataframe \<Rightarrow> dataframe" where
  "set_column c v df =
     \<lparr>columns = (if c \<in> set (columns df) then columns df else columns df @ [c]),
      rows = map (AList.update c v) (rows df)\<rparr>"

text \<open>The loop that adds the geocoding columns that are missing.\<close>

fun init_columns :: "string list \<Rightarrow> dataframe \<Rightarrow> dataframe" where
  "init_columns [] df = df"
| "init_columns (col # cols) df =
     init_columns cols (if col \<notin> set (columns df) then set_column col PNone df else df)"

text \<open>The cell of a row under a label, NaN where the row has no such label: the fill
  value of \<^verbatim>\<open>pd.concat\<close> for a column that a frame lacks.\<close>

definition cell_or_nan :: "row \<Rightarrow> string \<Rightarrow> pyval" where
  "cell_or_nan r c = (case map_of r c of Some v \<Rightarrow> v | None \<Rightarrow> PNaN)"

text \<open>A row laid out again under the labels \<open>cols\<close>.\<close>

definition relayout :: "string list \<Rightarrow> row \<Rightarrow> row" where
  "relayout cols r = map (\<lambda>c. (c, cell_or_nan r c)) cols"

text \<open>\<^verbatim>\<open>df[[c for c in target_cols if c in df.columns]]\<close>\<close>

definition select_columns :: "string list \<Rightarrow> dataframe \<Rightarrow> dataframe" where
  "select_columns target_cols df =
     (let cols = filter (\<lambda>c. c \<in> set (columns df)) target_cols
      in \<lparr>columns = cols, rows = map (relayout cols) (rows df)\<rparr>)"

text \<open>\<^verbatim>\<open>df.empty\<close>\<close>

definition df_empty :: "dataframe \<Rightarrow> bool" where
  "df_empty df = (rows df = [] \<or> columns df = [])"

text \<open>\<^verbatim>\<open>pd.concat(dfs, ignore_index=True)\<close>: the union of the columns in order of first
  appearance, the rows one frame after the other.\<close>

definition concat_frames :: "dataframe list \<Rightarrow> dataframe" where
  "concat_frames dfs =
     (let cols = rev (remdups (rev (concat (map columns dfs))))
      in \<lparr>columns = cols, rows = map (relayout cols) (concat (map rows dfs))\<rparr>)"

section \<open>StoreLocationsProcessor\<close>

definition PROVINCE_FULL_NAMES :: "(string \<times> string) list" where
  "PROVINCE_FULL_NAMES =
     [(''AB'', ''Alberta''), (''BC'', ''British Columbia''), (''MB'', ''Manitoba''),
      (''NB'', ''New Brunswick''), (''NL'', ''Newfoundland and Labrador''),
      (''NS'', ''Nova Scotia''), (''NT'', ''Northwest Territories''), (''NU'', ''Nunavut''),
      (''ON'', ''Ontario''), (''PE'', ''Prince Edward Island''), (''QC'', ''Quebec''),
      (''SK'', ''Saskatchewan''), (''YT'', ''Yukon'')]"

definition default_max_retries :: int where
  "default_max_retries = 3"

text \<open>
  Lines 195 to 209 of \<^verbatim>\<open>process_province\<close>: the address and, for \<^verbatim>\<open>"BC"\<close> with a
  \<^verbatim>\<open>FullAddress\<close> column, the address clean-up with its two writes to the frame; then
  the query string. \<open>row\<close> is the row as \<^verbatim>\<open>iterrows\<close> hands it out; the result is the
  row as the frame holds it afterwards, the address and the query.
  \<^verbatim>\<open>row["City"]\<close> and \<^verbatim>\<open>row["FullProvinceName"]\<close> raise \<^verbatim>\<open>KeyError\<close> where the column is
  missing; \<^verbatim>\<open>row.get\<close> has a default.
\<close>

definition prepare_query ::
  "(pyval \<Rightarrow> string) \<Rightarrow> string \<Rightarrow> row \<Rightarrow> py_error + (row \<times> string \<times> string)" where
  "prepare_query fmt province_code row =
     (let address = (case map_of row ''Address'' of Some v \<Rightarrow> v | None \<Rightarrow> PStr []);
          current_addr = py_str fmt (if truthy address then address else PStr []);
          special =
            (case (if province_code = ''BC'' then map_of row ''FullAddress'' else None) of
               Some full_address \<Rightarrow>
                 (case map_of row ''City'' of
                    None \<Rightarrow> Inl KeyError
                  | Some city \<Rightarrow>
                      (let (clean_addr, extracted_postal) =
                             clean_bc_address fmt full_address city ''British Columbia'';
                           row1 = AList.update ''Address'' clean_addr row;
                           old = (case map_of row ''PostalCode'' of Some v \<Rightarrow> v | None \<Rightarrow> PNone);
                           row2 = (if \<not> truthy old
                                   then AList.update ''PostalCode'' extracted_postal row1
                                   else row1)
                       in Inr (row2, py_str fmt clean_addr)))
             | None \<Rightarrow> Inr (row, current_addr))
      in case special of
           Inl e \<Rightarrow> Inl e
         | Inr (row', current_addr') \<Rightarrow>
             (let city = py_str fmt (case map_of row ''City'' of Some v \<Rightarrow> v | None \<Rightarrow> PStr [])
              in case map_of row ''FullProvinceName'' of
                   None \<Rightarrow> Inl KeyError
                 | Some full_prov \<Rightarrow>
                     Inr (row', current_addr',
                          current_addr' @ '', '' @ city @ '', '' @ py_str fmt full_prov
                            @ '', Canada'')))"

text \<open>
  The retry loop, lines 211 to 217; \<open>attempts\<close> is what is left of
  \<^verbatim>\<open>range(1, self.max_retries + 1)\<close>, \<open>result\<close> the current \<^verbatim>\<open>lat, lng, postal\<close>.
\<close>

fun retry_loop ::
  "remote \<Rightarrow> int \<Rightarrow> string \<Rightarrow> int list \<Rightarrow> (pyval \<times> pyval \<times> pyval) \<Rightarrow> state
     \<Rightarrow> (pyval \<times> pyval \<times> pyval) \<times> state" where
  "retry_loop remote max_retries api_query [] result s = (result, s)"
| "retry_loop remote max_retries api_query (attempt # rest) result s =
     (case get_coordinates remote (PStr api_query) s of
        ((lat, lng, postal), s1) \<Rightarrow>
          if lat \<noteq> PNone \<and> lng \<noteq> PNone then ((lat, lng, postal), s1)
          else retry_loop remote max_retries api_query rest (lat, lng, postal)
                 (emit (Sleep (API_DELAY * 2))
                    (emit (Print (RetryFailed attempt max_retries api_query)) s1)))"

text \<open>
  Lines 211 to 230: the retry loop, the diagnostic, the three writes to the frame, the
  report and the pause. \<^verbatim>\<open>df.at[idx, "PostalCode"]\<close> reads the frame, so it sees the
  write of the clean-up; it raises \<^verbatim>\<open>KeyError\<close> where the column is missing.
\<close>

definition geocode_row ::
  "remote \<Rightarrow> int \<Rightarrow> row \<Rightarrow> string \<Rightarrow> string \<Rightarrow> state \<Rightarrow> (py_error + row) \<times> state" where
  "geocode_row remote max_retries row1 current_addr api_query s =
     (case retry_loop remote max_retries api_query [1..max_retries] (PNone, PNone, PNone) s of
        ((lat, lng, postal), s1) \<Rightarrow>
          (let s2 = (if lat = PNone \<or> lng = PNone
                     then emit (Print (GeocodingFailed api_query)) s1 else s1);
               row2 = AList.update ''Longitude'' lng (AList.update ''Latitude'' lat row1)
           in case map_of row2 ''PostalCode'' of
                None \<Rightarrow> (Inl KeyError, s2)
              | Some old \<Rightarrow>
                  (let row3 = (if isna old \<and> truthy postal
                               then AList.update ''PostalCode'' postal row2 else row2);
                       shown = (case map_of row3 ''PostalCode'' of Some v \<Rightarrow> v | None \<Rightarrow> PNone)
                   in (Inr row3,
                       emit (Sleep API_DELAY)
                         (emit (Print (Geocoded current_addr lat lng shown)) s2)))))"

text \<open>The body of the loop over the rows.\<close>

definition process_row ::
  "remote \<Rightarrow> (pyval \<Rightarrow> string) \<Rightarrow> int \<Rightarrow> string \<Rightarrow> row \<Rightarrow> state
     \<Rightarrow> (py_error + row) \<times> state" where
  "process_row remote fmt max_retries province_code row s =
     (case prepare_query fmt province_code row of
        Inl e \<Rightarrow> (Inl e, s)
      | Inr (row1, current_addr, api_query) \<Rightarrow>
          geocode_row remote max_retries row1 current_addr api_query s)"

text \<open>The loop over the rows, in their order; an exception ends it.\<close>

fun process_rows ::
  "remote \<Rightarrow> (pyval \<Rightarrow> string) \<Rightarrow> int \<Rightarrow> string \<Rightarrow> row list \<Rightarrow> state
     \<Rightarrow> (py_error + row list) \<times> state" where
  "process_rows remote fmt max_retries province_code [] s = (Inr [], s)"
| "process_rows remote fmt max_retries province_code (row # rest) s =
     (case process_row remote fmt max_retries province_code row s of
        (Inl e, s1) \<Rightarrow> (Inl e, s1)
      | (Inr row', s1) \<Rightarrow>
          (case process_rows remote fmt max_retries province_code rest s1 of
             (Inl e, s2) \<Rightarrow> (Inl e, s2)
           | (Inr rest', s2) \<Rightarrow> (Inr (row' # rest'), s2)))"

definition target_cols :: "string list" where
  "target_cols = [''StoreName'', ''City'', ''Province'', ''FullProvinceName'',
                  ''Address'', ''PostalCode'', ''Latitude'', ''Longitude'']"

text \<open>
  \<^verbatim>\<open>StoreLocationsProcessor.process_province\<close>: \<open>Inr None\<close> is \<^verbatim>\<open>return None\<close>,
  \<open>Inl e\<close> an exception that leaves the method.
\<close>

definition process_province ::
  "files \<Rightarrow> remote \<Rightarrow> (pyval \<Rightarrow> string) \<Rightarrow> int
     \<Rightarrow> string \<Rightarrow> string \<Rightarrow> string \<Rightarrow> (string \<times> string) list \<Rightarrow> state
     \<Rightarrow> (py_error + dataframe option) \<times> state" where
  "process_province files remote fmt max_retries file_name province_code file_type col_mapping s =
     (let s0 = emit (Print (ProcessingProvince province_code file_name)) s
      in if file_type \<noteq> ''xls'' \<and> file_type \<noteq> ''xlsx'' \<and> file_type \<noteq> ''csv''
         then (Inr None, emit (Print (UnsupportedFileFormat file_name)) s0)
         else
           (case files file_type file_name of
              ReadImportError \<Rightarrow>
                (Inr None, emit (Print InstallHint) (emit (Print (MissingDependency file_type)) s0))
            | ReadError \<Rightarrow> (Inr None, emit (Print (ErrorReadingFile file_name)) s0)
            | Table df \<Rightarrow>
                (let df1 = filter_province province_code df;
                     df2 = rename col_mapping df1;
                     df3 = set_column ''Province'' (PStr province_code) df2
                 in case map_of PROVINCE_FULL_NAMES province_code of
                      None \<Rightarrow> (Inl KeyError, s0)
                    | Some full_name \<Rightarrow>
                        (let df4 = set_column ''FullProvinceName'' (PStr full_name) df3;
                             df5 = init_columns
                                     [''Latitude'', ''Longitude'', ''PostalCode'', ''Address''] df4
                         in case process_rows remote fmt max_retries province_code (rows df5) s0 of
                              (Inl e, s1) \<Rightarrow> (Inl e, s1)
                            | (Inr rows', s1) \<Rightarrow>
                                (Inr (Some (select_columns target_cols (df5\<lparr>rows := rows'\<rparr>))),
                                 s1)))))"

type_synonym config = "string \<times> string \<times> string \<times> (string \<times> string) list"

definition alberta_mapping :: "(string \<times> string) list" where
  "alberta_mapping =
     [(''Establishment Name'', ''StoreName''), (''Site City Name'', ''City''),
      (''Site Address Line 1'', ''Address''), (''Site Postal Code'', ''PostalCode'')]"

definition province_configs :: "config list" where
  "province_configs =
     [(''Alberta.xls'', ''AB'', ''xls'', alberta_mapping),
      (''Alberta.xls'', ''BC'', ''xls'', alberta_mapping),
      (''BritishColumbia.csv'', ''BC'', ''csv'', [(''FullAddress'', ''FullAddress'')]),
      (''Alberta.xls'', ''MB'', ''xls'', alberta_mapping),
      (''Manitoba.csv'', ''MB'', ''csv'', [(''FullAddress'', ''Address'')]),
      (''NewBrunswick.csv'', ''NB'', ''csv'', [(''FullAddress'', ''Address'')]),
      (''Newfoundland.csv'', ''NL'', ''csv'', [(''FullAddress'', ''Address'')]),
      (''NorthwestTerritories.csv'', ''NT'', ''csv'', [(''FullAddress'', ''Address'')]),
      (''NovaScotia.csv'', ''NS'', ''csv'', [(''FullAddress'', ''Address'')]),
      (''Nunavut.csv'', ''NU'', ''csv'', [(''FullAddress'', ''Address'')]),
      (''Ontario.csv'', ''ON'', ''csv'',
         [(''Store Name'', ''StoreName''), (''Municipality or First Nation'', ''City''),
          (''FullAddress'', ''Address'')]),
      (''PrinceEdwardIsland.csv'', ''PE'', ''csv'', [(''FullAddress'', ''Address'')]),
      (''Quebec.csv'', ''QC'', ''csv'', [(''FullAddress'', ''Address'')]),
      (''Saskatchewan.csv'', ''SK'', ''csv'',
         [(''Operating Name'', ''StoreName''), (''Street Address'', ''Address'')]),
      (''Yukon.csv'', ''YT'', ''csv'', [(''FullAddress'', ''Address'')])]"

text \<open>
  The loop over the configurations, lines 271 to 278: an exception of
  \<^verbatim>\<open>process_province\<close> is caught and printed, and the loop goes on.
\<close>

fun run_configs ::
  "files \<Rightarrow> remote \<Rightarrow> (pyval \<Rightarrow> string) \<Rightarrow> int \<Rightarrow> config list \<Rightarrow> dataframe list \<Rightarrow> state
     \<Rightarrow> dataframe list \<times> state" where
  "run_configs files remote fmt max_retries [] dfs s = (dfs, s)"
| "run_configs files remote fmt max_retries ((file_name, province_code, file_type, col_mapping) # rest)
     dfs s =
     (case process_province files remote fmt max_retries
             file_name province_code file_type col_mapping s of
        (Inl e, s1) \<Rightarrow>
          run_configs files remote fmt max_retries rest dfs
            (emit (Print (ErrorProcessing file_name e)) s1)
      | (Inr None, s1) \<Rightarrow> run_configs files remote fmt max_retries rest dfs s1
      | (Inr (Some df), s1) \<Rightarrow>
          run_configs files remote fmt max_retries rest
            (if \<not> df_empty df then dfs @ [df] else dfs) s1)"

text \<open>
  The reverse-geocoding loop, lines 292 to 299. It runs over the rows whose postal
  code is missing; the rows are independent, so the mask computed before the loop is
  the test made here row by row. A label that is no column raises \<^verbatim>\<open>KeyError\<close>.
\<close>

fun fill_missing_postal :: "remote \<Rightarrow> row list \<Rightarrow> state \<Rightarrow> (py_error + row list) \<times> state" where
  "fill_missing_postal remote [] s = (Inr [], s)"
| "fill_missing_postal remote (row # rest) s =
     (case map_of row ''PostalCode'' of
        None \<Rightarrow> (Inl KeyError, s)
      | Some old \<Rightarrow>
          if isna old then
            (case (map_of row ''Latitude'', map_of row ''Longitude'') of
               (Some lat, Some lng) \<Rightarrow>
                 if \<not> isna lat \<and> \<not> isna lng then
                   (case get_postal_from_coords remote lat lng s of
                      (postal, s1) \<Rightarrow>
                        (let row' = AList.update ''PostalCode'' postal row
                         in case map_of row' ''Address'' of
                              None \<Rightarrow> (Inl KeyError, s1)
                            | Some address \<Rightarrow>
                                (case fill_missing_postal remote rest
                                        (emit (Sleep API_DELAY)
                                           (emit (Print (FilledMissingPostal address postal)) s1)) of
                                   (Inl e, s2) \<Rightarrow> (Inl e, s2)
                                 | (Inr rest', s2) \<Rightarrow> (Inr (row' # rest'), s2))))
                 else
                   (case fill_missing_postal remote rest s of
                      (Inl e, s2) \<Rightarrow> (Inl e, s2)
                    | (Inr rest', s2) \<Rightarrow> (Inr (row # rest'), s2))
             | _ \<Rightarrow> (Inl KeyError, s))
          else
            (case fill_missing_postal remote rest s of
               (Inl e, s2) \<Rightarrow> (Inl e, s2)
             | (Inr rest', s2) \<Rightarrow> (Inr (row # rest'), s2)))"

text \<open>
  \<^verbatim>\<open>StoreLocationsProcessor.process_all_provinces\<close>, over a list of configurations;
  the method itself runs it on \<open>province_configs\<close>.
\<close>

definition process_configs ::
  "files \<Rightarrow> remote \<Rightarrow> (pyval \<Rightarrow> string) \<Rightarrow> int \<Rightarrow> config list \<Rightarrow> state
     \<Rightarrow> (py_error + dataframe) \<times> state" where
  "process_configs files remote fmt max_retries configs s =
     (case run_configs files remote fmt max_retries configs [] s of
        (dfs, s1) \<Rightarrow>
          if dfs = [] then (Inl ValueError, s1)
          else
            (let master_df = concat_frames dfs
             in case fill_missing_postal remote (rows master_df) s1 of
                  (Inl e, s2) \<Rightarrow> (Inl e, s2)
                | (Inr rows', s2) \<Rightarrow> (Inr (master_df\<lparr>rows := rows'\<rparr>), s2)))"

definition process_all_provinces ::
  "files \<Rightarrow> remote \<Rightarrow> (pyval \<Rightarrow> string) \<Rightarrow> int \<Rightarrow> state \<Rightarrow> (py_error + dataframe) \<times> state" where
  "process_all_provinces files remote fmt max_retries s =
     process_configs files remote fmt max_retries province_configs s"

section \<open>Coordinates that come in pairs\<close>

text \<open>
  Latitude and longitude of a result are both null or both non-null; the same for
  every entry of the cache, and for every result that can be extracted from an answer
  of the service.
\<close>

definition paired :: "pyval \<times> pyval \<times> pyval \<Rightarrow> bool" where
  "paired g = (case g of (lat, lng, postal) \<Rightarrow> isna lat = isna lng)"

definition cache_paired :: "state \<Rightarrow> bool" where
  "cache_paired s = (\<forall>a g. cache s a = Some g \<longrightarrow> paired g)"

definition service_paired :: "remote \<Rightarrow> bool" where
  "service_paired remote =
     (\<forall>n req data g. remote n req = Json data \<and> extract_forward data = Inr (Some g) \<longrightarrow> paired g)"

definition coords_paired :: "row \<Rightarrow> bool" where
  "coords_paired r =
     (\<exists>lat lng. map_of r ''Latitude'' = Some lat \<and> map_of r ''Longitude'' = Some lng
        \<and> isna lat = isna lng)"

section \<open>What a run depends on\<close>

text \<open>
  Two states between which the program cannot tell: the same key, the same cache and
  the same number of requests sent. The lines printed and the pauses made are read by
  no part of the program.
\<close>

definition same_service :: "state \<Rightarrow> state \<Rightarrow> bool" where
  "same_service s t =
     (api_key s = api_key t \<and> cache s = cache t \<and> requests_made s = requests_made t)"


section \<open>Example inputs\<close>

definition ab_row :: row where
  "ab_row =
     [(''StoreName'', PStr ''Green Leaf''), (''City'', PStr ''Calgary''),
      (''Address'', PStr ''1 Main St''), (''PostalCode'', PNaN),
      (''Province'', PStr ''AB''), (''FullProvinceName'', PStr ''Alberta''),
      (''Latitude'', PNone), (''Longitude'', PNone)]"

definition no_fmt :: "pyval \<Rightarrow> string" where
  "no_fmt v = []"

text \<open>An answer with status \<^verbatim>\<open>"OK"\<close> whose latitude is \<^verbatim>\<open>null\<close>.\<close>

definition half_response :: pyval where
  "half_response =
     PDict [(''status'', PStr ''OK''),
            (''results'',
             PList [PDict [
               (''geometry'',
                PDict [(''location'', PDict [(''lat'', PNone), (''lng'', PNum (-114))])]),
               (''address_components'', PList [])]])]"

text \<open>A row of a British Columbia table whose postal code cell holds the number 0.\<close>

definition bc_row :: row where
  "bc_row =
     [(''FullAddress'', PStr ''1 Main St''), (''City'', PStr ''Hope''),
      (''PostalCode'', PNum 0), (''Province'', PStr ''BC''),
      (''FullProvinceName'', PStr ''British Columbia''),
      (''Latitude'', PNone), (''Longitude'', PNone), (''Address'', PNone)]"

text \<open>A table in the format of the Alberta file, with one store in Alberta and one
  elsewhere.\<close>

definition small_table :: dataframe where
  "small_table =
     \<lparr>columns = [''Establishment Name'', ''Site Province Abbrev''],
      rows = [[(''Establishment Name'', PStr ''Green Leaf''),
               (''Site Province Abbrev'', PStr ''AB'')],
              [(''Establishment Name'', PStr ''High Tide''),
               (''Site Province Abbrev'', PStr ''BC'')]]\<rparr>"

text \<open>Two rows of the combined frame after forward enrichment: one with its postal
  code, one with coordinates and no postal code.\<close>

definition filled_row :: row where
  "filled_row =
     [(''Address'', PStr ''1 Main St''), (''PostalCode'', PStr ''T5J 0N3''),
      (''Latitude'', PNum 53), (''Longitude'', PNum (-113))]"

definition unfilled_row :: row where
  "unfilled_row =
     [(''Address'', PStr ''2 Oak St''), (''PostalCode'', PNaN),
      (''Latitude'', PNum 51), (''Longitude'', PNum (-114))]"

text \<open>A service that is out of order for its first three requests (a transport
  failure, a status other than \<^verbatim>\<open>"OK"\<close>, an answer without a location) and answers
  from then on; a record that already holds coordinates, and the record after it.\<close>

definition outage :: remote where
  "outage n req =
     (if n = 0 then RequestFailed
      else if n = 1 then Json zero_results
      else if n = 2 then Json no_location
      else Json (ok_response 51 (-114) ''T2P 1J9''))"

definition stale_row :: row where
  "stale_row =
     [(''StoreName'', PStr ''Green Leaf''), (''City'', PStr ''Calgary''),
      (''Address'', PStr ''1 Main St''), (''PostalCode'', PNaN),
      (''Province'', PStr ''AB''), (''FullProvinceName'', PStr ''Alberta''),
      (''Latitude'', PNum 50), (''Longitude'', PNum (-110))]"

definition next_row :: row where
  "next_row =
     [(''StoreName'', PStr ''High Tide''), (''City'', PStr ''Edmonton''),
      (''Address'', PStr ''2 Oak St''), (''PostalCode'', PNaN),
      (''Province'', PStr ''AB''), (''FullProvinceName'', PStr ''Alberta''),
      (''Latitude'', PNone), (''Longitude'', PNone)]"

section \<open>Proofs: the address cleaner\<close>

lemma space_not_digit: "is_space c \<Longrightarrow> \<not> is_digit c"
  by (auto simp: is_space_def is_digit_def)

lemma match_One: "match_here (One k # p) s =
  (case s of [] \<Rightarrow> None | c # cs \<Rightarrow> if in_cls k c then map_option Suc (match_here p cs) else None)"
  by (cases s) simp_all

lemma match_tail3: "match_here [One Digit, One Letter, One Digit] s = Some n \<longleftrightarrow>
   n = 3 \<and> (\<exists>d e f r. s = d # e # f # r \<and> is_digit d \<and> is_ascii_letter e \<and> is_digit f)"
  by (auto simp: match_One split: list.splits if_splits)

lemma match_tail3_None: "match_here [One Digit, One Letter, One Digit] s = None \<longleftrightarrow>
   \<not> (\<exists>d e f r. s = d # e # f # r \<and> is_digit d \<and> is_ascii_letter e \<and> is_digit f)"
  by (auto simp: match_One split: list.splits if_splits)

lemma match_tail4: "match_here [Opt Space, One Digit, One Letter, One Digit] s = Some n \<longleftrightarrow>
   (n = 3 \<and> (\<exists>d e f r. s = d # e # f # r \<and> is_digit d \<and> is_ascii_letter e \<and> is_digit f))
 \<or> (n = 4 \<and> (\<exists>sp d e f r. s = sp # d # e # f # r \<and> is_space sp \<and> is_digit d \<and> is_ascii_letter e \<and> is_digit f))"
proof (cases s)
  case Nil
  then show ?thesis by simp
next
  case (Cons c cs)
  show ?thesis
  proof (cases "is_space c")
    case True
    then have nd: "\<not> is_digit c" by (rule space_not_digit)
    have t: "match_here [One Digit, One Letter, One Digit] (c # cs) = None"
      using nd by simp
    show ?thesis using True nd Cons t
      by (auto simp: match_tail3 split: option.splits)
  next
    case False
    then show ?thesis using Cons by (auto simp del: match_here.simps(3) simp: match_tail3)
  qed
qed

lemma postal_shape_iff: "postal_shape m \<longleftrightarrow>
    (\<exists>a b c d e f. m = [a, b, c, d, e, f] \<and> is_ascii_letter a \<and> is_digit b \<and> is_ascii_letter c
        \<and> is_digit d \<and> is_ascii_letter e \<and> is_digit f)
  \<or> (\<exists>a b c sp d e f. m = [a, b, c, sp, d, e, f] \<and> is_ascii_letter a \<and> is_digit b \<and> is_ascii_letter c
        \<and> is_space sp \<and> is_digit d \<and> is_ascii_letter e \<and> is_digit f)"
  unfolding postal_shape_def by (auto simp: list_all2_Cons1)

lemma postal_shape_length: "postal_shape m \<Longrightarrow> length m = 6 \<or> length m = 7"
  unfolding postal_shape_iff by auto

lemma match_postal_cases: "match_here postal_pattern s = Some n \<longleftrightarrow>
     (\<exists>m r. s = m @ r \<and> postal_shape m \<and> n = length m)"
proof -
  have "match_here postal_pattern s = Some n \<longleftrightarrow>
     (\<exists>a b c r m. s = a # b # c # r \<and> is_ascii_letter a \<and> is_digit b \<and> is_ascii_letter c
        \<and> match_here [Opt Space, One Digit, One Letter, One Digit] r = Some m \<and> n = m + 3)"
    unfolding postal_pattern_def
    by (auto simp del: match_here.simps(5) simp: match_One split: list.splits if_splits)
  also have "\<dots> \<longleftrightarrow> (\<exists>m r. s = m @ r \<and> postal_shape m \<and> n = length m)"
    unfolding match_tail4 postal_shape_iff
    apply (rule iffI)
     apply (elim exE conjE disjE)
      apply (rule_tac x="take 6 s" in exI, rule_tac x="drop 6 s" in exI, simp)
     apply (rule_tac x="take 7 s" in exI, rule_tac x="drop 7 s" in exI, simp)
    apply (elim exE conjE disjE)
     apply simp
    apply simp
    done
  finally show ?thesis .
qed

lemma match_postal: "match_here postal_pattern s = Some n \<longleftrightarrow>
   n \<le> length s \<and> postal_shape (take n s)"
proof
  assume "match_here postal_pattern s = Some n"
  then obtain m r where "s = m @ r" "postal_shape m" "n = length m"
    unfolding match_postal_cases by blast
  then show "n \<le> length s \<and> postal_shape (take n s)" by simp
next
  assume a: "n \<le> length s \<and> postal_shape (take n s)"
  have "s = take n s @ drop n s" by simp
  moreover have "n = length (take n s)" using a by simp
  ultimately show "match_here postal_pattern s = Some n"
    unfolding match_postal_cases using a by blast
qed

lemma search_Some: "search p s = Some (i, n) \<longleftrightarrow>
   i \<le> length s \<and> match_here p (drop i s) = Some n \<and> (\<forall>j<i. match_here p (drop j s) = None)"
proof (induction s arbitrary: i)
  case Nil
  then show ?case by auto
next
  case (Cons c cs)
  show ?case
  proof (cases "match_here p (c # cs)")
    case (Some k)
    then show ?thesis by (cases i) auto
  next
    case None
    show ?thesis
    proof (cases i)
      case 0
      then show ?thesis using None by simp
    next
      case (Suc i')
      have "(\<forall>j<Suc i'. match_here p (drop j (c # cs)) = None) \<longleftrightarrow>
            (\<forall>j<i'. match_here p (drop j cs) = None)"
        using None by (auto simp: less_Suc_eq_0_disj)
      then show ?thesis using None Suc Cons.IH [of i'] by auto
    qed
  qed
qed

lemma search_None: "search p s = None \<longleftrightarrow> (\<forall>j\<le>length s. match_here p (drop j s) = None)"
proof (induction s)
  case Nil
  then show ?case by auto
next
  case (Cons c cs)
  have "(\<forall>j\<le>length (c # cs). match_here p (drop j (c # cs)) = None) \<longleftrightarrow>
        match_here p (c # cs) = None \<and> (\<forall>j\<le>length cs. match_here p (drop j cs) = None)"
  proof
    assume a: "\<forall>j\<le>length (c # cs). match_here p (drop j (c # cs)) = None"
    have "match_here p (c # cs) = None" using a [rule_format, of 0] by simp
    moreover have "\<forall>j\<le>length cs. match_here p (drop j cs) = None"
    proof (intro allI impI)
      fix j assume "j \<le> length cs"
      then show "match_here p (drop j cs) = None" using a [rule_format, of "Suc j"] by simp
    qed
    ultimately show "match_here p (c # cs) = None \<and> (\<forall>j\<le>length cs. match_here p (drop j cs) = None)" by simp
  next
    assume a: "match_here p (c # cs) = None \<and> (\<forall>j\<le>length cs. match_here p (drop j cs) = None)"
    show "\<forall>j\<le>length (c # cs). match_here p (drop j (c # cs)) = None"
    proof (intro allI impI)
      fix j assume j: "j \<le> length (c # cs)"
      show "match_here p (drop j (c # cs)) = None"
      proof (cases j)
        case 0 then show ?thesis using a by simp
      next
        case (Suc j') then show ?thesis using a j by simp
      qed
    qed
  qed
  then show ?case using Cons.IH by (auto split: option.splits)
qed

lemma postal_at_iff:
  "postal_at a i m \<longleftrightarrow>
     i \<le> length a \<and> match_here postal_pattern (drop i a) = Some (length m)
     \<and> m = take (length m) (drop i a)"
  unfolding postal_at_def match_postal by auto

lemma search_postal_Some:
  assumes "search postal_pattern a = Some (i, n)"
  shows "postal_at a i (take n (drop i a))"
    and "postal_at a j m' \<Longrightarrow> i < j \<or> (j = i \<and> m' = take n (drop i a))"
proof -
  from assms have i: "i \<le> length a"
    and mt: "match_here postal_pattern (drop i a) = Some n"
    and mn: "\<forall>j<i. match_here postal_pattern (drop j a) = None"
    unfolding search_Some by auto
  from mt have n: "n \<le> length (drop i a)" unfolding match_postal by simp
  then have len: "length (take n (drop i a)) = n" by simp
  show "postal_at a i (take n (drop i a))"
    unfolding postal_at_iff len using i mt by simp
  assume "postal_at a j m'"
  then have j: "match_here postal_pattern (drop j a) = Some (length m')"
    and m': "m' = take (length m') (drop j a)"
    unfolding postal_at_iff by auto
  show "i < j \<or> (j = i \<and> m' = take n (drop i a))"
  proof (cases "i < j")
    case True
    then show ?thesis by simp
  next
    case False
    have "\<not> j < i" using mn j by auto
    with False have ji: "j = i" by simp
    with j mt have "length m' = n" by simp
    with m' ji show ?thesis by simp
  qed
qed

lemma search_postal_None: "search postal_pattern a = None \<longleftrightarrow> \<not> has_postal a"
proof
  assume s: "search postal_pattern a = None"
  show "\<not> has_postal a"
  proof
    assume "has_postal a"
    then obtain i m where "postal_at a i m" unfolding has_postal_def by blast
    then have "i \<le> length a" "match_here postal_pattern (drop i a) = Some (length m)"
      unfolding postal_at_iff by auto
    with s show False unfolding search_None by auto
  qed
next
  assume n: "\<not> has_postal a"
  show "search postal_pattern a = None"
  proof (cases "search postal_pattern a")
    case None
    then show ?thesis .
  next
    case (Some r)
    obtain i k where "r = (i, k)" by (cases r)
    with Some have "postal_at a i (take k (drop i a))" using search_postal_Some(1) by simp
    with n show ?thesis unfolding has_postal_def by blast
  qed
qed

lemma sub_aux_no_match:
  "\<forall>j\<le>length s. match_here p (drop j s) = None \<Longrightarrow> sub_aux p 0 s = s"
proof (induction s)
  case Nil
  then show ?case by simp
next
  case (Cons c cs)
  have h: "match_here p (c # cs) = None" using Cons.prems [rule_format, of 0] by simp
  have "\<forall>j\<le>length cs. match_here p (drop j cs) = None"
  proof (intro allI impI)
    fix j assume "j \<le> length cs"
    then show "match_here p (drop j cs) = None"
      using Cons.prems [rule_format, of "Suc j"] by simp
  qed
  then have "sub_aux p 0 cs = cs" by (rule Cons.IH)
  with h show ?case by simp
qed

lemma re_sub_no_match: "search p s = None \<Longrightarrow> re_sub_empty p s = s"
  unfolding re_sub_empty_def search_None by (rule sub_aux_no_match)


lemma clean_postal_None:
  "search postal_pattern a = None \<Longrightarrow>
     clean_bc_address fmt (PStr a) city province
       = (PStr (strip (re_sub_empty (remove_pattern (py_str fmt city) province None) a)), PNone)"
  by (simp add: clean_bc_address_def Let_def)



lemma lower_comma: "lower_chr c = lower_chr CHR '','' \<Longrightarrow> c = CHR '',''"
proof -
  assume a: "lower_chr c = lower_chr CHR '',''"
  have r: "lower_chr CHR '','' = CHR '',''" by (simp add: lower_chr_def)
  let ?n = "of_char c :: nat"
  show ?thesis
  proof (cases "(65 \<le> ?n \<and> ?n \<le> 90) \<or> (192 \<le> ?n \<and> ?n \<le> 222 \<and> ?n \<noteq> 215)")
    case True
    then have "lower_chr c = char_of (?n + 32)" unfolding lower_chr_def Let_def by (rule if_P)
    with a r have "char_of (?n + 32) = CHR '',''" by simp
    then have "of_char (char_of (?n + 32) :: char) = (of_char CHR '','' :: nat)" by simp
    then have "(?n + 32) mod 256 = 44" by simp
    with True show ?thesis by auto
  next
    case False
    then have "lower_chr c = c" unfolding lower_chr_def Let_def by (rule if_not_P)
    with a r show ?thesis by simp
  qed
qed

lemma count_dropWhile: "\<not> P c \<Longrightarrow> count_list (dropWhile P s) c = count_list s c"
  by (induction s) auto

lemma count_rev: "count_list (rev s) c = count_list s c"
  by (induction s) auto

lemma count_strip: "\<not> is_space c \<Longrightarrow> count_list (strip s) c = count_list s c"
  by (simp add: strip_def count_rev count_dropWhile)

lemma count_sub_aux_le: "count_list (sub_aux p k s) c \<le> count_list s c"
proof (induction p k s rule: sub_aux.induct)
  case (1 p k)
  then show ?case by simp
next
  case (2 p k c cs)
  then show ?case by (simp add: le_SucI)
next
  case (3 p c cs)
  then show ?case by (auto split: option.splits nat.splits simp: le_SucI)
qed

lemma subseq_sub_aux: "subseq (sub_aux p k s) s"
proof (induction p k s rule: sub_aux.induct)
  case (1 p k)
  then show ?case by simp
next
  case (2 p k c cs)
  then show ?case by (simp add: list_emb_Cons)
next
  case (3 p c cs)
  then show ?case by (auto split: option.splits nat.splits)
qed

lemma sub_aux_drop: "sub_aux p k s = sub_aux p 0 (drop k s)"
proof (induction p k s rule: sub_aux.induct)
  case (1 p k)
  then show ?case by simp
next
  case (2 p k c cs)
  then show ?case by simp
next
  case (3 p c cs)
  then show ?case by simp
qed


lemma match_One_pos: "match_here (One k # p) s = Some n \<Longrightarrow> 0 < n"
  by (cases s) (auto split: if_splits)

lemma re_sub_first_match:
  "search p s = Some (i, n) \<Longrightarrow> 0 < n \<Longrightarrow>
     re_sub_empty p s = take i s @ re_sub_empty p (drop (i + n) s)"
proof (induction s arbitrary: i)
  case Nil
  then show ?case by (auto simp: re_sub_empty_def)
next
  case (Cons c cs)
  show ?case
  proof (cases "match_here p (c # cs)")
    case (Some k)
    with Cons.prems have i: "i = 0" and k: "k = n" by auto
    obtain n' where n': "n = Suc n'" using Cons.prems(2) by (cases n) auto
    have "sub_aux p 0 (c # cs) = sub_aux p n' cs" using Some k n' by simp
    also have "\<dots> = sub_aux p 0 (drop n' cs)" by (rule sub_aux_drop)
    finally show ?thesis using i n' by (simp add: re_sub_empty_def)
  next
    case None
    with Cons.prems(1) obtain i' where i': "i = Suc i'" and s: "search p cs = Some (i', n)"
      by (auto split: option.splits)
    have "re_sub_empty p cs = take i' cs @ re_sub_empty p (drop (i' + n) cs)"
      using s Cons.prems(2) by (rule Cons.IH)
    then show ?thesis using None i' by (simp add: re_sub_empty_def)
  qed
qed

lemma count_sub_aux_less:
  assumes "search (One (LitCI CHR '','') # p) s \<noteq> None"
  shows "count_list (sub_aux (One (LitCI CHR '','') # p) 0 s) CHR '','' < count_list s CHR '',''"
  using assms
proof (induction s)
  case Nil
  then show ?case by simp
next
  case (Cons c cs)
  let ?p = "One (LitCI CHR '','') # p"
  show ?case
  proof (cases "match_here ?p (c # cs)")
    case (Some k)
    then have c: "c = CHR '',''" by (auto split: if_splits dest: lower_comma)
    obtain k' where k': "k = Suc k'" using Some match_One_pos [of "LitCI CHR '',''" p "c # cs" k]
      by (cases k) auto
    have "sub_aux ?p 0 (c # cs) = sub_aux ?p k' cs" using Some k' by simp
    moreover have "count_list (sub_aux ?p k' cs) CHR '','' \<le> count_list cs CHR '',''"
      by (rule count_sub_aux_le)
    ultimately show ?thesis using c by simp
  next
    case None
    then have "search ?p cs \<noteq> None" using Cons.prems by (auto split: option.splits)
    then have "count_list (sub_aux ?p 0 cs) CHR '','' < count_list cs CHR '',''"
      by (rule Cons.IH)
    then show ?thesis using None by simp
  qed
qed

text \<open>
  C7, as stated, fails: an address without a postal code that ends in the city and
  the province loses that suffix, so it does not come back unchanged apart from
  trimming.
\<close>

theorem clean_bc_address_unchanged_counterexample:
  "\<not> has_postal ''12 Main St, Vancouver, British Columbia''
   \<and> clean_bc_address (\<lambda>v. []) (PStr ''12 Main St, Vancouver, British Columbia'')
        (PStr ''Vancouver'') ''British Columbia''
      = (PStr ''12 Main St'', PNone)
   \<and> strip ''12 Main St, Vancouver, British Columbia''
      = ''12 Main St, Vancouver, British Columbia''"
proof -
  have "search postal_pattern ''12 Main St, Vancouver, British Columbia'' = None"
    by code_simp
  then have "\<not> has_postal ''12 Main St, Vancouver, British Columbia''"
    using search_postal_None by blast
  moreover have "clean_bc_address (\<lambda>v. []) (PStr ''12 Main St, Vancouver, British Columbia'')
        (PStr ''Vancouver'') ''British Columbia'' = (PStr ''12 Main St'', PNone)"
    by code_simp
  moreover have "strip ''12 Main St, Vancouver, British Columbia''
      = ''12 Main St, Vancouver, British Columbia''"
    by code_simp
  ultimately show ?thesis by blast
qed

text \<open>
  C7, amended. For an address with no substring of the postal-code shape, and a
  province free of the special characters of \<^verbatim>\<open>re\<close>, the extracted postal code is
  \<^verbatim>\<open>None\<close>. The cleaned address is the address with characters deleted and then
  trimmed: the leftmost match of comma, city, optional comma, province (with the white
  space between and after them) is cut out and what follows it is treated the same
  way. It is the address unchanged apart from trimming exactly when that pattern
  matches nowhere.
\<close>

theorem clean_bc_address_without_postal:
  "\<not> has_postal a \<and> plain_text province \<longrightarrow>
     snd (clean_bc_address fmt (PStr a) city province) = PNone
     \<and> (\<exists>cleaned. fst (clean_bc_address fmt (PStr a) city province) = PStr (strip cleaned)
                    \<and> subseq cleaned a)
     \<and> ((fst (clean_bc_address fmt (PStr a) city province) = PStr (strip a))
          = (search (remove_pattern (py_str fmt city) province None) a = None))
     \<and> (search (remove_pattern (py_str fmt city) province None) a = Some (i, n)
          \<longrightarrow> fst (clean_bc_address fmt (PStr a) city province)
                = PStr (strip (take i a
                     @ re_sub_empty (remove_pattern (py_str fmt city) province None)
                         (drop (i + n) a))))"
proof
  assume h: "\<not> has_postal a \<and> plain_text province"
  let ?p = "remove_pattern (py_str fmt city) province None"
  obtain p' where p': "?p = One (LitCI CHR '','') # p'" by (simp add: remove_pattern_def)
  from h have s: "search postal_pattern a = None" using search_postal_None by blast
  have c: "clean_bc_address fmt (PStr a) city province = (PStr (strip (re_sub_empty ?p a)), PNone)"
    using s by (rule clean_postal_None)
  have 1: "snd (clean_bc_address fmt (PStr a) city province) = PNone" using c by simp
  have "subseq (re_sub_empty ?p a) a" unfolding re_sub_empty_def by (rule subseq_sub_aux)
  then have 2: "\<exists>cleaned. fst (clean_bc_address fmt (PStr a) city province) = PStr (strip cleaned)
                    \<and> subseq cleaned a"
    using c by auto
  have 3: "(fst (clean_bc_address fmt (PStr a) city province) = PStr (strip a))
          = (search ?p a = None)"
  proof
    assume e: "fst (clean_bc_address fmt (PStr a) city province) = PStr (strip a)"
    show "search ?p a = None"
    proof (rule ccontr)
      assume "search ?p a \<noteq> None"
      then have "count_list (sub_aux ?p 0 a) CHR '','' < count_list a CHR '',''"
        unfolding p' by (rule count_sub_aux_less)
      moreover have "\<not> is_space CHR '',''" by (simp add: is_space_def)
      ultimately have "count_list (strip (re_sub_empty ?p a)) CHR '',''
                         < count_list (strip a) CHR '',''"
        by (simp add: count_strip re_sub_empty_def)
      then show False using e c by simp
    qed
  next
    assume "search ?p a = None"
    then show "fst (clean_bc_address fmt (PStr a) city province) = PStr (strip a)"
      using c by (simp add: re_sub_no_match)
  qed
  have 4: "search ?p a = Some (i, n)
          \<longrightarrow> fst (clean_bc_address fmt (PStr a) city province)
                = PStr (strip (take i a @ re_sub_empty ?p (drop (i + n) a)))"
  proof
    assume m: "search ?p a = Some (i, n)"
    then have "match_here ?p (drop i a) = Some n" unfolding search_Some by simp
    then have "0 < n" unfolding p' by (rule match_One_pos)
    with m have "re_sub_empty ?p a = take i a @ re_sub_empty ?p (drop (i + n) a)"
      by (rule re_sub_first_match)
    then show "fst (clean_bc_address fmt (PStr a) city province)
                = PStr (strip (take i a @ re_sub_empty ?p (drop (i + n) a)))"
      using c by simp
  qed
  show "snd (clean_bc_address fmt (PStr a) city province) = PNone
     \<and> (\<exists>cleaned. fst (clean_bc_address fmt (PStr a) city province) = PStr (strip cleaned)
                    \<and> subseq cleaned a)
     \<and> ((fst (clean_bc_address fmt (PStr a) city province) = PStr (strip a))
          = (search ?p a = None))
     \<and> (search ?p a = Some (i, n)
          \<longrightarrow> fst (clean_bc_address fmt (PStr a) city province)
                = PStr (strip (take i a @ re_sub_empty ?p (drop (i + n) a))))"
    using 1 2 3 4 by (intro conjI)
qed

theorem clean_bc_address_without_postal_witness:
  "\<not> has_postal ''  77 Oak Ave, Kelowna  ''
   \<and> plain_text ''British Columbia''
   \<and> search (remove_pattern ''Kelowna'' ''British Columbia'' None) ''  77 Oak Ave, Kelowna  '' = None
   \<and> clean_bc_address no_fmt (PStr ''  77 Oak Ave, Kelowna  '') (PStr ''Kelowna'')
        ''British Columbia''
      = (PStr ''77 Oak Ave, Kelowna'', PNone)
   \<and> \<not> has_postal ''12 Main St, Vancouver,  british columbia  ''
   \<and> search (remove_pattern ''Vancouver'' ''British Columbia'' None)
        ''12 Main St, Vancouver,  british columbia  '' = Some (10, 32)
   \<and> clean_bc_address no_fmt (PStr ''12 Main St, Vancouver,  british columbia  '')
        (PStr ''Vancouver'') ''British Columbia''
      = (PStr ''12 Main St'', PNone)"
proof -
  let ?a = "''  77 Oak Ave, Kelowna  ''"
  let ?b = "''12 Main St, Vancouver,  british columbia  ''"
  have pt: "plain_text ''British Columbia''" by code_simp
  have s: "search postal_pattern ?a = None" by code_simp
  have h: "\<not> has_postal ?a" using s search_postal_None by blast
  have r: "search (remove_pattern ''Kelowna'' ''British Columbia'' None) ?a = None" by code_simp
  have t: "strip ?a = ''77 Oak Ave, Kelowna''" by code_simp
  have ha: "\<not> has_postal ?a \<and> plain_text ''British Columbia''" using h pt by simp
  note A = clean_bc_address_without_postal
        [where a = ?a and province = "''British Columbia''" and fmt = no_fmt
           and city = "PStr ''Kelowna''", THEN mp, OF ha]
  have "fst (clean_bc_address no_fmt (PStr ?a) (PStr ''Kelowna'') ''British Columbia'')
          = PStr (strip ?a)"
    using A [THEN conjunct2, THEN conjunct2, THEN conjunct1] r by (simp only: py_str.simps)
  then have 1: "clean_bc_address no_fmt (PStr ?a) (PStr ''Kelowna'') ''British Columbia''
          = (PStr ''77 Oak Ave, Kelowna'', PNone)"
    using A [THEN conjunct1] t by (simp add: prod_eq_iff)
  have s2: "search postal_pattern ?b = None" by code_simp
  have h2: "\<not> has_postal ?b" using s2 search_postal_None by blast
  have r2: "search (remove_pattern ''Vancouver'' ''British Columbia'' None) ?b = Some (10, 32)"
    by code_simp
  have t2: "strip (take 10 ?b @ re_sub_empty (remove_pattern ''Vancouver'' ''British Columbia'' None)
                     (drop (10 + 32) ?b)) = ''12 Main St''"
    by code_simp
  have hb: "\<not> has_postal ?b \<and> plain_text ''British Columbia''" using h2 pt by simp
  note B = clean_bc_address_without_postal
        [where a = ?b and province = "''British Columbia''" and fmt = no_fmt
           and city = "PStr ''Vancouver''" and i = 10 and n = 32, THEN mp, OF hb]
  have "fst (clean_bc_address no_fmt (PStr ?b) (PStr ''Vancouver'') ''British Columbia'')
          = PStr (strip (take 10 ?b
               @ re_sub_empty (remove_pattern ''Vancouver'' ''British Columbia'' None)
                   (drop (10 + 32) ?b)))"
    using B [THEN conjunct2, THEN conjunct2, THEN conjunct2] r2 by (simp only: py_str.simps)
  then have 2: "clean_bc_address no_fmt (PStr ?b) (PStr ''Vancouver'') ''British Columbia''
          = (PStr ''12 Main St'', PNone)"
    using B [THEN conjunct1] t2 by (simp add: prod_eq_iff)
  show ?thesis
    apply (intro conjI)
          apply (rule h)
         apply (rule pt)
        apply (rule r)
       apply (rule 1)
      apply (rule h2)
     apply (rule r2)
    apply (rule 2)
    done
qed

section \<open>Proofs: the geocoding service\<close>

lemma requests_made_emit_NetGet [simp]:
  "requests_made (emit (NetGet r) s) = Suc (requests_made s)"
  by (simp add: requests_made_def emit_def)

lemma requests_made_emit_Print [simp]:
  "requests_made (emit (Print m) s) = requests_made s"
  by (simp add: requests_made_def emit_def)

lemma requests_made_emit_Sleep [simp]:
  "requests_made (emit (Sleep d) s) = requests_made s"
  by (simp add: requests_made_def emit_def)

lemma requests_made_cache [simp]: "requests_made (s\<lparr>cache := c\<rparr>) = requests_made s"
  by (simp add: requests_made_def)

lemma emit_fields [simp]:
  "cache (emit e s) = cache s"
  "api_key (emit e s) = api_key s"
  "trace (emit e s) = trace s @ [e]"
  by (simp_all add: emit_def)

lemma not_resolved_extract:
  "not_resolved (Json data) \<Longrightarrow> extract_forward data = Inr (Some g) \<Longrightarrow> False"
  by (auto simp: not_resolved_def extract_forward_def)

text \<open>The ways a call of \<open>get_coordinates\<close> can go.\<close>

lemma get_coordinates_immediate:
  "address = PStr [] \<or> \<not> is_str address \<Longrightarrow>
     get_coordinates remote address s = (unresolved, s)"
  by (cases address) (auto simp: get_coordinates_def)

lemma get_coordinates_hit:
  "a \<noteq> [] \<Longrightarrow> cache s a = Some g \<Longrightarrow> get_coordinates remote (PStr a) s = (g, s)"
  by (simp add: get_coordinates_def)

lemma get_coordinates_miss_failed:
  assumes "a \<noteq> []" "cache s a = None"
    and "not_resolved (remote (requests_made s) (ForwardRequest (api_key s) a))"
  shows "fst (get_coordinates remote (PStr a) s) = unresolved"
    and "cache (snd (get_coordinates remote (PStr a) s)) = cache s"
    and "api_key (snd (get_coordinates remote (PStr a) s)) = api_key s"
    and "\<exists>evs. trace (snd (get_coordinates remote (PStr a) s))
                 = trace s @ NetGet (ForwardRequest (api_key s) a) # evs
               \<and> (\<forall>e\<in>set evs. \<not> is_request e)"
  using assms
  by (auto simp: get_coordinates_def Let_def
           split: http_outcome.splits sum.splits option.splits
           dest: not_resolved_extract)

lemma get_coordinates_miss_ok:
  assumes "a \<noteq> []" "cache s a = None"
    and "remote (requests_made s) (ForwardRequest (api_key s) a) = Json data"
    and "extract_forward data = Inr (Some g)"
  shows "get_coordinates remote (PStr a) s
           = (g, (emit (NetGet (ForwardRequest (api_key s) a)) s)\<lparr>cache := (cache s)(a \<mapsto> g)\<rparr>)"
  using assms by (simp add: get_coordinates_def Let_def)

lemma get_coordinates_cases:
  assumes "get_coordinates remote address s = (r, s')"
  obtains (immediate) "address = PStr [] \<or> \<not> is_str address" "r = unresolved" "s' = s"
  | (hit) a where "address = PStr a" "a \<noteq> []" "cache s a = Some r" "s' = s"
  | (failed) a where "address = PStr a" "a \<noteq> []" "cache s a = None"
      "not_resolved (remote (requests_made s) (ForwardRequest (api_key s) a))"
      "r = unresolved" "cache s' = cache s"
  | (resolved) a data where "address = PStr a" "a \<noteq> []" "cache s a = None"
      "remote (requests_made s) (ForwardRequest (api_key s) a) = Json data"
      "extract_forward data = Inr (Some r)"
      "s' = (emit (NetGet (ForwardRequest (api_key s) a)) s)\<lparr>cache := (cache s)(a \<mapsto> r)\<rparr>"
proof (cases "address = PStr [] \<or> \<not> is_str address")
  case True
  have "get_coordinates remote address s = (unresolved, s)"
    using True by (rule get_coordinates_immediate)
  with assms have "r = unresolved" "s' = s" by simp_all
  then show ?thesis using True by (rule immediate [rotated])
next
  case False
  then obtain a where a: "address = PStr a" "a \<noteq> []" by (cases address) auto
  show ?thesis
  proof (cases "cache s a")
    case (Some g)
    have "get_coordinates remote (PStr a) s = (g, s)"
      using a(2) Some by (rule get_coordinates_hit)
    with assms a(1) have "g = r" "s' = s" by simp_all
    with Some have "cache s a = Some r" by simp
    then show ?thesis using a \<open>s' = s\<close> by (intro hit [of a])
  next
    case None
    show ?thesis
    proof (cases "not_resolved (remote (requests_made s) (ForwardRequest (api_key s) a))")
      case True
      have "fst (get_coordinates remote (PStr a) s) = unresolved"
        and "cache (snd (get_coordinates remote (PStr a) s)) = cache s"
        using get_coordinates_miss_failed(1,2) [of a s remote] a(2) None True by blast+
      with assms a(1) have "r = unresolved" "cache s' = cache s" by simp_all
      then show ?thesis using a None True by (intro failed [of a])
    next
      case False
      then obtain data where d: "remote (requests_made s) (ForwardRequest (api_key s) a) = Json data"
        by (cases "remote (requests_made s) (ForwardRequest (api_key s) a)")
           (auto simp: not_resolved_def)
      have "\<exists>g. extract_forward data = Inr (Some g)"
      proof (cases "extract_forward data")
        case (Inl e)
        then show ?thesis using False d by (auto simp: not_resolved_def)
      next
        case (Inr x)
        show ?thesis
        proof (cases x)
          case None
          then have "\<exists>status. getitem data ''status'' = Inr status \<and> status \<noteq> PStr ''OK''"
            using Inr by (auto simp: extract_forward_def split: sum.splits if_splits)
          then show ?thesis using False d by (auto simp: not_resolved_def)
        next
          case (Some g)
          then have "extract_forward data = Inr (Some g)" using Inr by simp
          then show ?thesis by (rule exI)
        qed
      qed
      then obtain g where g: "extract_forward data = Inr (Some g)" by blast
      have "get_coordinates remote (PStr a) s
           = (g, (emit (NetGet (ForwardRequest (api_key s) a)) s)\<lparr>cache := (cache s)(a \<mapsto> g)\<rparr>)"
        using a(2) None d g by (rule get_coordinates_miss_ok)
      with assms a(1) have "g = r"
        and "s' = (emit (NetGet (ForwardRequest (api_key s) a)) s)\<lparr>cache := (cache s)(a \<mapsto> r)\<rparr>"
        by auto
      then show ?thesis using a None d g by (intro resolved [of a data]) simp_all
    qed
  qed
qed

lemma get_postal_from_coords_frame:
  "cache (snd (get_postal_from_coords remote lat lng s)) = cache s"
  "api_key (snd (get_postal_from_coords remote lat lng s)) = api_key s"
  "requests_made (snd (get_postal_from_coords remote lat lng s)) = Suc (requests_made s)"
  "\<exists>evs. trace (snd (get_postal_from_coords remote lat lng s))
           = trace s @ NetGet (ReverseRequest (api_key s) lat lng) # evs"
  by (auto simp: get_postal_from_coords_def Let_def
           split: http_outcome.splits sum.splits option.splits)

lemma get_postal_from_coords_cache_irrelevant:
  "get_postal_from_coords remote lat lng (s\<lparr>cache := c\<rparr>)
     = (fst (get_postal_from_coords remote lat lng s),
        (snd (get_postal_from_coords remote lat lng s))\<lparr>cache := c\<rparr>)"
  by (auto simp: get_postal_from_coords_def Let_def emit_def
           split: http_outcome.splits sum.splits option.splits)

text \<open>
  C1, as stated, fails: the first call meets a transport failure, which is not cached;
  the second call with the same query goes to the network again and returns something
  else.
\<close>

theorem get_coordinates_idempotent_counterexample:
  "fst (get_coordinates
          (\<lambda>n req. if n = 0 then RequestFailed else Json (ok_response 49 (-123) ''V5K0A1''))
          (PStr ''1 Main St'') fresh)
     = (PNone, PNone, PNone)
   \<and> fst (get_coordinates
          (\<lambda>n req. if n = 0 then RequestFailed else Json (ok_response 49 (-123) ''V5K0A1''))
          (PStr ''1 Main St'')
          (snd (get_coordinates
                  (\<lambda>n req. if n = 0 then RequestFailed
                            else Json (ok_response 49 (-123) ''V5K0A1''))
                  (PStr ''1 Main St'') fresh)))
     = (PNum 49, PNum (-123), PStr ''V5K0A1'')
   \<and> trace (snd (get_coordinates
          (\<lambda>n req. if n = 0 then RequestFailed else Json (ok_response 49 (-123) ''V5K0A1''))
          (PStr ''1 Main St'')
          (snd (get_coordinates
                  (\<lambda>n req. if n = 0 then RequestFailed
                            else Json (ok_response 49 (-123) ''V5K0A1''))
                  (PStr ''1 Main St'') fresh))))
     = [NetGet (ForwardRequest (PStr ''key'') ''1 Main St''),
        Print (ErrorGeocoding ''1 Main St'' RequestException),
        NetGet (ForwardRequest (PStr ''key'') ''1 Main St'')]"
  by (simp add: get_coordinates_def fresh_def emit_def requests_made_def unresolved_def
                extract_forward_def ok_response_def)

text \<open>
  C1, amended. When the first call with a query does not end in a failed lookup (the
  query is empty or not a string, or the query is in the cache after the call: a cache
  hit or a successful lookup), a second call with the same query returns the same
  result and leaves the whole state as it is: no request goes out, nothing is printed,
  the cache is not written. A cache hit returns the cached result at once.
\<close>

theorem get_coordinates_repeat:
  "(get_coordinates remote address s = (r, s')
      \<and> (address = PStr [] \<or> \<not> is_str address \<or> (\<exists>a. address = PStr a \<and> cache s' a \<noteq> None))
      \<longrightarrow> get_coordinates remote address s' = (r, s'))
   \<and> (a \<noteq> [] \<and> cache s a = Some g \<longrightarrow> get_coordinates remote (PStr a) s = (g, s))"
proof (intro conjI impI)
  assume h: "get_coordinates remote address s = (r, s')
      \<and> (address = PStr [] \<or> \<not> is_str address \<or> (\<exists>a. address = PStr a \<and> cache s' a \<noteq> None))"
  then have c: "get_coordinates remote address s = (r, s')" by simp
  from c show "get_coordinates remote address s' = (r, s')"
  proof (cases rule: get_coordinates_cases)
    case immediate
    then show ?thesis by (simp add: get_coordinates_immediate)
  next
    case (hit a)
    then show ?thesis by (simp add: get_coordinates_hit)
  next
    case (failed a)
    then show ?thesis using h by auto
  next
    case (resolved a data)
    then have "cache s' a = Some r" by simp
    then show ?thesis using resolved(1,2) by (simp add: get_coordinates_hit)
  qed
next
  assume "a \<noteq> [] \<and> cache s a = Some g"
  then show "get_coordinates remote (PStr a) s = (g, s)" by (simp add: get_coordinates_hit)
qed

theorem get_coordinates_repeat_witness:
  "get_coordinates (\<lambda>n req. Json (ok_response 49 (-123) ''V5K0A1'')) (PStr ''1 Main St'')
     (snd (get_coordinates (\<lambda>n req. Json (ok_response 49 (-123) ''V5K0A1''))
             (PStr ''1 Main St'') fresh))
   = get_coordinates (\<lambda>n req. Json (ok_response 49 (-123) ''V5K0A1'')) (PStr ''1 Main St'') fresh
   \<and> get_coordinates (\<lambda>n req. RequestFailed) (PStr ''1 Main St'')
     (snd (get_coordinates (\<lambda>n req. Json (ok_response 49 (-123) ''V5K0A1''))
             (PStr ''1 Main St'') fresh))
   = get_coordinates (\<lambda>n req. Json (ok_response 49 (-123) ''V5K0A1'')) (PStr ''1 Main St'') fresh
   \<and> fst (get_coordinates (\<lambda>n req. Json (ok_response 49 (-123) ''V5K0A1''))
             (PStr ''1 Main St'') fresh) = (PNum 49, PNum (-123), PStr ''V5K0A1'')
   \<and> trace (snd (get_coordinates (\<lambda>n req. Json (ok_response 49 (-123) ''V5K0A1''))
             (PStr ''1 Main St'') fresh)) = [NetGet (ForwardRequest (PStr ''key'') ''1 Main St'')]"
proof -
  let ?R = "\<lambda>(n::nat) (req::request). Json (ok_response 49 (-123) ''V5K0A1'')"
  let ?F = "\<lambda>(n::nat) (req::request). RequestFailed"
  obtain r s' where c: "get_coordinates ?R (PStr ''1 Main St'') fresh = (r, s')"
    by (cases "get_coordinates ?R (PStr ''1 Main St'') fresh")
  have r: "r = (PNum 49, PNum (-123), PStr ''V5K0A1'')"
    and t: "trace s' = [NetGet (ForwardRequest (PStr ''key'') ''1 Main St'')]"
    and k: "cache s' ''1 Main St'' = Some r"
    using c
    by (auto simp: get_coordinates_def fresh_def emit_def requests_made_def unresolved_def
                   extract_forward_def ok_response_def)
  have k': "cache s' ''1 Main St'' \<noteq> None" using k by simp
  have 1: "get_coordinates ?R (PStr ''1 Main St'') s' = (r, s')"
    using get_coordinates_repeat [of ?R "PStr ''1 Main St''" fresh r s', THEN conjunct1] c k'
    by blast
  have 2: "get_coordinates ?F (PStr ''1 Main St'') s' = (r, s')"
    using get_coordinates_repeat
            [where a = "''1 Main St''" and s = s' and g = r and remote = ?F, THEN conjunct2] k
    by simp
  show ?thesis using c r t 1 2 by simp
qed

lemma member_of_getitem: "getitem v k = Inr x \<Longrightarrow> member_of k v = Some x"
  by (cases v) (auto simp: member_of_def split: option.splits)

lemma getitem0_then_getitem:
  "getitem0 rs = Inr r \<Longrightarrow> getitem r k = Inr x \<Longrightarrow> \<exists>rest. rs = PList (r # rest)"
  by (cases rs rule: getitem0.cases) auto

lemma py_iter_not_scalar: "py_iter v = Inr xs \<Longrightarrow> \<not> is_scalar v"
  by (cases v) auto

lemma extract_forward_shape:
  assumes "extract_forward data = Inr (Some (lat, lng, pc))"
  shows "member_of ''status'' data = Some (PStr ''OK'')"
    and "coordinates_of data = Some (lat, lng)"
    and "components_of data \<noteq> None"
proof -
  from assms obtain results result geometry location comps components where
    st: "getitem data ''status'' = Inr (PStr ''OK'')"
    and rs: "getitem data ''results'' = Inr results"
    and r: "getitem0 results = Inr result"
    and g: "getitem result ''geometry'' = Inr geometry"
    and l: "getitem geometry ''location'' = Inr location"
    and la: "getitem location ''lat'' = Inr lat"
    and ln: "getitem location ''lng'' = Inr lng"
    and ac: "getitem result ''address_components'' = Inr comps"
    and it: "py_iter comps = Inr components"
    unfolding extract_forward_def
    by (auto split: sum.splits if_splits)
  show "member_of ''status'' data = Some (PStr ''OK'')" using st by (rule member_of_getitem)
  obtain rest where "results = PList (result # rest)"
    using getitem0_then_getitem [OF r g] by blast
  then have f: "first_result data = Some result"
    using member_of_getitem [OF rs] by (simp add: first_result_def)
  show "coordinates_of data = Some (lat, lng)"
    using f member_of_getitem [OF g] member_of_getitem [OF l] member_of_getitem [OF la]
      member_of_getitem [OF ln]
    by (simp add: coordinates_of_def)
  show "components_of data \<noteq> None"
    using f member_of_getitem [OF ac] py_iter_not_scalar [OF it]
    by (simp add: components_of_def)
qed

lemma not_resolved_iff:
  "not_resolved outcome \<longleftrightarrow> \<not> (\<exists>data g. outcome = Json data \<and> extract_forward data = Inr (Some g))"
proof
  assume "not_resolved outcome"
  then show "\<not> (\<exists>data g. outcome = Json data \<and> extract_forward data = Inr (Some g))"
    by (auto simp: not_resolved_def extract_forward_def)
next
  assume n: "\<not> (\<exists>data g. outcome = Json data \<and> extract_forward data = Inr (Some g))"
  show "not_resolved outcome"
  proof (cases outcome)
    case RequestFailed
    then show ?thesis by (simp add: not_resolved_def)
  next
    case InvalidJson
    then show ?thesis by (simp add: not_resolved_def)
  next
    case (Json data)
    show ?thesis
    proof (cases "extract_forward data")
      case (Inl e)
      then show ?thesis using Json by (auto simp: not_resolved_def)
    next
      case (Inr x)
      then have "x = None" using n Json by (cases x) auto
      then have "\<exists>status. getitem data ''status'' = Inr status \<and> status \<noteq> PStr ''OK''"
        using Inr by (auto simp: extract_forward_def split: sum.splits if_splits)
      then show ?thesis using Json by (auto simp: not_resolved_def)
    qed
  qed
qed

lemma rejected_not_resolved: "rejected outcome \<Longrightarrow> not_resolved outcome"
  unfolding not_resolved_iff
proof
  assume r: "rejected outcome"
  assume "\<exists>data g. outcome = Json data \<and> extract_forward data = Inr (Some g)"
  then obtain data lat lng pc where
    o: "outcome = Json data" and e: "extract_forward data = Inr (Some (lat, lng, pc))"
    by (metis prod.exhaust)
  show False using r o extract_forward_shape [OF e] by (simp add: rejected_def)
qed




text \<open>
  C9. A query that is empty or not a string yields \<^verbatim>\<open>(None, None, None)\<close> at once: the
  state after the call is the state before it, so no request went out and the cache
  was not touched.
\<close>

theorem get_coordinates_empty_query:
  "address = PStr [] \<or> \<not> is_str address \<Longrightarrow>
     get_coordinates remote address s = ((PNone, PNone, PNone), s)"
  using get_coordinates_immediate [of address remote s] by (simp add: unresolved_def)

theorem get_coordinates_empty_query_witness:
  "get_coordinates (\<lambda>n req. Json (ok_response 49 (-123) ''V5K0A1'')) (PStr []) fresh
     = ((PNone, PNone, PNone), fresh)
   \<and> get_coordinates (\<lambda>n req. Json (ok_response 49 (-123) ''V5K0A1'')) (PNum 5) fresh
     = ((PNone, PNone, PNone), fresh)
   \<and> get_coordinates (\<lambda>n req. Json (ok_response 49 (-123) ''V5K0A1'')) PNone fresh
     = ((PNone, PNone, PNone), fresh)"
  using get_coordinates_empty_query
          [of "PStr []" "\<lambda>n req. Json (ok_response 49 (-123) ''V5K0A1'')" fresh]
        get_coordinates_empty_query
          [of "PNum 5" "\<lambda>n req. Json (ok_response 49 (-123) ''V5K0A1'')" fresh]
        get_coordinates_empty_query
          [of PNone "\<lambda>n req. Json (ok_response 49 (-123) ''V5K0A1'')" fresh]
  by simp

text \<open>
  C10. A reverse lookup leaves the cache as it is, its result and its events are the
  same whatever the cache holds, and every call sends exactly one request, also a
  call that repeats the coordinates of the call before it.
\<close>

theorem get_postal_from_coords_ignores_cache:
  "cache (snd (get_postal_from_coords remote lat lng s)) = cache s
   \<and> get_postal_from_coords remote lat lng (s\<lparr>cache := c\<rparr>)
       = (fst (get_postal_from_coords remote lat lng s),
          (snd (get_postal_from_coords remote lat lng s))\<lparr>cache := c\<rparr>)
   \<and> requests_made (snd (get_postal_from_coords remote lat lng s)) = Suc (requests_made s)
   \<and> (\<exists>evs. trace (snd (get_postal_from_coords remote lat lng s))
              = trace s @ NetGet (ReverseRequest (api_key s) lat lng) # evs)
   \<and> requests_made (snd (get_postal_from_coords remote lat lng
                            (snd (get_postal_from_coords remote lat lng s))))
       = Suc (Suc (requests_made s))"
  using get_postal_from_coords_frame [of remote lat lng s]
        get_postal_from_coords_frame(3)
          [of remote lat lng "snd (get_postal_from_coords remote lat lng s)"]
        get_postal_from_coords_cache_irrelevant [where remote = remote and s = s and c = c]
  by simp

section \<open>Proofs: the enrichment loop\<close>

lemma map_of_update [simp]:
  "map_of (AList.update k v r) c = (if c = k then Some v else map_of r c)"
  by (simp add: update_conv')

lemma process_rows_length:
  "process_rows remote fmt mx code rs s = (Inr out, s') \<Longrightarrow> length out = length rs"
proof (induction rs arbitrary: s out s')
  case Nil
  then show ?case by simp
next
  case (Cons r rs)
  then show ?case
    by (auto split: prod.splits sum.splits)
qed

lemma get_coordinates_requests_le:
  "requests_made (snd (get_coordinates remote address s)) \<le> Suc (requests_made s)"
  by (auto simp: get_coordinates_def Let_def
           split: pyval.splits http_outcome.splits sum.splits option.splits)

lemma retry_loop_requests_le:
  "requests_made (snd (retry_loop remote mx q attempts r0 s))
     \<le> requests_made s + length attempts"
proof (induction attempts arbitrary: s r0)
  case Nil
  then show ?case by simp
next
  case (Cons attempt rest)
  obtain lat lng postal s1 where g: "get_coordinates remote (PStr q) s = ((lat, lng, postal), s1)"
    by (metis prod.exhaust)
  have n: "requests_made s1 \<le> Suc (requests_made s)"
    using get_coordinates_requests_le [of remote "PStr q" s] g by simp
  show ?case
  proof (cases "lat \<noteq> PNone \<and> lng \<noteq> PNone")
    case True
    then show ?thesis using g n by simp
  next
    case False
    let ?s2 = "emit (Sleep (API_DELAY * 2)) (emit (Print (RetryFailed attempt mx q)) s1)"
    have "requests_made (snd (retry_loop remote mx q rest (lat, lng, postal) ?s2))
            \<le> requests_made ?s2 + length rest"
      by (rule Cons.IH)
    then show ?thesis using False g n by simp
  qed
qed

lemma prepare_query_nonempty:
  "prepare_query fmt code row = Inr (row1, addr, q) \<Longrightarrow> q \<noteq> []"
  by (auto simp: prepare_query_def Let_def split: option.splits sum.splits prod.splits if_splits)

lemma prepare_query_keeps:
  "prepare_query fmt code row = Inr (row1, addr, q) \<Longrightarrow>
     c \<noteq> ''Address'' \<Longrightarrow> c \<noteq> ''PostalCode'' \<Longrightarrow> map_of row1 c = map_of row c"
  by (auto simp: prepare_query_def Let_def
           split: option.splits sum.splits prod.splits if_splits)

lemma geocode_row_keeps:
  assumes "geocode_row remote mx row1 addr q s = (Inr row3, s')"
    and "c \<noteq> ''PostalCode''" "c \<noteq> ''Latitude''" "c \<noteq> ''Longitude''"
  shows "map_of row3 c = map_of row1 c"
proof -
  obtain lat lng postal s1 where
    r: "retry_loop remote mx q [1..mx] (PNone, PNone, PNone) s = ((lat, lng, postal), s1)"
    by (metis prod.exhaust)
  show ?thesis
    using assms by (auto simp: geocode_row_def r Let_def split: option.splits if_splits)
qed

lemma rejected_miss_state:
  assumes "a \<noteq> []" "cache s a = None"
    and "rejected (remote (requests_made s) (ForwardRequest (api_key s) a))"
  shows "fst (get_coordinates remote (PStr a) s) = unresolved"
    and "cache (snd (get_coordinates remote (PStr a) s)) = cache s"
    and "api_key (snd (get_coordinates remote (PStr a) s)) = api_key s"
    and "requests_made (snd (get_coordinates remote (PStr a) s)) = Suc (requests_made s)"
proof -
  have f: "not_resolved (remote (requests_made s) (ForwardRequest (api_key s) a))"
    using assms(3) by (rule rejected_not_resolved)
  show "fst (get_coordinates remote (PStr a) s) = unresolved"
    and "cache (snd (get_coordinates remote (PStr a) s)) = cache s"
    and "api_key (snd (get_coordinates remote (PStr a) s)) = api_key s"
    using get_coordinates_miss_failed(1,2,3) [of a s remote] assms(1,2) f by simp_all
  show "requests_made (snd (get_coordinates remote (PStr a) s)) = Suc (requests_made s)"
    using assms(1,2) f
    by (auto simp: get_coordinates_def Let_def
             split: http_outcome.splits sum.splits option.splits
             dest: not_resolved_extract)
qed

lemma retry_loop_window:
  assumes "\<forall>k<length attempts.
             rejected (remote (requests_made s + k) (ForwardRequest (api_key s) q))"
    and "q \<noteq> []" and "cache s q = None"
  shows "\<exists>s'. retry_loop remote mx q attempts r0 s
                 = ((if attempts = [] then r0 else unresolved), s')
              \<and> cache s' = cache s \<and> api_key s' = api_key s
              \<and> requests_made s' = requests_made s + length attempts"
  using assms
proof (induction attempts arbitrary: s r0)
  case Nil
  then show ?case by simp
next
  case (Cons attempt rest)
  let ?g = "get_coordinates remote (PStr q) s"
  have f: "rejected (remote (requests_made s) (ForwardRequest (api_key s) q))"
    using Cons.prems(1) by (metis add.right_neutral length_greater_0_conv list.distinct(1))
  have m: "fst ?g = unresolved" "cache (snd ?g) = cache s" "api_key (snd ?g) = api_key s"
    "requests_made (snd ?g) = Suc (requests_made s)"
    using rejected_miss_state [of q s remote] Cons.prems(2,3) f by simp_all
  let ?s1 = "emit (Sleep (API_DELAY * 2)) (emit (Print (RetryFailed attempt mx q)) (snd ?g))"
  have "\<forall>k<length rest.
          rejected (remote (requests_made ?s1 + k) (ForwardRequest (api_key ?s1) q))"
  proof (intro allI impI)
    fix k assume "k < length rest"
    then have "Suc k < length (attempt # rest)" by simp
    then have "rejected (remote (requests_made s + Suc k) (ForwardRequest (api_key s) q))"
      using Cons.prems(1) by blast
    then show "rejected (remote (requests_made ?s1 + k) (ForwardRequest (api_key ?s1) q))"
      using m(3,4) by simp
  qed
  moreover have "cache ?s1 q = None" using m(2) Cons.prems(3) by simp
  ultimately obtain s' where
    IH: "retry_loop remote mx q rest unresolved ?s1
           = ((if rest = [] then unresolved else unresolved), s')"
      "cache s' = cache ?s1" "api_key s' = api_key ?s1"
      "requests_made s' = requests_made ?s1 + length rest"
    using Cons.IH [of ?s1 unresolved] Cons.prems(2) by blast
  have g: "?g = (unresolved, snd ?g)" using m(1) by (simp add: prod_eq_iff)
  have "retry_loop remote mx q (attempt # rest) r0 s = (unresolved, s')"
    using IH(1) by (subst retry_loop.simps, subst g) (simp add: unresolved_def)
  then show ?case using IH(2,3,4) m(2,3,4) by simp
qed

lemma get_coordinates_events:
  "\<exists>evs. trace (snd (get_coordinates remote address s)) = trace s @ evs
         \<and> Print (GeocodingFailed q') \<notin> set evs"
  by (auto simp: get_coordinates_def Let_def emit_def
           split: pyval.splits http_outcome.splits sum.splits option.splits)

lemma retry_loop_events:
  "\<exists>evs. trace (snd (retry_loop remote mx q attempts r0 s)) = trace s @ evs
         \<and> Print (GeocodingFailed q') \<notin> set evs
         \<and> (fst (fst (retry_loop remote mx q attempts r0 s)) = PNone
              \<or> fst (snd (fst (retry_loop remote mx q attempts r0 s))) = PNone
            \<longrightarrow> (\<forall>k\<in>set attempts. Print (RetryFailed k mx q) \<in> set evs))"
proof (induction attempts arbitrary: s r0)
  case Nil
  then show ?case by simp
next
  case (Cons attempt rest)
  obtain lat lng postal s1 where g: "get_coordinates remote (PStr q) s = ((lat, lng, postal), s1)"
    by (metis prod.exhaust)
  obtain e1 where t1: "trace s1 = trace s @ e1" and n1: "Print (GeocodingFailed q') \<notin> set e1"
    using get_coordinates_events [of remote "PStr q" s q'] g by auto
  show ?case
  proof (cases "lat \<noteq> PNone \<and> lng \<noteq> PNone")
    case True
    then show ?thesis using t1 n1 by (simp add: g)
  next
    case False
    let ?s2 = "emit (Sleep (API_DELAY * 2)) (emit (Print (RetryFailed attempt mx q)) s1)"
    let ?R = "retry_loop remote mx q rest (lat, lng, postal) ?s2"
    obtain e2 where t2: "trace (snd ?R) = trace ?s2 @ e2"
      and n2: "Print (GeocodingFailed q') \<notin> set e2"
      and p2: "fst (fst ?R) = PNone \<or> fst (snd (fst ?R)) = PNone
                 \<longrightarrow> (\<forall>k\<in>set rest. Print (RetryFailed k mx q) \<in> set e2)"
      using Cons.IH [of "(lat, lng, postal)" ?s2] by blast
    have r: "retry_loop remote mx q (attempt # rest) r0 s = ?R"
      using g False by (simp only: retry_loop.simps prod.case if_False)
    let ?evs = "e1 @ [Print (RetryFailed attempt mx q), Sleep (API_DELAY * 2)] @ e2"
    have "trace (snd ?R) = trace s @ ?evs" using t2 t1 by (simp add: emit_def)
    moreover have "Print (GeocodingFailed q') \<notin> set ?evs" using n1 n2 by simp
    moreover have "fst (fst ?R) = PNone \<or> fst (snd (fst ?R)) = PNone
                 \<longrightarrow> (\<forall>k\<in>set (attempt # rest). Print (RetryFailed k mx q) \<in> set ?evs)"
      using p2 by auto
    ultimately show ?thesis unfolding r by blast
  qed
qed

lemma geocode_row_run:
  assumes "map_of row1 ''PostalCode'' = Some old"
    and r: "retry_loop remote mx q [1..mx] (PNone, PNone, PNone) s = ((lat, lng, postal), sr)"
  shows "\<exists>s1 evs.
           geocode_row remote mx row1 addr q s
             = (Inr ((if isna old \<and> truthy postal then AList.update ''PostalCode'' postal else id)
                       (AList.update ''Longitude'' lng (AList.update ''Latitude'' lat row1))), s1)
           \<and> cache s1 = cache sr \<and> requests_made s1 = requests_made sr
           \<and> trace s1 = trace s @ evs
           \<and> (Print (GeocodingFailed q) \<in> set evs) = (lat = PNone \<or> lng = PNone)
           \<and> (lat = PNone \<or> lng = PNone
                \<longrightarrow> (\<forall>k\<in>{1..mx}. Print (RetryFailed k mx q) \<in> set evs))"
proof -
  obtain e where t: "trace sr = trace s @ e" and n: "Print (GeocodingFailed q) \<notin> set e"
    and p: "lat = PNone \<or> lng = PNone \<longrightarrow> (\<forall>k\<in>set [1..mx]. Print (RetryFailed k mx q) \<in> set e)"
    using retry_loop_events [of remote mx q "[1..mx]" "(PNone, PNone, PNone)" s q] r by auto
  let ?row2 = "AList.update ''Longitude'' lng (AList.update ''Latitude'' lat row1)"
  let ?row3 = "(if isna old \<and> truthy postal then AList.update ''PostalCode'' postal else id) ?row2"
  have o: "map_of ?row2 ''PostalCode'' = Some old" using assms(1) by simp
  show ?thesis
  proof (cases "lat = PNone \<or> lng = PNone")
    case True
    let ?shown = "(case map_of ?row3 ''PostalCode'' of Some v \<Rightarrow> v | None \<Rightarrow> PNone)"
    let ?s1 = "emit (Sleep API_DELAY) (emit (Print (Geocoded addr lat lng ?shown))
                 (emit (Print (GeocodingFailed q)) sr))"
    let ?evs = "e @ [Print (GeocodingFailed q), Print (Geocoded addr lat lng ?shown),
                     Sleep API_DELAY]"
    have "geocode_row remote mx row1 addr q s = (Inr ?row3, ?s1)"
      using True o by (auto simp: geocode_row_def r Let_def simp del: map_of_update)
    moreover have "cache ?s1 = cache sr" "requests_made ?s1 = requests_made sr" by simp_all
    moreover have "trace ?s1 = trace s @ ?evs" using t by (simp add: emit_def)
    moreover have "(Print (GeocodingFailed q) \<in> set ?evs) = (lat = PNone \<or> lng = PNone)"
      using True by simp
    moreover have "lat = PNone \<or> lng = PNone
                \<longrightarrow> (\<forall>k\<in>{1..mx}. Print (RetryFailed k mx q) \<in> set ?evs)"
      using p by auto
    ultimately show ?thesis by blast
  next
    case False
    let ?shown = "(case map_of ?row3 ''PostalCode'' of Some v \<Rightarrow> v | None \<Rightarrow> PNone)"
    let ?s1 = "emit (Sleep API_DELAY) (emit (Print (Geocoded addr lat lng ?shown)) sr)"
    let ?evs = "e @ [Print (Geocoded addr lat lng ?shown), Sleep API_DELAY]"
    have "geocode_row remote mx row1 addr q s = (Inr ?row3, ?s1)"
      using False o by (auto simp: geocode_row_def r Let_def simp del: map_of_update)
    moreover have "cache ?s1 = cache sr" "requests_made ?s1 = requests_made sr" by simp_all
    moreover have "trace ?s1 = trace s @ ?evs" using t by (simp add: emit_def)
    moreover have "(Print (GeocodingFailed q) \<in> set ?evs) = (lat = PNone \<or> lng = PNone)"
      using False n by simp
    ultimately show ?thesis using False by blast
  qed
qed

lemma process_rows_cells:
  "process_rows remote fmt mx code rs s = (Inr out, s') \<Longrightarrow>
     list_all2 (\<lambda>r r'. \<forall>c. c \<noteq> ''Address'' \<and> c \<noteq> ''PostalCode''
                            \<and> c \<noteq> ''Latitude'' \<and> c \<noteq> ''Longitude''
                          \<longrightarrow> map_of r' c = map_of r c) rs out"
proof (induction rs arbitrary: s out s')
  case Nil
  then show ?case by simp
next
  case (Cons r rs)
  from Cons.prems(1) obtain r' s1 out1 where
    pr: "process_row remote fmt mx code r s = (Inr r', s1)"
    and ps: "process_rows remote fmt mx code rs s1 = (Inr out1, s')"
    and o: "out = r' # out1"
    by (auto split: prod.splits sum.splits)
  from pr obtain row1 addr q where
    p: "prepare_query fmt code r = Inr (row1, addr, q)"
    and g: "geocode_row remote mx row1 addr q s = (Inr r', s1)"
    by (auto simp: process_row_def split: sum.splits prod.splits)
  have "\<forall>c. c \<noteq> ''Address'' \<and> c \<noteq> ''PostalCode''
             \<and> c \<noteq> ''Latitude'' \<and> c \<noteq> ''Longitude''
           \<longrightarrow> map_of r' c = map_of r c"
    using prepare_query_keeps [OF p] geocode_row_keeps [OF g] by simp
  then show ?case using Cons.IH [OF ps] o by simp
qed

lemma prepare_query_plain:
  "prepare_query fmt code row = Inr (row1, addr, q) \<Longrightarrow>
     code \<noteq> ''BC'' \<or> map_of row ''FullAddress'' = None \<Longrightarrow> row1 = row"
  by (auto simp: prepare_query_def Let_def
           split: option.splits sum.splits prod.splits if_splits)

text \<open>
  C4, as stated, fails for a record whose attempts all fail by the test of the loop
  itself (line 214, \<^verbatim>\<open>lat is not None and lng is not None\<close>): when the service answers
  with status \<^verbatim>\<open>"OK"\<close>, a \<^verbatim>\<open>null\<close> latitude and a longitude, the three retries are
  reported as failed, the failure diagnostic is printed, and the record is kept with
  a null latitude and the longitude of the answer.
\<close>

theorem exhausted_retries_counterexample:
  "fst (process_row (\<lambda>n req. Json half_response) no_fmt default_max_retries ''AB'' ab_row fresh)
     = Inr [(''StoreName'', PStr ''Green Leaf''), (''City'', PStr ''Calgary''),
            (''Address'', PStr ''1 Main St''), (''PostalCode'', PNaN),
            (''Province'', PStr ''AB''), (''FullProvinceName'', PStr ''Alberta''),
            (''Latitude'', PNone), (''Longitude'', PNum (-114))]
   \<and> filter (\<lambda>e. case e of Print m \<Rightarrow> True | _ \<Rightarrow> False)
        (trace (snd (process_row (\<lambda>n req. Json half_response) no_fmt default_max_retries
                       ''AB'' ab_row fresh)))
     = [Print (RetryFailed 1 3 ''1 Main St, Calgary, Alberta, Canada''),
        Print (RetryFailed 2 3 ''1 Main St, Calgary, Alberta, Canada''),
        Print (RetryFailed 3 3 ''1 Main St, Calgary, Alberta, Canada''),
        Print (GeocodingFailed ''1 Main St, Calgary, Alberta, Canada''),
        Print (Geocoded ''1 Main St'' PNone (PNum (-114)) PNaN)]"
  by code_simp

text \<open>
  C4, amended. A record whose query can be built and whose frame has a postal code
  column is never dropped, whatever the service answers: the loop body returns the
  record, sends at most \<open>max_retries\<close> requests (three by default), writes the latitude
  and longitude of the last attempt, leaves every cell other than address, postal
  code, latitude and longitude as it was in the input record, and the loop over the
  records goes on with the next one. The failure diagnostic is printed exactly when
  the latitude or the longitude written is \<^verbatim>\<open>None\<close>, and then every attempt from 1 to
  \<open>max_retries\<close> was reported as failed; the other of the two may hold a value. When
  the query is not in the cache and the service rejects each of the \<open>max_retries\<close>
  requests that follow (a transport failure, a body that is not JSON, a status other
  than \<^verbatim>\<open>"OK"\<close>, an answer that lacks a part), exactly \<open>max_retries\<close> requests are sent,
  nothing is cached, and the record is the prepared record with \<^verbatim>\<open>None\<close> as latitude
  and longitude; the prepared record is the input record unless the province is
  \<^verbatim>\<open>"BC"\<close> and the record has a \<^verbatim>\<open>FullAddress\<close>. The loop returns as many records as
  it was given, in their order. Column labels are distinct.
\<close>

theorem exhausted_retries_keep_record:
  "(distinct (map fst row)
      \<and> prepare_query fmt code row = Inr (row1, addr, q)
      \<and> map_of row1 ''PostalCode'' = Some old
    \<longrightarrow> (\<exists>row' s1 evs lat lng.
           process_row remote fmt max_retries code row s = (Inr row', s1)
           \<and> trace s1 = trace s @ evs
           \<and> requests_made s1 \<le> requests_made s + nat max_retries
           \<and> map_of row' ''Latitude'' = Some lat
           \<and> map_of row' ''Longitude'' = Some lng
           \<and> (\<forall>c. c \<noteq> ''Address'' \<and> c \<noteq> ''PostalCode''
                    \<and> c \<noteq> ''Latitude'' \<and> c \<noteq> ''Longitude''
                  \<longrightarrow> map_of row' c = map_of row c)
           \<and> (Print (GeocodingFailed q) \<in> set evs) = (lat = PNone \<or> lng = PNone)
           \<and> (lat = PNone \<or> lng = PNone
                \<longrightarrow> (\<forall>k\<in>{1..max_retries}. Print (RetryFailed k max_retries q) \<in> set evs))
           \<and> process_rows remote fmt max_retries code (row # rest) s
               = (case process_rows remote fmt max_retries code rest s1 of
                    (Inl e, s2) \<Rightarrow> (Inl e, s2)
                  | (Inr out, s2) \<Rightarrow> (Inr (row' # out), s2))))
   \<and> (distinct (map fst row)
      \<and> prepare_query fmt code row = Inr (row1, addr, q)
      \<and> map_of row1 ''PostalCode'' = Some old
      \<and> cache s q = None
      \<and> (\<forall>k<nat max_retries.
            rejected (remote (requests_made s + k) (ForwardRequest (api_key s) q)))
    \<longrightarrow> (\<exists>s1 evs.
           process_row remote fmt max_retries code row s
             = (Inr (AList.update ''Longitude'' PNone (AList.update ''Latitude'' PNone row1)), s1)
           \<and> trace s1 = trace s @ evs
           \<and> requests_made s1 = requests_made s + nat max_retries
           \<and> cache s1 = cache s
           \<and> Print (GeocodingFailed q) \<in> set evs
           \<and> (\<forall>k\<in>{1..max_retries}. Print (RetryFailed k max_retries q) \<in> set evs)
           \<and> process_rows remote fmt max_retries code (row # rest) s
               = (case process_rows remote fmt max_retries code rest s1 of
                    (Inl e, s2) \<Rightarrow> (Inl e, s2)
                  | (Inr out, s2) \<Rightarrow>
                      (Inr (AList.update ''Longitude'' PNone
                              (AList.update ''Latitude'' PNone row1) # out), s2))))
   \<and> (prepare_query fmt code row = Inr (row1, addr, q)
      \<and> (code \<noteq> ''BC'' \<or> map_of row ''FullAddress'' = None)
    \<longrightarrow> row1 = row)
   \<and> (process_rows remote fmt max_retries code rs s = (Inr out', s')
    \<longrightarrow> length out' = length rs
        \<and> list_all2 (\<lambda>r r'. \<forall>c. c \<noteq> ''Address'' \<and> c \<noteq> ''PostalCode''
                                 \<and> c \<noteq> ''Latitude'' \<and> c \<noteq> ''Longitude''
                               \<longrightarrow> map_of r' c = map_of r c) rs out')
   \<and> default_max_retries = 3"
proof -
  have 1: "distinct (map fst row)
      \<and> prepare_query fmt code row = Inr (row1, addr, q)
      \<and> map_of row1 ''PostalCode'' = Some old
    \<longrightarrow> (\<exists>row' s1 evs lat lng.
           process_row remote fmt max_retries code row s = (Inr row', s1)
           \<and> trace s1 = trace s @ evs
           \<and> requests_made s1 \<le> requests_made s + nat max_retries
           \<and> map_of row' ''Latitude'' = Some lat
           \<and> map_of row' ''Longitude'' = Some lng
           \<and> (\<forall>c. c \<noteq> ''Address'' \<and> c \<noteq> ''PostalCode''
                    \<and> c \<noteq> ''Latitude'' \<and> c \<noteq> ''Longitude''
                  \<longrightarrow> map_of row' c = map_of row c)
           \<and> (Print (GeocodingFailed q) \<in> set evs) = (lat = PNone \<or> lng = PNone)
           \<and> (lat = PNone \<or> lng = PNone
                \<longrightarrow> (\<forall>k\<in>{1..max_retries}. Print (RetryFailed k max_retries q) \<in> set evs))
           \<and> process_rows remote fmt max_retries code (row # rest) s
               = (case process_rows remote fmt max_retries code rest s1 of
                    (Inl e, s2) \<Rightarrow> (Inl e, s2)
                  | (Inr out, s2) \<Rightarrow> (Inr (row' # out), s2)))"
  proof
    assume h: "distinct (map fst row)
      \<and> prepare_query fmt code row = Inr (row1, addr, q)
      \<and> map_of row1 ''PostalCode'' = Some old"
    then have p: "prepare_query fmt code row = Inr (row1, addr, q)"
      and o: "map_of row1 ''PostalCode'' = Some old"
      by simp_all
    obtain lat lng postal sr where
      r: "retry_loop remote max_retries q [1..max_retries] (PNone, PNone, PNone) s
            = ((lat, lng, postal), sr)"
      by (metis prod.exhaust)
    let ?row' = "(if isna old \<and> truthy postal then AList.update ''PostalCode'' postal else id)
                   (AList.update ''Longitude'' lng (AList.update ''Latitude'' lat row1))"
    obtain s1 evs where
      g: "geocode_row remote max_retries row1 addr q s = (Inr ?row', s1)"
      and n: "requests_made s1 = requests_made sr"
      and t: "trace s1 = trace s @ evs"
      and d: "(Print (GeocodingFailed q) \<in> set evs) = (lat = PNone \<or> lng = PNone)"
      and a: "lat = PNone \<or> lng = PNone
                \<longrightarrow> (\<forall>k\<in>{1..max_retries}. Print (RetryFailed k max_retries q) \<in> set evs)"
      using geocode_row_run [OF o r, of addr] by blast
    have pr: "process_row remote fmt max_retries code row s = (Inr ?row', s1)"
      using p g by (simp add: process_row_def)
    have "requests_made sr \<le> requests_made s + length [1..max_retries]"
      using retry_loop_requests_le [of remote max_retries q "[1..max_retries]"
                                      "(PNone, PNone, PNone)" s] r
      by simp
    then have le: "requests_made s1 \<le> requests_made s + nat max_retries" using n by simp
    have la: "map_of ?row' ''Latitude'' = Some lat" by simp
    have lo: "map_of ?row' ''Longitude'' = Some lng" by simp
    have k: "\<forall>c. c \<noteq> ''Address'' \<and> c \<noteq> ''PostalCode''
                    \<and> c \<noteq> ''Latitude'' \<and> c \<noteq> ''Longitude''
                  \<longrightarrow> map_of ?row' c = map_of row c"
      using prepare_query_keeps [OF p] by simp
    have c: "process_rows remote fmt max_retries code (row # rest) s
               = (case process_rows remote fmt max_retries code rest s1 of
                    (Inl e, s2) \<Rightarrow> (Inl e, s2)
                  | (Inr out, s2) \<Rightarrow> (Inr (?row' # out), s2))"
      by (simp only: process_rows.simps pr prod.case sum.case)
    show "\<exists>row' s1 evs lat lng.
           process_row remote fmt max_retries code row s = (Inr row', s1)
           \<and> trace s1 = trace s @ evs
           \<and> requests_made s1 \<le> requests_made s + nat max_retries
           \<and> map_of row' ''Latitude'' = Some lat
           \<and> map_of row' ''Longitude'' = Some lng
           \<and> (\<forall>c. c \<noteq> ''Address'' \<and> c \<noteq> ''PostalCode''
                    \<and> c \<noteq> ''Latitude'' \<and> c \<noteq> ''Longitude''
                  \<longrightarrow> map_of row' c = map_of row c)
           \<and> (Print (GeocodingFailed q) \<in> set evs) = (lat = PNone \<or> lng = PNone)
           \<and> (lat = PNone \<or> lng = PNone
                \<longrightarrow> (\<forall>k\<in>{1..max_retries}. Print (RetryFailed k max_retries q) \<in> set evs))
           \<and> process_rows remote fmt max_retries code (row # rest) s
               = (case process_rows remote fmt max_retries code rest s1 of
                    (Inl e, s2) \<Rightarrow> (Inl e, s2)
                  | (Inr out, s2) \<Rightarrow> (Inr (row' # out), s2))"
      apply (rule exI [of _ ?row'])
      apply (rule exI [of _ s1])
      apply (rule exI [of _ evs])
      apply (rule exI [of _ lat])
      apply (rule exI [of _ lng])
      apply (intro conjI)
              apply (rule pr)
             apply (rule t)
            apply (rule le)
           apply (rule la)
          apply (rule lo)
         apply (rule k)
        apply (rule d)
       apply (rule a)
      apply (rule c)
      done
  qed
  have 2: "distinct (map fst row)
      \<and> prepare_query fmt code row = Inr (row1, addr, q)
      \<and> map_of row1 ''PostalCode'' = Some old
      \<and> cache s q = None
      \<and> (\<forall>k<nat max_retries.
            rejected (remote (requests_made s + k) (ForwardRequest (api_key s) q)))
    \<longrightarrow> (\<exists>s1 evs.
           process_row remote fmt max_retries code row s
             = (Inr (AList.update ''Longitude'' PNone (AList.update ''Latitude'' PNone row1)), s1)
           \<and> trace s1 = trace s @ evs
           \<and> requests_made s1 = requests_made s + nat max_retries
           \<and> cache s1 = cache s
           \<and> Print (GeocodingFailed q) \<in> set evs
           \<and> (\<forall>k\<in>{1..max_retries}. Print (RetryFailed k max_retries q) \<in> set evs)
           \<and> process_rows remote fmt max_retries code (row # rest) s
               = (case process_rows remote fmt max_retries code rest s1 of
                    (Inl e, s2) \<Rightarrow> (Inl e, s2)
                  | (Inr out, s2) \<Rightarrow>
                      (Inr (AList.update ''Longitude'' PNone
                              (AList.update ''Latitude'' PNone row1) # out), s2)))"
  proof
    assume h: "distinct (map fst row)
      \<and> prepare_query fmt code row = Inr (row1, addr, q)
      \<and> map_of row1 ''PostalCode'' = Some old
      \<and> cache s q = None
      \<and> (\<forall>k<nat max_retries.
            rejected (remote (requests_made s + k) (ForwardRequest (api_key s) q)))"
    then have p: "prepare_query fmt code row = Inr (row1, addr, q)"
      and o: "map_of row1 ''PostalCode'' = Some old"
      and m: "cache s q = None"
      and w: "\<forall>k<nat max_retries.
                rejected (remote (requests_made s + k) (ForwardRequest (api_key s) q))"
      by simp_all
    have q: "q \<noteq> []" using p by (rule prepare_query_nonempty)
    have w': "\<forall>k<length [1..max_retries].
                rejected (remote (requests_made s + k) (ForwardRequest (api_key s) q))"
      using w by simp
    obtain sr where
      r0: "retry_loop remote max_retries q [1..max_retries] (PNone, PNone, PNone) s
             = ((if [1..max_retries] = [] then (PNone, PNone, PNone) else unresolved), sr)"
      and cs: "cache sr = cache s"
      and ns: "requests_made sr = requests_made s + length [1..max_retries]"
      using retry_loop_window
              [where remote = remote and s = s and q = q and mx = max_retries
                 and attempts = "[1..max_retries]" and ?r0.0 = "(PNone, PNone, PNone)"]
            w' q m
      by blast
    have r: "retry_loop remote max_retries q [1..max_retries] (PNone, PNone, PNone) s
               = ((PNone, PNone, PNone), sr)"
      using r0 by (simp add: unresolved_def)
    let ?row' = "AList.update ''Longitude'' PNone (AList.update ''Latitude'' PNone row1)"
    obtain s1 evs where
      g: "geocode_row remote max_retries row1 addr q s
            = (Inr ((if isna old \<and> truthy PNone then AList.update ''PostalCode'' PNone else id)
                      ?row'), s1)"
      and c1: "cache s1 = cache sr"
      and n: "requests_made s1 = requests_made sr"
      and t: "trace s1 = trace s @ evs"
      and d: "(Print (GeocodingFailed q) \<in> set evs) = (PNone = PNone \<or> PNone = PNone)"
      and a: "PNone = PNone \<or> PNone = PNone
                \<longrightarrow> (\<forall>k\<in>{1..max_retries}. Print (RetryFailed k max_retries q) \<in> set evs)"
      using geocode_row_run [OF o r, of addr] by blast
    have pr: "process_row remote fmt max_retries code row s = (Inr ?row', s1)"
      using p g by (simp add: process_row_def)
    have c: "process_rows remote fmt max_retries code (row # rest) s
               = (case process_rows remote fmt max_retries code rest s1 of
                    (Inl e, s2) \<Rightarrow> (Inl e, s2)
                  | (Inr out, s2) \<Rightarrow> (Inr (?row' # out), s2))"
      by (simp only: process_rows.simps pr prod.case sum.case)
    have ne: "requests_made s1 = requests_made s + nat max_retries" using n ns by simp
    have ce: "cache s1 = cache s" using c1 cs by simp
    have di: "Print (GeocodingFailed q) \<in> set evs" using d by simp
    have al: "\<forall>k\<in>{1..max_retries}. Print (RetryFailed k max_retries q) \<in> set evs"
      using a by simp
    show "\<exists>s1 evs.
           process_row remote fmt max_retries code row s = (Inr ?row', s1)
           \<and> trace s1 = trace s @ evs
           \<and> requests_made s1 = requests_made s + nat max_retries
           \<and> cache s1 = cache s
           \<and> Print (GeocodingFailed q) \<in> set evs
           \<and> (\<forall>k\<in>{1..max_retries}. Print (RetryFailed k max_retries q) \<in> set evs)
           \<and> process_rows remote fmt max_retries code (row # rest) s
               = (case process_rows remote fmt max_retries code rest s1 of
                    (Inl e, s2) \<Rightarrow> (Inl e, s2)
                  | (Inr out, s2) \<Rightarrow> (Inr (?row' # out), s2))"
      apply (rule exI [of _ s1])
      apply (rule exI [of _ evs])
      apply (intro conjI)
            apply (rule pr)
           apply (rule t)
          apply (rule ne)
         apply (rule ce)
        apply (rule di)
       apply (rule al)
      apply (rule c)
      done
  qed
  have 3: "prepare_query fmt code row = Inr (row1, addr, q)
      \<and> (code \<noteq> ''BC'' \<or> map_of row ''FullAddress'' = None)
    \<longrightarrow> row1 = row"
    using prepare_query_plain by blast
  have 4: "process_rows remote fmt max_retries code rs s = (Inr out', s')
    \<longrightarrow> length out' = length rs
        \<and> list_all2 (\<lambda>r r'. \<forall>c. c \<noteq> ''Address'' \<and> c \<noteq> ''PostalCode''
                                 \<and> c \<noteq> ''Latitude'' \<and> c \<noteq> ''Longitude''
                               \<longrightarrow> map_of r' c = map_of r c) rs out'"
    using process_rows_length process_rows_cells by blast
  have 5: "default_max_retries = 3" by (simp add: default_max_retries_def)
  show ?thesis
    apply (intro conjI)
        apply (rule 1)
       apply (rule 2)
      apply (rule 3)
     apply (rule 4)
    apply (rule 5)
    done
qed

theorem exhausted_retries_keep_record_witness:
  "distinct (map fst stale_row)
   \<and> prepare_query no_fmt ''AB'' stale_row
       = Inr (stale_row, ''1 Main St'', ''1 Main St, Calgary, Alberta, Canada'')
   \<and> rejected (outage 0 (ForwardRequest (PStr ''key'') ''1 Main St, Calgary, Alberta, Canada''))
   \<and> rejected (outage 1 (ForwardRequest (PStr ''key'') ''1 Main St, Calgary, Alberta, Canada''))
   \<and> rejected (outage 2 (ForwardRequest (PStr ''key'') ''1 Main St, Calgary, Alberta, Canada''))
   \<and> \<not> rejected (outage 3 (ForwardRequest (PStr ''key'') ''1 Main St, Calgary, Alberta, Canada''))
   \<and> (\<exists>s1 evs.
        process_row outage no_fmt default_max_retries ''AB'' stale_row fresh
          = (Inr [(''StoreName'', PStr ''Green Leaf''), (''City'', PStr ''Calgary''),
                  (''Address'', PStr ''1 Main St''), (''PostalCode'', PNaN),
                  (''Province'', PStr ''AB''), (''FullProvinceName'', PStr ''Alberta''),
                  (''Latitude'', PNone), (''Longitude'', PNone)], s1)
        \<and> trace s1 = trace fresh @ evs
        \<and> requests_made s1 = 3
        \<and> cache s1 = cache fresh
        \<and> Print (GeocodingFailed ''1 Main St, Calgary, Alberta, Canada'') \<in> set evs
        \<and> Print (RetryFailed 1 3 ''1 Main St, Calgary, Alberta, Canada'') \<in> set evs
        \<and> Print (RetryFailed 2 3 ''1 Main St, Calgary, Alberta, Canada'') \<in> set evs
        \<and> Print (RetryFailed 3 3 ''1 Main St, Calgary, Alberta, Canada'') \<in> set evs
        \<and> process_rows outage no_fmt default_max_retries ''AB'' [stale_row, next_row] fresh
            = (case process_rows outage no_fmt default_max_retries ''AB'' [next_row] s1 of
                 (Inl e, s2) \<Rightarrow> (Inl e, s2)
               | (Inr out, s2) \<Rightarrow>
                   (Inr ([(''StoreName'', PStr ''Green Leaf''), (''City'', PStr ''Calgary''),
                          (''Address'', PStr ''1 Main St''), (''PostalCode'', PNaN),
                          (''Province'', PStr ''AB''), (''FullProvinceName'', PStr ''Alberta''),
                          (''Latitude'', PNone), (''Longitude'', PNone)] # out), s2)))
   \<and> fst (process_rows outage no_fmt default_max_retries ''AB'' [stale_row, next_row] fresh)
       = Inr [[(''StoreName'', PStr ''Green Leaf''), (''City'', PStr ''Calgary''),
               (''Address'', PStr ''1 Main St''), (''PostalCode'', PNaN),
               (''Province'', PStr ''AB''), (''FullProvinceName'', PStr ''Alberta''),
               (''Latitude'', PNone), (''Longitude'', PNone)],
              [(''StoreName'', PStr ''High Tide''), (''City'', PStr ''Edmonton''),
               (''Address'', PStr ''2 Oak St''), (''PostalCode'', PStr ''T2P 1J9''),
               (''Province'', PStr ''AB''), (''FullProvinceName'', PStr ''Alberta''),
               (''Latitude'', PNum 51), (''Longitude'', PNum (-114))]]
   \<and> length [[(''StoreName'', PStr ''Green Leaf''), (''City'', PStr ''Calgary''),
               (''Address'', PStr ''1 Main St''), (''PostalCode'', PNaN),
               (''Province'', PStr ''AB''), (''FullProvinceName'', PStr ''Alberta''),
               (''Latitude'', PNone), (''Longitude'', PNone)],
              [(''StoreName'', PStr ''High Tide''), (''City'', PStr ''Edmonton''),
               (''Address'', PStr ''2 Oak St''), (''PostalCode'', PStr ''T2P 1J9''),
               (''Province'', PStr ''AB''), (''FullProvinceName'', PStr ''Alberta''),
               (''Latitude'', PNum 51), (''Longitude'', PNum (-114))]]
       = length [stale_row, next_row]
   \<and> map_of [(''StoreName'', PStr ''High Tide''), (''City'', PStr ''Edmonton''),
              (''Address'', PStr ''2 Oak St''), (''PostalCode'', PStr ''T2P 1J9''),
              (''Province'', PStr ''AB''), (''FullProvinceName'', PStr ''Alberta''),
              (''Latitude'', PNum 51), (''Longitude'', PNum (-114))] ''StoreName''
       = map_of next_row ''StoreName''
   \<and> (\<exists>row' s1 evs.
        process_row (\<lambda>n req. Json half_response) no_fmt default_max_retries ''AB'' ab_row fresh
          = (Inr row', s1)
        \<and> trace s1 = trace fresh @ evs
        \<and> requests_made s1 \<le> 3
        \<and> map_of row' ''Latitude'' = Some PNone
        \<and> map_of row' ''Longitude'' = Some (PNum (-114))
        \<and> map_of row' ''StoreName'' = map_of ab_row ''StoreName''
        \<and> Print (GeocodingFailed ''1 Main St, Calgary, Alberta, Canada'') \<in> set evs
        \<and> Print (RetryFailed 1 3 ''1 Main St, Calgary, Alberta, Canada'') \<in> set evs
        \<and> Print (RetryFailed 3 3 ''1 Main St, Calgary, Alberta, Canada'') \<in> set evs)"
proof -
  let ?q = "''1 Main St, Calgary, Alberta, Canada''"
  let ?nulled = "[(''StoreName'', PStr ''Green Leaf''), (''City'', PStr ''Calgary''),
                  (''Address'', PStr ''1 Main St''), (''PostalCode'', PNaN),
                  (''Province'', PStr ''AB''), (''FullProvinceName'', PStr ''Alberta''),
                  (''Latitude'', PNone), (''Longitude'', PNone)]"
  let ?enriched = "[(''StoreName'', PStr ''High Tide''), (''City'', PStr ''Edmonton''),
                    (''Address'', PStr ''2 Oak St''), (''PostalCode'', PStr ''T2P 1J9''),
                    (''Province'', PStr ''AB''), (''FullProvinceName'', PStr ''Alberta''),
                    (''Latitude'', PNum 51), (''Longitude'', PNum (-114))]"
  let ?half = "\<lambda>(n::nat) (req::request). Json half_response"
  have d: "distinct (map fst stale_row)" by (simp add: stale_row_def)
  have p: "prepare_query no_fmt ''AB'' stale_row = Inr (stale_row, ''1 Main St'', ?q)"
    by (simp add: prepare_query_def stale_row_def Let_def)
  have o: "map_of stale_row ''PostalCode'' = Some PNaN" by (simp add: stale_row_def)
  have r0: "rejected (outage 0 (ForwardRequest (PStr ''key'') ?q))" by code_simp
  have r1: "rejected (outage 1 (ForwardRequest (PStr ''key'') ?q))" by code_simp
  have r2: "rejected (outage 2 (ForwardRequest (PStr ''key'') ?q))" by code_simp
  have r3: "\<not> rejected (outage 3 (ForwardRequest (PStr ''key'') ?q))" by code_simp
  have mr: "nat default_max_retries = 3" by (simp add: default_max_retries_def)
  have rq: "requests_made fresh = 0" by (simp add: requests_made_def fresh_def)
  have w: "\<forall>k<nat default_max_retries.
             rejected (outage (requests_made fresh + k) (ForwardRequest (api_key fresh) ?q))"
  proof (intro allI impI)
    fix k assume "k < nat default_max_retries"
    then have "k = 0 \<or> k = 1 \<or> k = 2" using mr by arith
    then show "rejected (outage (requests_made fresh + k) (ForwardRequest (api_key fresh) ?q))"
      using r0 r1 r2 rq by (auto simp: fresh_def)
  qed
  have hB: "distinct (map fst stale_row)
      \<and> prepare_query no_fmt ''AB'' stale_row = Inr (stale_row, ''1 Main St'', ?q)
      \<and> map_of stale_row ''PostalCode'' = Some PNaN
      \<and> cache fresh ?q = None
      \<and> (\<forall>k<nat default_max_retries.
            rejected (outage (requests_made fresh + k) (ForwardRequest (api_key fresh) ?q)))"
    using d p o w by (simp add: fresh_def)
  have u: "AList.update ''Longitude'' PNone (AList.update ''Latitude'' PNone stale_row) = ?nulled"
    by (simp add: stale_row_def)
  obtain s1 evs where
    b1: "process_row outage no_fmt default_max_retries ''AB'' stale_row fresh
           = (Inr (AList.update ''Longitude'' PNone (AList.update ''Latitude'' PNone stale_row)), s1)"
    and b2: "trace s1 = trace fresh @ evs"
    and b3: "requests_made s1 = requests_made fresh + nat default_max_retries"
    and b4: "cache s1 = cache fresh"
    and b5: "Print (GeocodingFailed ?q) \<in> set evs"
    and b6: "\<forall>k\<in>{1..default_max_retries}. Print (RetryFailed k default_max_retries ?q) \<in> set evs"
    and b7: "process_rows outage no_fmt default_max_retries ''AB'' [stale_row, next_row] fresh
               = (case process_rows outage no_fmt default_max_retries ''AB'' [next_row] s1 of
                    (Inl e, s2) \<Rightarrow> (Inl e, s2)
                  | (Inr out, s2) \<Rightarrow>
                      (Inr (AList.update ''Longitude'' PNone
                              (AList.update ''Latitude'' PNone stale_row) # out), s2))"
    using exhausted_retries_keep_record
            [where fmt = no_fmt and code = "''AB''" and row = stale_row and ?row1.0 = stale_row
               and addr = "''1 Main St''" and q = ?q
               and old = PNaN and s = fresh and remote = outage
               and max_retries = default_max_retries and rest = "[next_row]",
             THEN conjunct2, THEN conjunct1, rule_format, OF hB]
    by blast
  have m3: "default_max_retries = 3" by (simp add: default_max_retries_def)
  have B: "\<exists>s1 evs.
        process_row outage no_fmt default_max_retries ''AB'' stale_row fresh = (Inr ?nulled, s1)
        \<and> trace s1 = trace fresh @ evs
        \<and> requests_made s1 = 3
        \<and> cache s1 = cache fresh
        \<and> Print (GeocodingFailed ?q) \<in> set evs
        \<and> Print (RetryFailed 1 3 ?q) \<in> set evs
        \<and> Print (RetryFailed 2 3 ?q) \<in> set evs
        \<and> Print (RetryFailed 3 3 ?q) \<in> set evs
        \<and> process_rows outage no_fmt default_max_retries ''AB'' [stale_row, next_row] fresh
            = (case process_rows outage no_fmt default_max_retries ''AB'' [next_row] s1 of
                 (Inl e, s2) \<Rightarrow> (Inl e, s2)
               | (Inr out, s2) \<Rightarrow> (Inr (?nulled # out), s2))"
    apply (rule exI [of _ s1])
    apply (rule exI [of _ evs])
    apply (intro conjI)
            apply (rule b1 [unfolded u])
           apply (rule b2)
          using b3 rq mr apply simp
         apply (rule b4)
        apply (rule b5)
       using b6 [unfolded m3] apply simp
      using b6 [unfolded m3] apply simp
     using b6 [unfolded m3] apply simp
    apply (rule b7 [unfolded u])
    done
  have e: "fst (process_rows outage no_fmt default_max_retries ''AB'' [stale_row, next_row] fresh)
             = Inr [?nulled, ?enriched]"
    by code_simp
  then obtain s' where
    pr: "process_rows outage no_fmt default_max_retries ''AB'' [stale_row, next_row] fresh
           = (Inr [?nulled, ?enriched], s')"
    by (cases "process_rows outage no_fmt default_max_retries ''AB'' [stale_row, next_row] fresh")
       simp
  have D: "length [?nulled, ?enriched] = length [stale_row, next_row]
        \<and> list_all2 (\<lambda>r r'. \<forall>c. c \<noteq> ''Address'' \<and> c \<noteq> ''PostalCode''
                                 \<and> c \<noteq> ''Latitude'' \<and> c \<noteq> ''Longitude''
                               \<longrightarrow> map_of r' c = map_of r c)
             [stale_row, next_row] [?nulled, ?enriched]"
    using exhausted_retries_keep_record
            [where remote = outage and fmt = no_fmt and max_retries = default_max_retries
               and code = "''AB''" and rs = "[stale_row, next_row]" and s = fresh
               and out' = "[?nulled, ?enriched]" and s' = s',
             THEN conjunct2, THEN conjunct2, THEN conjunct2, THEN conjunct1, rule_format, OF pr] .
  have D1: "length [?nulled, ?enriched] = length [stale_row, next_row]"
    using D by (rule conjunct1)
  have "\<forall>c. c \<noteq> ''Address'' \<and> c \<noteq> ''PostalCode''
             \<and> c \<noteq> ''Latitude'' \<and> c \<noteq> ''Longitude''
           \<longrightarrow> map_of ?enriched c = map_of next_row c"
    using D [THEN conjunct2] unfolding list_all2_Cons by (rule conjunct2 [THEN conjunct1])
  from this [rule_format, of "''StoreName''"]
  have D2: "map_of ?enriched ''StoreName'' = map_of next_row ''StoreName''"
    by simp
  have da: "distinct (map fst ab_row)" by (simp add: ab_row_def)
  have pa: "prepare_query no_fmt ''AB'' ab_row = Inr (ab_row, ''1 Main St'', ?q)"
    by (simp add: prepare_query_def ab_row_def Let_def)
  have hA: "distinct (map fst ab_row)
      \<and> prepare_query no_fmt ''AB'' ab_row = Inr (ab_row, ''1 Main St'', ?q)
      \<and> map_of ab_row ''PostalCode'' = Some PNaN"
    using da pa by (simp add: ab_row_def)
  obtain row' t1 evs' lat lng where
    a1: "process_row ?half no_fmt default_max_retries ''AB'' ab_row fresh = (Inr row', t1)"
    and a2: "trace t1 = trace fresh @ evs'"
    and a3: "requests_made t1 \<le> requests_made fresh + nat default_max_retries"
    and a4: "map_of row' ''Latitude'' = Some lat"
    and a5: "map_of row' ''Longitude'' = Some lng"
    and a6: "\<forall>c. c \<noteq> ''Address'' \<and> c \<noteq> ''PostalCode''
                    \<and> c \<noteq> ''Latitude'' \<and> c \<noteq> ''Longitude''
                  \<longrightarrow> map_of row' c = map_of ab_row c"
    and a7: "(Print (GeocodingFailed ?q) \<in> set evs') = (lat = PNone \<or> lng = PNone)"
    and a8: "lat = PNone \<or> lng = PNone
                \<longrightarrow> (\<forall>k\<in>{1..default_max_retries}.
                       Print (RetryFailed k default_max_retries ?q) \<in> set evs')"
    using exhausted_retries_keep_record
            [where fmt = no_fmt and code = "''AB''" and row = ab_row and ?row1.0 = ab_row
               and addr = "''1 Main St''" and q = ?q
               and old = PNaN and s = fresh and remote = ?half
               and max_retries = default_max_retries and rest = "[]",
             THEN conjunct1, rule_format, OF hA]
    by (elim exE conjE) (rule that)
  have "fst (process_row ?half no_fmt default_max_retries ''AB'' ab_row fresh)
          = Inr [(''StoreName'', PStr ''Green Leaf''), (''City'', PStr ''Calgary''),
                 (''Address'', PStr ''1 Main St''), (''PostalCode'', PNaN),
                 (''Province'', PStr ''AB''), (''FullProvinceName'', PStr ''Alberta''),
                 (''Latitude'', PNone), (''Longitude'', PNum (-114))]"
    by code_simp
  then have rw: "row' = [(''StoreName'', PStr ''Green Leaf''), (''City'', PStr ''Calgary''),
                 (''Address'', PStr ''1 Main St''), (''PostalCode'', PNaN),
                 (''Province'', PStr ''AB''), (''FullProvinceName'', PStr ''Alberta''),
                 (''Latitude'', PNone), (''Longitude'', PNum (-114))]"
    using a1 by simp
  have la: "lat = PNone" using a4 rw by simp
  have lo: "lng = PNum (-114)" using a5 rw by simp
  have A: "\<exists>row' s1 evs.
        process_row ?half no_fmt default_max_retries ''AB'' ab_row fresh = (Inr row', s1)
        \<and> trace s1 = trace fresh @ evs
        \<and> requests_made s1 \<le> 3
        \<and> map_of row' ''Latitude'' = Some PNone
        \<and> map_of row' ''Longitude'' = Some (PNum (-114))
        \<and> map_of row' ''StoreName'' = map_of ab_row ''StoreName''
        \<and> Print (GeocodingFailed ?q) \<in> set evs
        \<and> Print (RetryFailed 1 3 ?q) \<in> set evs
        \<and> Print (RetryFailed 3 3 ?q) \<in> set evs"
    apply (rule exI [of _ row'])
    apply (rule exI [of _ t1])
    apply (rule exI [of _ evs'])
    apply (intro conjI)
            apply (rule a1)
           apply (rule a2)
          using a3 rq mr apply simp
         using a4 la apply simp
        using a5 lo apply simp
       using a6 [rule_format, of "''StoreName''"] apply simp
      using a7 la apply simp
     using a8 la m3 apply simp
    using a8 la m3 apply simp
    done
  show ?thesis
    apply (intro conjI)
              apply (rule d)
             apply (rule p)
            apply (rule r0)
           apply (rule r1)
          apply (rule r2)
         apply (rule r3)
        apply (rule B)
       apply (rule e)
      apply (rule D1)
     apply (rule D2)
    apply (rule A)
    done
qed

subsection \<open>Latitude and longitude together\<close>

lemma paired_unresolved [simp]: "paired unresolved" "paired (PNone, PNone, PNone)"
  by (simp_all add: paired_def unresolved_def)

lemma get_coordinates_paired:
  assumes "cache_paired s" "service_paired remote"
  shows "paired (fst (get_coordinates remote address s))
       \<and> cache_paired (snd (get_coordinates remote address s))"
proof -
  obtain r s' where c: "get_coordinates remote address s = (r, s')"
    by (cases "get_coordinates remote address s")
  from c have "paired r \<and> cache_paired s'"
  proof (cases rule: get_coordinates_cases)
    case immediate
    then show ?thesis using assms by simp
  next
    case (hit a)
    have "paired r" using assms(1) hit(3) unfolding cache_paired_def by blast
    then show ?thesis using assms(1) hit(4) by simp
  next
    case (failed a)
    then show ?thesis using assms by (simp add: cache_paired_def)
  next
    case (resolved a data)
    then have "paired r" using assms(2) unfolding service_paired_def by blast
    then show ?thesis using resolved(6) assms(1) by (auto simp: cache_paired_def)
  qed
  then show ?thesis using c by simp
qed

lemma cache_paired_emit [simp]: "cache_paired (emit e s) = cache_paired s"
  by (simp add: cache_paired_def)

lemma retry_loop_paired:
  assumes "cache_paired s" "service_paired remote" "paired r0"
  shows "paired (fst (retry_loop remote mx q attempts r0 s))
       \<and> cache_paired (snd (retry_loop remote mx q attempts r0 s))"
  using assms
proof (induction attempts arbitrary: s r0)
  case Nil
  then show ?case by simp
next
  case (Cons attempt rest)
  obtain lat lng postal s1 where g: "get_coordinates remote (PStr q) s = ((lat, lng, postal), s1)"
    by (metis prod.exhaust)
  have p: "paired (lat, lng, postal)" and c: "cache_paired s1"
    using get_coordinates_paired [OF Cons.prems(1,2), of "PStr q"] g by simp_all
  show ?case
  proof (cases "lat \<noteq> PNone \<and> lng \<noteq> PNone")
    case True
    then show ?thesis using g p c by simp
  next
    case False
    let ?s2 = "emit (Sleep (API_DELAY * 2)) (emit (Print (RetryFailed attempt mx q)) s1)"
    have "cache_paired ?s2" using c by simp
    then have "paired (fst (retry_loop remote mx q rest (lat, lng, postal) ?s2))
       \<and> cache_paired (snd (retry_loop remote mx q rest (lat, lng, postal) ?s2))"
      using Cons.prems(2) p by (rule Cons.IH)
    then show ?thesis using False g by auto
  qed
qed

lemma geocode_row_paired:
  assumes "cache_paired s" "service_paired remote"
    and "geocode_row remote mx row1 addr q s = (Inr row3, s')"
  shows "coords_paired row3 \<and> cache_paired s'"
proof -
  obtain lat lng postal s1 where
    r: "retry_loop remote mx q [1..mx] (PNone, PNone, PNone) s = ((lat, lng, postal), s1)"
    by (metis prod.exhaust)
  have p: "paired (lat, lng, postal)" and c: "cache_paired s1"
    using retry_loop_paired [OF assms(1,2), of "(PNone, PNone, PNone)" mx q "[1..mx]"] r
    by simp_all
  from p have i: "isna lat = isna lng" by (simp add: paired_def)
  show ?thesis
    using assms(3) i c
    by (auto simp: geocode_row_def r Let_def coords_paired_def split: option.splits if_splits)
qed

lemma process_rows_paired:
  assumes "cache_paired s" "service_paired remote"
    and "process_rows remote fmt mx code rs s = (Inr out, s')"
  shows "(\<forall>r'\<in>set out. coords_paired r') \<and> cache_paired s'"
  using assms
proof (induction rs arbitrary: s out s')
  case Nil
  then show ?case by simp
next
  case (Cons r rs)
  from Cons.prems(3) obtain r' s1 out1 where
    pr: "process_row remote fmt mx code r s = (Inr r', s1)"
    and ps: "process_rows remote fmt mx code rs s1 = (Inr out1, s')"
    and o: "out = r' # out1"
    by (auto split: prod.splits sum.splits)
  from pr obtain row1 addr q where
    g: "geocode_row remote mx row1 addr q s = (Inr r', s1)"
    by (auto simp: process_row_def split: sum.splits prod.splits)
  have 1: "coords_paired r' \<and> cache_paired s1"
    using Cons.prems(1,2) g by (rule geocode_row_paired)
  then have "(\<forall>r'\<in>set out1. coords_paired r') \<and> cache_paired s'"
    using Cons.IH [of s1 out1 s'] Cons.prems(2) ps by simp
  then show ?case using 1 o by simp
qed

lemma fill_missing_postal_coords:
  "fill_missing_postal remote rs s = (Inr out, s') \<Longrightarrow>
     list_all2 (\<lambda>r r'. map_of r' ''Latitude'' = map_of r ''Latitude''
                      \<and> map_of r' ''Longitude'' = map_of r ''Longitude'') rs out"
proof (induction rs arbitrary: s out s')
  case Nil
  then show ?case by simp
next
  case (Cons r rs)
  then show ?case
    by (auto split: option.splits if_splits prod.splits sum.splits)
qed

lemma relayout_get:
  "c \<in> set cols \<Longrightarrow> map_of r c = Some v \<Longrightarrow> map_of (relayout cols r) c = Some v"
  by (induction cols) (auto simp: relayout_def cell_or_nan_def)

lemma relayout_paired:
  "''Latitude'' \<in> set cols \<Longrightarrow> ''Longitude'' \<in> set cols \<Longrightarrow> coords_paired r \<Longrightarrow>
     coords_paired (relayout cols r)"
  unfolding coords_paired_def using relayout_get by blast

text \<open>
  C5, as stated, fails: the service answers with status \<^verbatim>\<open>"OK"\<close>, a \<^verbatim>\<open>null\<close> latitude
  and a longitude. \<open>get_coordinates\<close> returns, and caches, the pair as it is, and
  the record ends with a longitude and no latitude.
\<close>

theorem coordinates_together_counterexample:
  "fst (get_coordinates (\<lambda>n req. Json half_response)
          (PStr ''1 Main St, Calgary, Alberta, Canada'') fresh)
     = (PNone, PNum (-114), PNone)
   \<and> fst (process_row (\<lambda>n req. Json half_response) no_fmt 3 ''AB'' ab_row fresh)
     = Inr [(''StoreName'', PStr ''Green Leaf''), (''City'', PStr ''Calgary''),
            (''Address'', PStr ''1 Main St''), (''PostalCode'', PNaN),
            (''Province'', PStr ''AB''), (''FullProvinceName'', PStr ''Alberta''),
            (''Latitude'', PNone), (''Longitude'', PNum (-114))]"
  by code_simp

text \<open>
  C5, amended. \<open>get_coordinates\<close> returns \<^verbatim>\<open>(None, None, None)\<close> or the one result
  that the cache holds for the query, taken from a single successful response, and the
  loop writes latitude and longitude from that one result. So when latitude and
  longitude are both null or both non-null in every successful response of the
  service (and in the cache at the start, which is empty for a new service), they are
  both null or both non-null in every record after enrichment; the reverse-lookup
  pass changes neither, and so does laying the rows out again for the output.
\<close>

theorem coordinates_paired_after_enrichment:
  "(cache_paired s \<and> service_paired remote
      \<and> process_rows remote fmt max_retries code rs s = (Inr out, s')
    \<longrightarrow> (\<forall>r'\<in>set out. coords_paired r') \<and> cache_paired s')
   \<and> (fill_missing_postal remote rs s = (Inr out, s')
    \<longrightarrow> list_all2 (\<lambda>r r'. map_of r' ''Latitude'' = map_of r ''Latitude''
                          \<and> map_of r' ''Longitude'' = map_of r ''Longitude'') rs out)
   \<and> (fst (get_coordinates remote address s) = (PNone, PNone, PNone)
      \<or> (\<exists>a. address = PStr a
            \<and> cache (snd (get_coordinates remote address s)) a
                = Some (fst (get_coordinates remote address s))))
   \<and> cache_paired (new_service key)
   \<and> (''Latitude'' \<in> set cols \<and> ''Longitude'' \<in> set cols \<and> coords_paired rw
    \<longrightarrow> coords_paired (relayout cols rw))"
proof -
  have 1: "cache_paired s \<and> service_paired remote
      \<and> process_rows remote fmt max_retries code rs s = (Inr out, s')
    \<longrightarrow> (\<forall>r'\<in>set out. coords_paired r') \<and> cache_paired s'"
    using process_rows_paired [of s remote fmt max_retries code rs out s'] by simp
  have 2: "fill_missing_postal remote rs s = (Inr out, s')
    \<longrightarrow> list_all2 (\<lambda>r r'. map_of r' ''Latitude'' = map_of r ''Latitude''
                          \<and> map_of r' ''Longitude'' = map_of r ''Longitude'') rs out"
    using fill_missing_postal_coords by blast
  obtain r s1 where c: "get_coordinates remote address s = (r, s1)"
    by (cases "get_coordinates remote address s")
  from c have "r = (PNone, PNone, PNone) \<or> (\<exists>a. address = PStr a \<and> cache s1 a = Some r)"
  proof (cases rule: get_coordinates_cases)
    case immediate
    then show ?thesis by (simp add: unresolved_def)
  next
    case (hit a)
    then show ?thesis by simp
  next
    case (failed a)
    then show ?thesis by (simp add: unresolved_def)
  next
    case (resolved a data)
    then show ?thesis by simp
  qed
  then have 3: "fst (get_coordinates remote address s) = (PNone, PNone, PNone)
      \<or> (\<exists>a. address = PStr a
            \<and> cache (snd (get_coordinates remote address s)) a
                = Some (fst (get_coordinates remote address s)))"
    using c by simp
  have 4: "cache_paired (new_service key)"
    by (simp add: cache_paired_def new_service_def)
  have 5: "''Latitude'' \<in> set cols \<and> ''Longitude'' \<in> set cols \<and> coords_paired rw
    \<longrightarrow> coords_paired (relayout cols rw)"
    using relayout_paired by blast
  show ?thesis
    apply (intro conjI)
        apply (rule 1)
       apply (rule 2)
      apply (rule 3)
     apply (rule 4)
    apply (rule 5)
    done
qed

theorem coordinates_paired_after_enrichment_witness:
  "cache_paired fresh
   \<and> service_paired (\<lambda>n req. Json (ok_response 51 (-114) ''T2P 1J9''))
   \<and> fst (process_rows (\<lambda>n req. Json (ok_response 51 (-114) ''T2P 1J9'')) no_fmt 3 ''AB''
            [ab_row] fresh)
       = Inr [[(''StoreName'', PStr ''Green Leaf''), (''City'', PStr ''Calgary''),
               (''Address'', PStr ''1 Main St''), (''PostalCode'', PStr ''T2P 1J9''),
               (''Province'', PStr ''AB''), (''FullProvinceName'', PStr ''Alberta''),
               (''Latitude'', PNum 51), (''Longitude'', PNum (-114))]]
   \<and> coords_paired [(''StoreName'', PStr ''Green Leaf''), (''City'', PStr ''Calgary''),
               (''Address'', PStr ''1 Main St''), (''PostalCode'', PStr ''T2P 1J9''),
               (''Province'', PStr ''AB''), (''FullProvinceName'', PStr ''Alberta''),
               (''Latitude'', PNum 51), (''Longitude'', PNum (-114))]
   \<and> fst (fill_missing_postal (\<lambda>n req. Json (ok_response 51 (-114) ''T2P 1J9''))
            [unfilled_row] fresh)
       = Inr [[(''Address'', PStr ''2 Oak St''), (''PostalCode'', PStr ''T2P 1J9''),
               (''Latitude'', PNum 51), (''Longitude'', PNum (-114))]]
   \<and> list_all2 (\<lambda>r r'. map_of r' ''Latitude'' = map_of r ''Latitude''
                        \<and> map_of r' ''Longitude'' = map_of r ''Longitude'')
         [unfilled_row]
         [[(''Address'', PStr ''2 Oak St''), (''PostalCode'', PStr ''T2P 1J9''),
           (''Latitude'', PNum 51), (''Longitude'', PNum (-114))]]
   \<and> coords_paired (relayout target_cols
         [(''StoreName'', PStr ''Green Leaf''), (''City'', PStr ''Calgary''),
          (''Address'', PStr ''1 Main St''), (''PostalCode'', PStr ''T2P 1J9''),
          (''Province'', PStr ''AB''), (''FullProvinceName'', PStr ''Alberta''),
          (''Latitude'', PNum 51), (''Longitude'', PNum (-114))])"
proof -
  let ?R = "\<lambda>(n::nat) (req::request). Json (ok_response 51 (-114) ''T2P 1J9'')"
  let ?row = "[(''StoreName'', PStr ''Green Leaf''), (''City'', PStr ''Calgary''),
               (''Address'', PStr ''1 Main St''), (''PostalCode'', PStr ''T2P 1J9''),
               (''Province'', PStr ''AB''), (''FullProvinceName'', PStr ''Alberta''),
               (''Latitude'', PNum 51), (''Longitude'', PNum (-114))]"
  have c: "cache_paired fresh" by (simp add: cache_paired_def fresh_def)
  have "extract_forward (ok_response 51 (-114) ''T2P 1J9'')
          = Inr (Some (PNum 51, PNum (-114), PStr ''T2P 1J9''))"
    by (simp add: extract_forward_def ok_response_def)
  then have v: "service_paired ?R" by (auto simp: service_paired_def paired_def)
  have e: "fst (process_rows ?R no_fmt 3 ''AB'' [ab_row] fresh) = Inr [?row]" by code_simp
  then obtain s' where p: "process_rows ?R no_fmt 3 ''AB'' [ab_row] fresh = (Inr [?row], s')"
    by (cases "process_rows ?R no_fmt 3 ''AB'' [ab_row] fresh") simp
  have "\<forall>r'\<in>set [?row]. coords_paired r'"
    using coordinates_paired_after_enrichment
            [where s = fresh and remote = ?R and fmt = no_fmt and max_retries = 3
               and code = "''AB''" and rs = "[ab_row]" and out = "[?row]" and s' = s',
             THEN conjunct1] c v p
    by blast
  then have cp: "coords_paired ?row" by simp
  let ?filled = "[(''Address'', PStr ''2 Oak St''), (''PostalCode'', PStr ''T2P 1J9''),
               (''Latitude'', PNum 51), (''Longitude'', PNum (-114))]"
  have f: "fst (fill_missing_postal ?R [unfilled_row] fresh) = Inr [?filled]" by code_simp
  then obtain s2 where fp: "fill_missing_postal ?R [unfilled_row] fresh = (Inr [?filled], s2)"
    by (cases "fill_missing_postal ?R [unfilled_row] fresh") simp
  have l: "list_all2 (\<lambda>r r'. map_of r' ''Latitude'' = map_of r ''Latitude''
                        \<and> map_of r' ''Longitude'' = map_of r ''Longitude'')
         [unfilled_row] [?filled]"
    using coordinates_paired_after_enrichment
            [where remote = ?R and rs = "[unfilled_row]" and s = fresh and out = "[?filled]"
               and s' = s2,
             THEN conjunct2, THEN conjunct1, rule_format, OF fp] .
  have th: "''Latitude'' \<in> set target_cols \<and> ''Longitude'' \<in> set target_cols
            \<and> coords_paired ?row"
    using cp by (simp add: target_cols_def)
  have rl: "coords_paired (relayout target_cols ?row)"
    using coordinates_paired_after_enrichment
            [where cols = target_cols and rw = ?row,
             THEN conjunct2, THEN conjunct2, THEN conjunct2, THEN conjunct2,
             rule_format, OF th] .
  show ?thesis
    apply (intro conjI)
          apply (rule c)
         apply (rule v)
        apply (rule e)
       apply (rule cp)
      apply (rule f)
     apply (rule l)
    apply (rule rl)
    done
qed

subsection \<open>The postal code of a record\<close>

lemma prepare_query_postal:
  assumes "prepare_query fmt code row = Inr (row1, addr, q)"
    and "map_of row ''PostalCode'' = Some v"
    and "truthy v \<or> code \<noteq> ''BC'' \<or> map_of row ''FullAddress'' = None"
  shows "map_of row1 ''PostalCode'' = Some v"
  using assms
  by (auto simp: prepare_query_def Let_def
           split: option.splits sum.splits prod.splits if_splits)

lemma truthy_not_None: "truthy p \<Longrightarrow> p \<noteq> PNone"
  by auto

lemma geocode_row_postal:
  assumes "geocode_row remote mx row1 addr q s = (Inr row3, s')"
    and "map_of row1 ''PostalCode'' = Some v"
  shows "if isna v
         then map_of row3 ''PostalCode'' = Some v
              \<or> (\<exists>p. p \<noteq> PNone \<and> truthy p \<and> map_of row3 ''PostalCode'' = Some p)
         else map_of row3 ''PostalCode'' = Some v"
proof -
  obtain lat lng postal s1 where
    r: "retry_loop remote mx q [1..mx] (PNone, PNone, PNone) s = ((lat, lng, postal), s1)"
    by (metis prod.exhaust)
  show ?thesis
    using assms truthy_not_None [of postal]
    by (auto simp: geocode_row_def r Let_def split: if_splits)
qed

lemma process_row_postal:
  assumes "process_row remote fmt mx code row s = (Inr row', s')"
    and "map_of row ''PostalCode'' = Some v" and "\<not> isna v"
    and "truthy v \<or> code \<noteq> ''BC'' \<or> map_of row ''FullAddress'' = None"
  shows "map_of row' ''PostalCode'' = Some v"
proof -
  from assms(1) obtain row1 addr q where
    p: "prepare_query fmt code row = Inr (row1, addr, q)"
    and g: "geocode_row remote mx row1 addr q s = (Inr row', s')"
    by (auto simp: process_row_def split: sum.splits prod.splits)
  have "map_of row1 ''PostalCode'' = Some v"
    using p assms(2,4) by (rule prepare_query_postal)
  with g show ?thesis using geocode_row_postal [of remote mx row1 addr q s row' s' v] assms(3)
    by simp
qed

lemma process_rows_postal:
  "process_rows remote fmt mx code rs s = (Inr out, s') \<Longrightarrow>
     list_all2 (\<lambda>r r'. \<forall>v. map_of r ''PostalCode'' = Some v \<and> \<not> isna v
                           \<and> (truthy v \<or> code \<noteq> ''BC'' \<or> map_of r ''FullAddress'' = None)
                         \<longrightarrow> map_of r' ''PostalCode'' = Some v) rs out"
proof (induction rs arbitrary: s out s')
  case Nil
  then show ?case by simp
next
  case (Cons r rs)
  from Cons.prems obtain r' s1 out1 where
    pr: "process_row remote fmt mx code r s = (Inr r', s1)"
    and ps: "process_rows remote fmt mx code rs s1 = (Inr out1, s')"
    and o: "out = r' # out1"
    by (auto split: prod.splits sum.splits)
  have "\<forall>v. map_of r ''PostalCode'' = Some v \<and> \<not> isna v
             \<and> (truthy v \<or> code \<noteq> ''BC'' \<or> map_of r ''FullAddress'' = None)
           \<longrightarrow> map_of r' ''PostalCode'' = Some v"
    using process_row_postal [OF pr] by blast
  then show ?case using Cons.IH [OF ps] o by simp
qed

lemma fill_missing_postal_keeps:
  "fill_missing_postal remote rs s = (Inr out, s') \<Longrightarrow>
     list_all2 (\<lambda>r r'. \<forall>v. map_of r ''PostalCode'' = Some v \<and> \<not> isna v \<longrightarrow> r' = r) rs out"
proof (induction rs arbitrary: s out s')
  case Nil
  then show ?case by simp
next
  case (Cons r rs)
  then show ?case
    by (auto split: option.splits if_splits prod.splits sum.splits)
qed


text \<open>
  C3, as stated, fails: in a British Columbia table with a \<^verbatim>\<open>FullAddress\<close> column, the
  address clean-up replaces a postal code that is not null but false (here the number
  0; the empty string behaves alike) by the code extracted from the address, which is
  \<^verbatim>\<open>None\<close> when the address holds none.
\<close>

theorem postal_code_kept_counterexample:
  "map_of bc_row ''PostalCode'' = Some (PNum 0)
   \<and> \<not> isna (PNum 0)
   \<and> fst (process_row (\<lambda>n req. Json zero_results) no_fmt 3 ''BC'' bc_row fresh)
     = Inr [(''FullAddress'', PStr ''1 Main St''), (''City'', PStr ''Hope''),
            (''PostalCode'', PNone), (''Province'', PStr ''BC''),
            (''FullProvinceName'', PStr ''British Columbia''),
            (''Latitude'', PNone), (''Longitude'', PNone), (''Address'', PStr ''1 Main St'')]"
  by code_simp

text \<open>
  C3, amended. A postal code that is not null and is true as a Python value (a
  non-empty string, a non-zero number) is kept by the whole loop over the rows; for a
  province other than \<^verbatim>\<open>"BC"\<close>, or without a \<^verbatim>\<open>FullAddress\<close> column, every non-null
  postal code is. The forward-enrichment step writes a postal code only when the field
  is missing and the new value is true, hence not \<^verbatim>\<open>None\<close>. The reverse-lookup pass
  returns every row with a non-null postal code as it is. Laying a row out again, as
  the column selection and the concatenation do, keeps its cells.
\<close>

theorem postal_code_kept:
  "(process_rows remote fmt max_retries code rs s = (Inr out, s')
    \<longrightarrow> list_all2 (\<lambda>r r'. \<forall>v. map_of r ''PostalCode'' = Some v \<and> \<not> isna v
                              \<and> (truthy v \<or> code \<noteq> ''BC'' \<or> map_of r ''FullAddress'' = None)
                            \<longrightarrow> map_of r' ''PostalCode'' = Some v) rs out)
   \<and> (geocode_row remote max_retries row1 addr q s = (Inr row3, s1)
        \<and> map_of row1 ''PostalCode'' = Some old
    \<longrightarrow> (if isna old
         then map_of row3 ''PostalCode'' = Some old
              \<or> (\<exists>p. p \<noteq> PNone \<and> truthy p \<and> map_of row3 ''PostalCode'' = Some p)
         else map_of row3 ''PostalCode'' = Some old))
   \<and> (fill_missing_postal remote rs s = (Inr out2, s2)
    \<longrightarrow> list_all2 (\<lambda>r r'. \<forall>v. map_of r ''PostalCode'' = Some v \<and> \<not> isna v \<longrightarrow> r' = r) rs out2)
   \<and> (c \<in> set cols \<and> map_of r c = Some v \<longrightarrow> map_of (relayout cols r) c = Some v)"
proof -
  have 1: "process_rows remote fmt max_retries code rs s = (Inr out, s')
    \<longrightarrow> list_all2 (\<lambda>r r'. \<forall>v. map_of r ''PostalCode'' = Some v \<and> \<not> isna v
                              \<and> (truthy v \<or> code \<noteq> ''BC'' \<or> map_of r ''FullAddress'' = None)
                            \<longrightarrow> map_of r' ''PostalCode'' = Some v) rs out"
    using process_rows_postal by blast
  have 2: "geocode_row remote max_retries row1 addr q s = (Inr row3, s1)
        \<and> map_of row1 ''PostalCode'' = Some old
    \<longrightarrow> (if isna old
         then map_of row3 ''PostalCode'' = Some old
              \<or> (\<exists>p. p \<noteq> PNone \<and> truthy p \<and> map_of row3 ''PostalCode'' = Some p)
         else map_of row3 ''PostalCode'' = Some old)"
    using geocode_row_postal [of remote max_retries row1 addr q s row3 s1 old] by blast
  have 3: "fill_missing_postal remote rs s = (Inr out2, s2)
    \<longrightarrow> list_all2 (\<lambda>r r'. \<forall>v. map_of r ''PostalCode'' = Some v \<and> \<not> isna v \<longrightarrow> r' = r) rs out2"
    using fill_missing_postal_keeps by blast
  have 4: "c \<in> set cols \<and> map_of r c = Some v \<longrightarrow> map_of (relayout cols r) c = Some v"
    using relayout_get by blast
  show ?thesis
    apply (intro conjI)
       apply (rule 1)
      apply (rule 2)
     apply (rule 3)
    apply (rule 4)
    done
qed

theorem postal_code_kept_witness:
  "fst (process_rows (\<lambda>n req. Json (ok_response 51 (-114) ''T2P 1J9'')) no_fmt 3 ''AB''
          [AList.update ''PostalCode'' (PStr ''T5J 0N3'') ab_row] fresh)
     = Inr [[(''StoreName'', PStr ''Green Leaf''), (''City'', PStr ''Calgary''),
             (''Address'', PStr ''1 Main St''), (''PostalCode'', PStr ''T5J 0N3''),
             (''Province'', PStr ''AB''), (''FullProvinceName'', PStr ''Alberta''),
             (''Latitude'', PNum 51), (''Longitude'', PNum (-114))]]
   \<and> map_of [(''StoreName'', PStr ''Green Leaf''), (''City'', PStr ''Calgary''),
             (''Address'', PStr ''1 Main St''), (''PostalCode'', PStr ''T5J 0N3''),
             (''Province'', PStr ''AB''), (''FullProvinceName'', PStr ''Alberta''),
             (''Latitude'', PNum 51), (''Longitude'', PNum (-114))] ''PostalCode''
     = Some (PStr ''T5J 0N3'')
   \<and> fst (geocode_row (\<lambda>n req. Json (ok_response 51 (-114) ''T2P 1J9'')) 3 ab_row
            ''1 Main St'' ''1 Main St, Calgary, Alberta, Canada'' fresh)
     = Inr [(''StoreName'', PStr ''Green Leaf''), (''City'', PStr ''Calgary''),
            (''Address'', PStr ''1 Main St''), (''PostalCode'', PStr ''T2P 1J9''),
            (''Province'', PStr ''AB''), (''FullProvinceName'', PStr ''Alberta''),
            (''Latitude'', PNum 51), (''Longitude'', PNum (-114))]
   \<and> (map_of [(''StoreName'', PStr ''Green Leaf''), (''City'', PStr ''Calgary''),
            (''Address'', PStr ''1 Main St''), (''PostalCode'', PStr ''T2P 1J9''),
            (''Province'', PStr ''AB''), (''FullProvinceName'', PStr ''Alberta''),
            (''Latitude'', PNum 51), (''Longitude'', PNum (-114))] ''PostalCode'' = Some PNaN
        \<or> (\<exists>p. p \<noteq> PNone \<and> truthy p
              \<and> map_of [(''StoreName'', PStr ''Green Leaf''), (''City'', PStr ''Calgary''),
                    (''Address'', PStr ''1 Main St''), (''PostalCode'', PStr ''T2P 1J9''),
                    (''Province'', PStr ''AB''), (''FullProvinceName'', PStr ''Alberta''),
                    (''Latitude'', PNum 51), (''Longitude'', PNum (-114))] ''PostalCode''
                  = Some p))
   \<and> fst (fill_missing_postal (\<lambda>n req. Json (ok_response 51 (-114) ''T2P 1J9''))
            [filled_row, unfilled_row] fresh)
     = Inr [filled_row,
            [(''Address'', PStr ''2 Oak St''), (''PostalCode'', PStr ''T2P 1J9''),
             (''Latitude'', PNum 51), (''Longitude'', PNum (-114))]]
   \<and> list_all2 (\<lambda>r r'. \<forall>v. map_of r ''PostalCode'' = Some v \<and> \<not> isna v \<longrightarrow> r' = r)
         [filled_row, unfilled_row]
         [filled_row,
          [(''Address'', PStr ''2 Oak St''), (''PostalCode'', PStr ''T2P 1J9''),
           (''Latitude'', PNum 51), (''Longitude'', PNum (-114))]]
   \<and> map_of (relayout target_cols filled_row) ''PostalCode'' = Some (PStr ''T5J 0N3'')"
proof -
  let ?R = "\<lambda>(n::nat) (req::request). Json (ok_response 51 (-114) ''T2P 1J9'')"
  let ?in = "AList.update ''PostalCode'' (PStr ''T5J 0N3'') ab_row"
  let ?row = "[(''StoreName'', PStr ''Green Leaf''), (''City'', PStr ''Calgary''),
             (''Address'', PStr ''1 Main St''), (''PostalCode'', PStr ''T5J 0N3''),
             (''Province'', PStr ''AB''), (''FullProvinceName'', PStr ''Alberta''),
             (''Latitude'', PNum 51), (''Longitude'', PNum (-114))]"
  let ?row3 = "[(''StoreName'', PStr ''Green Leaf''), (''City'', PStr ''Calgary''),
            (''Address'', PStr ''1 Main St''), (''PostalCode'', PStr ''T2P 1J9''),
            (''Province'', PStr ''AB''), (''FullProvinceName'', PStr ''Alberta''),
            (''Latitude'', PNum 51), (''Longitude'', PNum (-114))]"
  let ?filled = "[(''Address'', PStr ''2 Oak St''), (''PostalCode'', PStr ''T2P 1J9''),
             (''Latitude'', PNum 51), (''Longitude'', PNum (-114))]"
  \<comment> \<open>the loop over the rows\<close>
  have e: "fst (process_rows ?R no_fmt 3 ''AB'' [?in] fresh) = Inr [?row]" by code_simp
  then obtain s' where p: "process_rows ?R no_fmt 3 ''AB'' [?in] fresh = (Inr [?row], s')"
    by (cases "process_rows ?R no_fmt 3 ''AB'' [?in] fresh") simp
  have i: "map_of ?in ''PostalCode'' = Some (PStr ''T5J 0N3'') \<and> \<not> isna (PStr ''T5J 0N3'')
           \<and> (truthy (PStr ''T5J 0N3'') \<or> ''AB'' \<noteq> ''BC'' \<or> map_of ?in ''FullAddress'' = None)"
    by simp
  have "list_all2 (\<lambda>r r'. \<forall>v. map_of r ''PostalCode'' = Some v \<and> \<not> isna v
                              \<and> (truthy v \<or> ''AB'' \<noteq> ''BC'' \<or> map_of r ''FullAddress'' = None)
                            \<longrightarrow> map_of r' ''PostalCode'' = Some v) [?in] [?row]"
    using postal_code_kept
            [where remote = ?R and fmt = no_fmt and max_retries = 3 and code = "''AB''"
               and rs = "[?in]" and s = fresh and out = "[?row]" and s' = s',
             THEN conjunct1, rule_format, OF p] .
  then have "\<forall>v. map_of ?in ''PostalCode'' = Some v \<and> \<not> isna v
                 \<and> (truthy v \<or> ''AB'' \<noteq> ''BC'' \<or> map_of ?in ''FullAddress'' = None)
               \<longrightarrow> map_of ?row ''PostalCode'' = Some v"
    by (simp only: list_all2_Cons list.rel_inject list_all2_Nil simp_thms)
  then have 1: "map_of ?row ''PostalCode'' = Some (PStr ''T5J 0N3'')" using i by blast
  \<comment> \<open>the forward-enrichment step on a missing postal code\<close>
  have g: "fst (geocode_row ?R 3 ab_row ''1 Main St'' ''1 Main St, Calgary, Alberta, Canada'' fresh)
             = Inr ?row3"
    by code_simp
  then obtain s1 where
    gp: "geocode_row ?R 3 ab_row ''1 Main St'' ''1 Main St, Calgary, Alberta, Canada'' fresh
           = (Inr ?row3, s1)"
    by (cases "geocode_row ?R 3 ab_row ''1 Main St'' ''1 Main St, Calgary, Alberta, Canada'' fresh")
       simp
  have gh: "geocode_row ?R 3 ab_row ''1 Main St'' ''1 Main St, Calgary, Alberta, Canada'' fresh
           = (Inr ?row3, s1) \<and> map_of ab_row ''PostalCode'' = Some PNaN"
    using gp by (simp add: ab_row_def)
  have "if isna PNaN
        then map_of ?row3 ''PostalCode'' = Some PNaN
             \<or> (\<exists>p. p \<noteq> PNone \<and> truthy p \<and> map_of ?row3 ''PostalCode'' = Some p)
        else map_of ?row3 ''PostalCode'' = Some PNaN"
    using postal_code_kept
            [where remote = ?R and max_retries = 3 and ?row1.0 = ab_row and addr = "''1 Main St''"
               and q = "''1 Main St, Calgary, Alberta, Canada''" and s = fresh
               and ?row3.0 = ?row3 and ?s1.0 = s1 and old = PNaN,
             THEN conjunct2, THEN conjunct1, rule_format, OF gh] .
  then have 2: "map_of ?row3 ''PostalCode'' = Some PNaN
             \<or> (\<exists>p. p \<noteq> PNone \<and> truthy p \<and> map_of ?row3 ''PostalCode'' = Some p)"
    by (simp only: isna.simps if_True)
  \<comment> \<open>the reverse-lookup pass\<close>
  have f: "fst (fill_missing_postal ?R [filled_row, unfilled_row] fresh)
             = Inr [filled_row, ?filled]"
    by code_simp
  then obtain s2 where
    fp: "fill_missing_postal ?R [filled_row, unfilled_row] fresh = (Inr [filled_row, ?filled], s2)"
    by (cases "fill_missing_postal ?R [filled_row, unfilled_row] fresh") simp
  have 3: "list_all2 (\<lambda>r r'. \<forall>v. map_of r ''PostalCode'' = Some v \<and> \<not> isna v \<longrightarrow> r' = r)
          [filled_row, unfilled_row] [filled_row, ?filled]"
    using postal_code_kept
            [where remote = ?R and rs = "[filled_row, unfilled_row]" and s = fresh
               and ?out2.0 = "[filled_row, ?filled]" and ?s2.0 = s2,
             THEN conjunct2, THEN conjunct2, THEN conjunct1, rule_format, OF fp] .
  \<comment> \<open>laying a row out again\<close>
  have rh: "''PostalCode'' \<in> set target_cols
            \<and> map_of filled_row ''PostalCode'' = Some (PStr ''T5J 0N3'')"
    by (simp add: target_cols_def filled_row_def)
  have 4: "map_of (relayout target_cols filled_row) ''PostalCode'' = Some (PStr ''T5J 0N3'')"
    using postal_code_kept
            [where c = "''PostalCode''" and cols = target_cols and r = filled_row
               and v = "PStr ''T5J 0N3''",
             THEN conjunct2, THEN conjunct2, THEN conjunct2, rule_format, OF rh] .
  show ?thesis
    apply (intro conjI)
          apply (rule e)
         apply (rule 1)
        apply (rule g)
       apply (rule 2)
      apply (rule f)
     apply (rule 3)
    apply (rule 4)
    done
qed

subsection \<open>Province names\<close>

lemma set_column_rows:
  "\<forall>r\<in>set (rows (set_column c v df)). map_of r c = Some v"
  by (simp add: set_column_def)

lemma set_column_keeps:
  "c' \<noteq> c \<Longrightarrow> \<forall>r\<in>set (rows df). map_of r c' = Some v' \<Longrightarrow>
     \<forall>r\<in>set (rows (set_column c v df)). map_of r c' = Some v'"
  by (simp add: set_column_def)

lemma set_column_columns: "c \<in> set (columns (set_column c v df))"
  by (simp add: set_column_def)

lemma set_column_columns_keeps:
  "c' \<in> set (columns df) \<Longrightarrow> c' \<in> set (columns (set_column c v df))"
  by (simp add: set_column_def)

lemma init_columns_keeps:
  "c \<notin> set cols \<Longrightarrow> \<forall>r\<in>set (rows df). map_of r c = Some v \<Longrightarrow>
     \<forall>r\<in>set (rows (init_columns cols df)). map_of r c = Some v"
proof (induction cols arbitrary: df)
  case Nil
  then show ?case by simp
next
  case (Cons col cols)
  have "\<forall>r\<in>set (rows (if col \<notin> set (columns df) then set_column col PNone df else df)).
          map_of r c = Some v"
    using Cons.prems set_column_keeps [of c col df v PNone] by auto
  then show ?case using Cons.IH Cons.prems(1) by simp
qed

lemma init_columns_columns_keeps:
  "c \<in> set (columns df) \<Longrightarrow> c \<in> set (columns (init_columns cols df))"
  by (induction cols arbitrary: df) (auto simp: set_column_columns_keeps)

lemma process_rows_keeps:
  assumes "c \<noteq> ''Address''" "c \<noteq> ''PostalCode''" "c \<noteq> ''Latitude''" "c \<noteq> ''Longitude''"
  shows "process_rows remote fmt mx code rs s = (Inr out, s') \<Longrightarrow>
         \<forall>r\<in>set rs. map_of r c = Some v \<Longrightarrow> \<forall>r'\<in>set out. map_of r' c = Some v"
proof (induction rs arbitrary: s out s')
  case Nil
  then show ?case by simp
next
  case (Cons r rs)
  from Cons.prems(1) obtain r' s1 out1 where
    pr: "process_row remote fmt mx code r s = (Inr r', s1)"
    and ps: "process_rows remote fmt mx code rs s1 = (Inr out1, s')"
    and o: "out = r' # out1"
    by (auto split: prod.splits sum.splits)
  from pr obtain row1 addr q where
    p: "prepare_query fmt code r = Inr (row1, addr, q)"
    and g: "geocode_row remote mx row1 addr q s = (Inr r', s1)"
    by (auto simp: process_row_def split: sum.splits prod.splits)
  have "map_of r' c = map_of r c"
    using prepare_query_keeps [OF p assms(1,2)] geocode_row_keeps [OF g assms(2,3,4)] by simp
  moreover have "\<forall>r'\<in>set out1. map_of r' c = Some v"
    using Cons.IH [OF ps] Cons.prems(2) by simp
  ultimately show ?case using o Cons.prems(2) by simp
qed

lemma select_columns_keeps:
  assumes "c \<in> set target" "c \<in> set (columns df)"
    and "\<forall>r\<in>set (rows df). map_of r c = Some v"
  shows "\<forall>r\<in>set (rows (select_columns target df)). map_of r c = Some v"
  using assms by (auto simp: select_columns_def Let_def intro!: relayout_get)

lemma process_province_names:
  assumes "map_of PROVINCE_FULL_NAMES code = Some name"
    and "process_province files remote fmt mx file_name code file_type m s = (Inr (Some df'), s')"
  shows "\<forall>r\<in>set (rows df'). map_of r ''FullProvinceName'' = Some (PStr name)
                           \<and> map_of r ''Province'' = Some (PStr code)"
proof -
  from assms(2) obtain df where t: "files file_type file_name = Table df"
    by (auto simp: process_province_def Let_def split: if_splits read_outcome.splits)
  let ?s0 = "emit (Print (ProcessingProvince code file_name)) s"
  let ?df3 = "set_column ''Province'' (PStr code) (rename m (filter_province code df))"
  let ?df4 = "set_column ''FullProvinceName'' (PStr name) ?df3"
  let ?df5 = "init_columns [''Latitude'', ''Longitude'', ''PostalCode'', ''Address''] ?df4"
  from assms obtain rows' where
    pr: "process_rows remote fmt mx code (rows ?df5) ?s0 = (Inr rows', s')"
    and d: "df' = select_columns target_cols (?df5\<lparr>rows := rows'\<rparr>)"
    using t
    by (auto simp del: init_columns.simps simp: process_province_def Let_def
             split: if_splits prod.splits sum.splits)
  have f4: "\<forall>r\<in>set (rows ?df4). map_of r ''FullProvinceName'' = Some (PStr name)"
    by (rule set_column_rows)
  have p3: "\<forall>r\<in>set (rows ?df3). map_of r ''Province'' = Some (PStr code)"
    by (rule set_column_rows)
  have p4: "\<forall>r\<in>set (rows ?df4). map_of r ''Province'' = Some (PStr code)"
    using p3 by (rule set_column_keeps [rotated]) simp
  have f5: "\<forall>r\<in>set (rows ?df5). map_of r ''FullProvinceName'' = Some (PStr name)"
    using f4 by (rule init_columns_keeps [rotated]) simp
  have p5: "\<forall>r\<in>set (rows ?df5). map_of r ''Province'' = Some (PStr code)"
    using p4 by (rule init_columns_keeps [rotated]) simp
  have fr: "\<forall>r\<in>set rows'. map_of r ''FullProvinceName'' = Some (PStr name)"
    using pr f5 by (rule process_rows_keeps [where c = "''FullProvinceName''", rotated 4]) simp_all
  have prr: "\<forall>r\<in>set rows'. map_of r ''Province'' = Some (PStr code)"
    using pr p5 by (rule process_rows_keeps [where c = "''Province''", rotated 4]) simp_all
  have "''FullProvinceName'' \<in> set (columns ?df4)" by (rule set_column_columns)
  then have "''FullProvinceName'' \<in> set (columns ?df5)" by (rule init_columns_columns_keeps)
  then have cf: "''FullProvinceName'' \<in> set (columns (?df5\<lparr>rows := rows'\<rparr>))"
    by (simp del: init_columns.simps)
  have "''Province'' \<in> set (columns ?df3)" by (rule set_column_columns)
  then have "''Province'' \<in> set (columns ?df4)" by (rule set_column_columns_keeps)
  then have "''Province'' \<in> set (columns ?df5)" by (rule init_columns_columns_keeps)
  then have cp: "''Province'' \<in> set (columns (?df5\<lparr>rows := rows'\<rparr>))"
    by (simp del: init_columns.simps)
  have "\<forall>r\<in>set (rows df'). map_of r ''FullProvinceName'' = Some (PStr name)"
    unfolding d
  proof (rule select_columns_keeps)
    show "''FullProvinceName'' \<in> set target_cols" by (simp add: target_cols_def)
    show "''FullProvinceName'' \<in> set (columns (?df5\<lparr>rows := rows'\<rparr>))" by (rule cf)
    show "\<forall>r\<in>set (rows (?df5\<lparr>rows := rows'\<rparr>)).
            map_of r ''FullProvinceName'' = Some (PStr name)"
      using fr by (simp del: init_columns.simps)
  qed
  moreover have "\<forall>r\<in>set (rows df'). map_of r ''Province'' = Some (PStr code)"
    unfolding d
  proof (rule select_columns_keeps)
    show "''Province'' \<in> set target_cols" by (simp add: target_cols_def)
    show "''Province'' \<in> set (columns (?df5\<lparr>rows := rows'\<rparr>))" by (rule cp)
    show "\<forall>r\<in>set (rows (?df5\<lparr>rows := rows'\<rparr>)).
            map_of r ''Province'' = Some (PStr code)"
      using prr by (simp del: init_columns.simps)
  qed
  ultimately show ?thesis by blast
qed

lemma process_province_unknown:
  assumes "map_of PROVINCE_FULL_NAMES code = None"
    and "file_type = ''xls'' \<or> file_type = ''xlsx'' \<or> file_type = ''csv''"
    and "files file_type file_name = Table df"
  shows "process_province files remote fmt mx file_name code file_type m s
           = (Inl KeyError, emit (Print (ProcessingProvince code file_name)) s)"
  using assms by (auto simp: process_province_def Let_def)

lemma process_province_unknown_frame:
  assumes "map_of PROVINCE_FULL_NAMES code = None"
  shows "\<exists>r s1. process_province files remote fmt mx file_name code file_type m s = (r, s1)
               \<and> (\<forall>df'. r \<noteq> Inr (Some df'))
               \<and> cache s1 = cache s \<and> api_key s1 = api_key s
               \<and> requests_made s1 = requests_made s"
proof (cases "file_type \<noteq> ''xls'' \<and> file_type \<noteq> ''xlsx'' \<and> file_type \<noteq> ''csv''")
  case True
  then show ?thesis by (simp add: process_province_def Let_def)
next
  case False
  then show ?thesis using assms
    by (cases "files file_type file_name") (simp_all add: process_province_def Let_def)
qed

lemma run_configs_unknown:
  assumes "map_of PROVINCE_FULL_NAMES code = None"
  shows "\<exists>s1. run_configs files remote fmt mx ((file_name, code, file_type, m) # rest) dfs s
                 = run_configs files remote fmt mx rest dfs s1
              \<and> cache s1 = cache s \<and> api_key s1 = api_key s
              \<and> requests_made s1 = requests_made s"
proof -
  obtain r s1 where
    p: "process_province files remote fmt mx file_name code file_type m s = (r, s1)"
    and f: "cache s1 = cache s" "api_key s1 = api_key s" "requests_made s1 = requests_made s"
    and n: "\<forall>df'. r \<noteq> Inr (Some df')"
    using process_province_unknown_frame [OF assms, of files remote fmt mx file_name file_type m s]
    by blast
  show ?thesis
  proof (cases r)
    case (Inl e)
    let ?s2 = "emit (Print (ErrorProcessing file_name e)) s1"
    have "run_configs files remote fmt mx ((file_name, code, file_type, m) # rest) dfs s
            = run_configs files remote fmt mx rest dfs ?s2"
      using p Inl by simp
    moreover have "cache ?s2 = cache s" "api_key ?s2 = api_key s"
      "requests_made ?s2 = requests_made s" using f by simp_all
    ultimately show ?thesis by blast
  next
    case (Inr x)
    then have "x = None" using n by (cases x) auto
    then have "run_configs files remote fmt mx ((file_name, code, file_type, m) # rest) dfs s
            = run_configs files remote fmt mx rest dfs s1"
      using p Inr by simp
    then show ?thesis using f by blast
  qed
qed

lemma same_service_refl: "same_service s s"
  by (simp add: same_service_def)

lemma same_service_emit: "same_service s t \<Longrightarrow> same_service (emit e s) (emit e t)"
  by (simp add: same_service_def requests_made_def emit_def)

lemma same_service_print: "same_service (emit (Print m) s) t = same_service s t"
  by (simp add: same_service_def requests_made_def emit_def)

lemma same_service_sleep: "same_service (emit (Sleep d) s) t = same_service s t"
  by (simp add: same_service_def requests_made_def emit_def)

lemma get_coordinates_sim:
  assumes "same_service s t"
  shows "fst (get_coordinates remote address s) = fst (get_coordinates remote address t)
         \<and> same_service (snd (get_coordinates remote address s))
                        (snd (get_coordinates remote address t))"
  using assms
  by (auto simp: get_coordinates_def Let_def same_service_def requests_made_def emit_def
           split: pyval.splits http_outcome.splits sum.splits option.splits)

lemma retry_loop_sim:
  "same_service s t \<Longrightarrow>
     fst (retry_loop remote mx q attempts r0 s) = fst (retry_loop remote mx q attempts r0 t)
     \<and> same_service (snd (retry_loop remote mx q attempts r0 s))
                    (snd (retry_loop remote mx q attempts r0 t))"
proof (induction attempts arbitrary: s t r0)
  case Nil
  then show ?case by simp
next
  case (Cons attempt rest)
  obtain lat lng postal s1 where gs: "get_coordinates remote (PStr q) s = ((lat, lng, postal), s1)"
    by (metis prod.exhaust)
  obtain g t1 where gt: "get_coordinates remote (PStr q) t = (g, t1)"
    by (metis prod.exhaust)
  have e: "g = (lat, lng, postal)" and ss: "same_service s1 t1"
    using get_coordinates_sim [OF Cons.prems, of remote "PStr q"] gs gt by simp_all
  let ?s2 = "emit (Sleep (API_DELAY * 2)) (emit (Print (RetryFailed attempt mx q)) s1)"
  let ?t2 = "emit (Sleep (API_DELAY * 2)) (emit (Print (RetryFailed attempt mx q)) t1)"
  have "same_service ?s2 ?t2" using ss by (intro same_service_emit)
  note IH = Cons.IH [OF this, of "(lat, lng, postal)"]
  show ?case
  proof (cases "lat \<noteq> PNone \<and> lng \<noteq> PNone")
    case True
    then show ?thesis using ss by (simp add: gs gt e)
  next
    case False
    then show ?thesis using IH by (simp only: retry_loop.simps gs gt e prod.case if_False)
  qed
qed

lemma geocode_row_sim:
  assumes "same_service s t"
  shows "fst (geocode_row remote mx row1 addr q s) = fst (geocode_row remote mx row1 addr q t)
         \<and> same_service (snd (geocode_row remote mx row1 addr q s))
                        (snd (geocode_row remote mx row1 addr q t))"
proof -
  obtain lat lng postal s1 where
    rs: "retry_loop remote mx q [1..mx] (PNone, PNone, PNone) s = ((lat, lng, postal), s1)"
    by (metis prod.exhaust)
  obtain g t1 where rt: "retry_loop remote mx q [1..mx] (PNone, PNone, PNone) t = (g, t1)"
    by (metis prod.exhaust)
  have e: "g = (lat, lng, postal)" and ss: "same_service s1 t1"
    using retry_loop_sim [OF assms, of remote mx q "[1..mx]" "(PNone, PNone, PNone)"] rs rt
    by simp_all
  show ?thesis
    using ss
    by (auto simp: geocode_row_def rs rt e Let_def same_service_def
             split: option.splits)
qed

lemma process_row_sim:
  assumes "same_service s t"
  shows "fst (process_row remote fmt mx code row s) = fst (process_row remote fmt mx code row t)
         \<and> same_service (snd (process_row remote fmt mx code row s))
                        (snd (process_row remote fmt mx code row t))"
  using assms geocode_row_sim [OF assms]
  by (auto simp: process_row_def split: sum.splits prod.splits)

lemma process_rows_sim:
  "same_service s t \<Longrightarrow>
     fst (process_rows remote fmt mx code rs s) = fst (process_rows remote fmt mx code rs t)
     \<and> same_service (snd (process_rows remote fmt mx code rs s))
                    (snd (process_rows remote fmt mx code rs t))"
proof (induction rs arbitrary: s t)
  case Nil
  then show ?case by simp
next
  case (Cons r rs)
  obtain a s1 where ps: "process_row remote fmt mx code r s = (a, s1)" by (metis prod.exhaust)
  obtain b t1 where pt: "process_row remote fmt mx code r t = (b, t1)" by (metis prod.exhaust)
  have e: "b = a" and ss: "same_service s1 t1"
    using process_row_sim [OF Cons.prems, of remote fmt mx code r] ps pt by simp_all
  show ?case
  proof (cases a)
    case (Inl x)
    then show ?thesis using ss by (simp add: ps pt e)
  next
    case (Inr row')
    then show ?thesis
      using Cons.IH [OF ss] by (auto simp: ps pt e split: prod.splits sum.splits)
  qed
qed

lemma process_province_sim:
  assumes "same_service s t"
  shows "fst (process_province files remote fmt mx fn code ft m s)
           = fst (process_province files remote fmt mx fn code ft m t)
         \<and> same_service (snd (process_province files remote fmt mx fn code ft m s))
                        (snd (process_province files remote fmt mx fn code ft m t))"
proof -
  let ?s0 = "emit (Print (ProcessingProvince code fn)) s"
  let ?t0 = "emit (Print (ProcessingProvince code fn)) t"
  have 0: "same_service ?s0 ?t0" using assms by (rule same_service_emit)
  show ?thesis
  proof (cases "ft \<noteq> ''xls'' \<and> ft \<noteq> ''xlsx'' \<and> ft \<noteq> ''csv''")
    case True
    then show ?thesis using 0 by (simp add: process_province_def Let_def same_service_emit)
  next
    case False
    show ?thesis
    proof (cases "files ft fn")
      case ReadImportError
      then show ?thesis using False 0
        by (auto simp: process_province_def Let_def same_service_emit)
    next
      case ReadError
      then show ?thesis using False 0
        by (auto simp: process_province_def Let_def same_service_emit)
    next
      case (Table df)
      show ?thesis
      proof (cases "map_of PROVINCE_FULL_NAMES code")
        case None
        then show ?thesis using False 0 Table
          by (auto simp: process_province_def Let_def)
      next
        case (Some name)
        let ?df5 = "init_columns [''Latitude'', ''Longitude'', ''PostalCode'', ''Address'']
                      (set_column ''FullProvinceName'' (PStr name)
                         (set_column ''Province'' (PStr code)
                            (rename m (filter_province code df))))"
        note sim = process_rows_sim [OF 0, of remote fmt mx code "rows ?df5"]
        show ?thesis using False Table Some sim
          by (auto simp del: init_columns.simps simp: process_province_def Let_def
                   split: prod.splits sum.splits)
      qed
    qed
  qed
qed

lemma run_configs_sim:
  "same_service s t \<Longrightarrow>
     fst (run_configs files remote fmt mx cfgs dfs s)
       = fst (run_configs files remote fmt mx cfgs dfs t)
     \<and> same_service (snd (run_configs files remote fmt mx cfgs dfs s))
                    (snd (run_configs files remote fmt mx cfgs dfs t))"
proof (induction cfgs arbitrary: s t dfs)
  case Nil
  then show ?case by simp
next
  case (Cons cfg cfgs)
  obtain fn code ft m where c: "cfg = (fn, code, ft, m)" by (cases cfg)
  obtain a s1 where ps: "process_province files remote fmt mx fn code ft m s = (a, s1)"
    by (metis prod.exhaust)
  obtain b t1 where pt: "process_province files remote fmt mx fn code ft m t = (b, t1)"
    by (metis prod.exhaust)
  have e: "b = a" and ss: "same_service s1 t1"
    using process_province_sim [OF Cons.prems, of files remote fmt mx fn code ft m] ps pt
    by simp_all
  show ?case
  proof (cases a)
    case (Inl x)
    have "same_service (emit (Print (ErrorProcessing fn x)) s1)
                       (emit (Print (ErrorProcessing fn x)) t1)"
      using ss by (rule same_service_emit)
    from Cons.IH [OF this] show ?thesis by (simp add: c ps pt e Inl)
  next
    case (Inr opt)
    show ?thesis
    proof (cases opt)
      case None
      from Cons.IH [OF ss] show ?thesis by (simp add: c ps pt e Inr None)
    next
      case (Some df)
      from Cons.IH [OF ss] show ?thesis by (simp add: c ps pt e Inr Some)
    qed
  qed
qed

lemma run_configs_prefix:
  "fst (run_configs files remote fmt mx cfgs dfs s)
     = dfs @ fst (run_configs files remote fmt mx cfgs [] s)
   \<and> snd (run_configs files remote fmt mx cfgs dfs s)
     = snd (run_configs files remote fmt mx cfgs [] s)"
proof (induction cfgs arbitrary: s dfs)
  case Nil
  then show ?case by simp
next
  case (Cons cfg cfgs)
  obtain fn code ft m where c: "cfg = (fn, code, ft, m)" by (cases cfg)
  obtain a s1 where ps: "process_province files remote fmt mx fn code ft m s = (a, s1)"
    by (metis prod.exhaust)
  show ?case
  proof (cases a)
    case (Inl x)
    show ?thesis using Cons.IH [of dfs] by (simp add: c ps Inl)
  next
    case (Inr opt)
    show ?thesis
    proof (cases opt)
      case None
      show ?thesis using Cons.IH [of dfs] by (simp add: c ps Inr None)
    next
      case (Some df)
      show ?thesis
        using Cons.IH [of "dfs @ [df]" s1] Cons.IH [of "[df]" s1] Cons.IH [of dfs s1]
        by (simp add: c ps Inr Some)
    qed
  qed
qed

lemma run_configs_skip:
  assumes "map_of PROVINCE_FULL_NAMES code = None"
  shows "fst (run_configs files remote fmt mx ((fn, code, ft, m) # rest) dfs s)
           = fst (run_configs files remote fmt mx rest dfs s)
         \<and> same_service (snd (run_configs files remote fmt mx ((fn, code, ft, m) # rest) dfs s))
                        (snd (run_configs files remote fmt mx rest dfs s))"
proof -
  obtain s1 where
    r: "run_configs files remote fmt mx ((fn, code, ft, m) # rest) dfs s
          = run_configs files remote fmt mx rest dfs s1"
    and f: "cache s1 = cache s" "api_key s1 = api_key s" "requests_made s1 = requests_made s"
    using run_configs_unknown [OF assms, of files remote fmt mx fn ft m rest dfs s] by blast
  have "same_service s1 s" using f by (simp add: same_service_def)
  from run_configs_sim [OF this, of files remote fmt mx rest dfs] show ?thesis
    unfolding r .
qed

lemma run_configs_collects:
  assumes "fst (process_province files remote fmt mx fn code ft m s) = Inr (Some df)"
    and "\<not> df_empty df"
  shows "fst (run_configs files remote fmt mx ((fn, code, ft, m) # rest) dfs s)
           = dfs @ df # fst (run_configs files remote fmt mx rest []
                               (snd (process_province files remote fmt mx fn code ft m s)))"
proof -
  obtain s1 where p: "process_province files remote fmt mx fn code ft m s = (Inr (Some df), s1)"
    using assms(1) by (cases "process_province files remote fmt mx fn code ft m s") simp
  show ?thesis
    using assms(2) run_configs_prefix [of files remote fmt mx rest "dfs @ [df]" s1]
    by (simp add: p)
qed

lemma get_postal_from_coords_sim:
  assumes "same_service s t"
  shows "fst (get_postal_from_coords remote lat lng s) = fst (get_postal_from_coords remote lat lng t)
         \<and> same_service (snd (get_postal_from_coords remote lat lng s))
                        (snd (get_postal_from_coords remote lat lng t))"
  using assms
  by (auto simp: get_postal_from_coords_def Let_def same_service_def requests_made_def emit_def
           split: http_outcome.splits sum.splits option.splits)

lemma fill_missing_postal_sim:
  "same_service s t \<Longrightarrow>
     fst (fill_missing_postal remote rs s) = fst (fill_missing_postal remote rs t)
     \<and> same_service (snd (fill_missing_postal remote rs s))
                    (snd (fill_missing_postal remote rs t))"
proof (induction rs arbitrary: s t)
  case Nil
  then show ?case by simp
next
  case (Cons row rest)
  note plain = Cons.IH [OF Cons.prems]
  show ?case
  proof (cases "map_of row ''PostalCode''")
    case None
    then show ?thesis using Cons.prems by simp
  next
    case (Some old)
    show ?thesis
    proof (cases "isna old")
      case False
      then show ?thesis using plain Some by (auto split: prod.splits sum.splits)
    next
      case True
      show ?thesis
      proof (cases "map_of row ''Latitude''")
        case None
        then show ?thesis using Cons.prems Some True by simp
      next
        case lat: (Some lat)
        show ?thesis
        proof (cases "map_of row ''Longitude''")
          case None
          then show ?thesis using Cons.prems Some True lat by simp
        next
          case lng: (Some lng)
          show ?thesis
          proof (cases "\<not> isna lat \<and> \<not> isna lng")
            case False
            then show ?thesis using plain Some True lat lng
              by (auto split: prod.splits sum.splits)
          next
            case notna: True
            obtain pc s1 where gs: "get_postal_from_coords remote lat lng s = (pc, s1)"
              by (metis prod.exhaust)
            obtain pc' t1 where gt: "get_postal_from_coords remote lat lng t = (pc', t1)"
              by (metis prod.exhaust)
            have e: "pc' = pc" and ss: "same_service s1 t1"
              using get_postal_from_coords_sim [OF Cons.prems, of remote lat lng] gs gt
              by simp_all
            show ?thesis
            proof (cases "map_of (AList.update ''PostalCode'' pc row) ''Address''")
              case None
              then show ?thesis using Some True lat lng notna ss
                by (simp add: gs gt e Let_def del: map_of_update)
            next
              case address: (Some address)
              have "same_service
                      (emit (Sleep API_DELAY) (emit (Print (FilledMissingPostal address pc)) s1))
                      (emit (Sleep API_DELAY) (emit (Print (FilledMissingPostal address pc)) t1))"
                using ss by (intro same_service_emit)
              from Cons.IH [OF this] show ?thesis using Some True lat lng notna address
                by (auto simp: gs gt e Let_def simp del: map_of_update
                         split: prod.splits sum.splits)
            qed
          qed
        qed
      qed
    qed
  qed
qed

lemma process_configs_skip:
  assumes "map_of PROVINCE_FULL_NAMES code = None"
  shows "fst (process_configs files remote fmt mx ((fn, code, ft, m) # rest) s)
           = fst (process_configs files remote fmt mx rest s)"
proof -
  let ?a = "run_configs files remote fmt mx ((fn, code, ft, m) # rest) [] s"
  let ?b = "run_configs files remote fmt mx rest [] s"
  have e: "fst ?a = fst ?b" and ss: "same_service (snd ?a) (snd ?b)"
    using run_configs_skip [OF assms, of files remote fmt mx fn ft m rest "[]" s] by simp_all
  obtain dfs s1 where a: "?a = (dfs, s1)" by (metis prod.exhaust)
  obtain t1 where b: "?b = (dfs, t1)" using e a by (cases ?b) simp
  have "same_service s1 t1" using ss a b by simp
  from fill_missing_postal_sim [OF this, of remote "rows (concat_frames dfs)"]
  show ?thesis
    unfolding process_configs_def a b
    by (auto simp: Let_def split: prod.splits sum.splits)
qed

text \<open>
  C8. For a province code of the table, every row of the frame that
  \<open>process_province\<close> returns carries the code and the full name the table gives for
  it. For a code that is not in the table, \<open>process_province\<close> raises once the file is
  read (the \<^verbatim>\<open>KeyError\<close> of the dictionary lookup is the configuration error of the
  specification). The loop over the configurations catches it and goes on: the frames
  it collects, the cache and the number of requests sent are those of the run without
  the failing configuration, and so is the combined frame (or the exception) that
  \<open>process_all_provinces\<close> ends with. In particular a configuration that follows the
  failing one and yields a non-empty frame has that frame in the result, after the
  frames collected before and followed by those of the configurations after it.
\<close>

theorem unknown_province_fails_alone:
  "(map_of PROVINCE_FULL_NAMES code = Some name
      \<and> process_province files remote fmt max_retries file_name code file_type m s
          = (Inr (Some df'), s')
    \<longrightarrow> (\<forall>r\<in>set (rows df'). map_of r ''FullProvinceName'' = Some (PStr name)
                             \<and> map_of r ''Province'' = Some (PStr code)))
   \<and> (map_of PROVINCE_FULL_NAMES code = None
      \<and> (file_type = ''xls'' \<or> file_type = ''xlsx'' \<or> file_type = ''csv'')
      \<and> files file_type file_name = Table df
    \<longrightarrow> fst (process_province files remote fmt max_retries file_name code file_type m s)
          = Inl KeyError)
   \<and> (map_of PROVINCE_FULL_NAMES code = None
    \<longrightarrow> fst (run_configs files remote fmt max_retries
               ((file_name, code, file_type, m) # rest) dfs s)
          = fst (run_configs files remote fmt max_retries rest dfs s)
        \<and> cache (snd (run_configs files remote fmt max_retries
                        ((file_name, code, file_type, m) # rest) dfs s))
          = cache (snd (run_configs files remote fmt max_retries rest dfs s))
        \<and> requests_made (snd (run_configs files remote fmt max_retries
                                ((file_name, code, file_type, m) # rest) dfs s))
          = requests_made (snd (run_configs files remote fmt max_retries rest dfs s))
        \<and> fst (process_configs files remote fmt max_retries
                  ((file_name, code, file_type, m) # rest) s)
          = fst (process_configs files remote fmt max_retries rest s))
   \<and> (map_of PROVINCE_FULL_NAMES code = None
      \<and> fst (process_province files remote fmt max_retries file_name2 code2 file_type2 m2 s)
          = Inr (Some df2)
      \<and> \<not> df_empty df2
    \<longrightarrow> fst (run_configs files remote fmt max_retries
               ((file_name, code, file_type, m) # (file_name2, code2, file_type2, m2) # rest)
               dfs s)
          = dfs @ df2 # fst (run_configs files remote fmt max_retries rest []
                               (snd (process_province files remote fmt max_retries
                                       file_name2 code2 file_type2 m2 s))))"
proof -
  have 1: "map_of PROVINCE_FULL_NAMES code = Some name
      \<and> process_province files remote fmt max_retries file_name code file_type m s
          = (Inr (Some df'), s')
    \<longrightarrow> (\<forall>r\<in>set (rows df'). map_of r ''FullProvinceName'' = Some (PStr name)
                             \<and> map_of r ''Province'' = Some (PStr code))"
    using process_province_names by blast
  have 2: "map_of PROVINCE_FULL_NAMES code = None
      \<and> (file_type = ''xls'' \<or> file_type = ''xlsx'' \<or> file_type = ''csv'')
      \<and> files file_type file_name = Table df
    \<longrightarrow> fst (process_province files remote fmt max_retries file_name code file_type m s)
          = Inl KeyError"
    using process_province_unknown [of code file_type files file_name df remote fmt max_retries m s]
    by simp
  have 3: "map_of PROVINCE_FULL_NAMES code = None
    \<longrightarrow> fst (run_configs files remote fmt max_retries
               ((file_name, code, file_type, m) # rest) dfs s)
          = fst (run_configs files remote fmt max_retries rest dfs s)
        \<and> cache (snd (run_configs files remote fmt max_retries
                        ((file_name, code, file_type, m) # rest) dfs s))
          = cache (snd (run_configs files remote fmt max_retries rest dfs s))
        \<and> requests_made (snd (run_configs files remote fmt max_retries
                                ((file_name, code, file_type, m) # rest) dfs s))
          = requests_made (snd (run_configs files remote fmt max_retries rest dfs s))
        \<and> fst (process_configs files remote fmt max_retries
                  ((file_name, code, file_type, m) # rest) s)
          = fst (process_configs files remote fmt max_retries rest s)"
  proof
    assume u: "map_of PROVINCE_FULL_NAMES code = None"
    note k = run_configs_skip [OF u, of files remote fmt max_retries file_name file_type m rest dfs s]
    show "fst (run_configs files remote fmt max_retries
               ((file_name, code, file_type, m) # rest) dfs s)
          = fst (run_configs files remote fmt max_retries rest dfs s)
        \<and> cache (snd (run_configs files remote fmt max_retries
                        ((file_name, code, file_type, m) # rest) dfs s))
          = cache (snd (run_configs files remote fmt max_retries rest dfs s))
        \<and> requests_made (snd (run_configs files remote fmt max_retries
                                ((file_name, code, file_type, m) # rest) dfs s))
          = requests_made (snd (run_configs files remote fmt max_retries rest dfs s))
        \<and> fst (process_configs files remote fmt max_retries
                  ((file_name, code, file_type, m) # rest) s)
          = fst (process_configs files remote fmt max_retries rest s)"
      using k process_configs_skip [OF u, of files remote fmt max_retries file_name file_type m rest s]
      by (simp add: same_service_def)
  qed
  have 4: "map_of PROVINCE_FULL_NAMES code = None
      \<and> fst (process_province files remote fmt max_retries file_name2 code2 file_type2 m2 s)
          = Inr (Some df2)
      \<and> \<not> df_empty df2
    \<longrightarrow> fst (run_configs files remote fmt max_retries
               ((file_name, code, file_type, m) # (file_name2, code2, file_type2, m2) # rest)
               dfs s)
          = dfs @ df2 # fst (run_configs files remote fmt max_retries rest []
                               (snd (process_province files remote fmt max_retries
                                       file_name2 code2 file_type2 m2 s)))"
  proof
    assume h: "map_of PROVINCE_FULL_NAMES code = None
      \<and> fst (process_province files remote fmt max_retries file_name2 code2 file_type2 m2 s)
          = Inr (Some df2)
      \<and> \<not> df_empty df2"
    then have u: "map_of PROVINCE_FULL_NAMES code = None"
      and p: "fst (process_province files remote fmt max_retries file_name2 code2 file_type2 m2 s)
                = Inr (Some df2)"
      and n: "\<not> df_empty df2"
      by simp_all
    have "fst (run_configs files remote fmt max_retries
               ((file_name, code, file_type, m) # (file_name2, code2, file_type2, m2) # rest)
               dfs s)
          = fst (run_configs files remote fmt max_retries
               ((file_name2, code2, file_type2, m2) # rest) dfs s)"
      using run_configs_skip [OF u, of files remote fmt max_retries file_name file_type m
                                "(file_name2, code2, file_type2, m2) # rest" dfs s]
      by (rule conjunct1)
    also have "\<dots> = dfs @ df2 # fst (run_configs files remote fmt max_retries rest []
                               (snd (process_province files remote fmt max_retries
                                       file_name2 code2 file_type2 m2 s)))"
      using p n by (rule run_configs_collects)
    finally show "fst (run_configs files remote fmt max_retries
               ((file_name, code, file_type, m) # (file_name2, code2, file_type2, m2) # rest)
               dfs s)
          = dfs @ df2 # fst (run_configs files remote fmt max_retries rest []
                               (snd (process_province files remote fmt max_retries
                                       file_name2 code2 file_type2 m2 s)))" .
  qed
  show ?thesis
    apply (intro conjI)
       apply (rule 1)
      apply (rule 2)
     apply (rule 3)
    apply (rule 4)
    done
qed

theorem unknown_province_fails_alone_witness:
  "map_of PROVINCE_FULL_NAMES ''XX'' = None
   \<and> fst (process_province (\<lambda>t f. Table small_table)
            (\<lambda>n req. Json (ok_response 51 (-114) ''T2P 1J9'')) no_fmt 3
            ''Alberta.xls'' ''XX'' ''xls'' alberta_mapping fresh) = Inl KeyError
   \<and> map_of PROVINCE_FULL_NAMES ''AB'' = Some ''Alberta''
   \<and> fst (process_province (\<lambda>t f. Table small_table)
            (\<lambda>n req. Json (ok_response 51 (-114) ''T2P 1J9'')) no_fmt 3
            ''Alberta.xls'' ''AB'' ''xls'' alberta_mapping fresh)
       = Inr (Some \<lparr>columns = [''StoreName'', ''Province'', ''FullProvinceName'', ''Address'',
                               ''PostalCode'', ''Latitude'', ''Longitude''],
                    rows = [[(''StoreName'', PStr ''Green Leaf''), (''Province'', PStr ''AB''),
                             (''FullProvinceName'', PStr ''Alberta''), (''Address'', PNone),
                             (''PostalCode'', PStr ''T2P 1J9''), (''Latitude'', PNum 51),
                             (''Longitude'', PNum (-114))]]\<rparr>)
   \<and> map_of [(''StoreName'', PStr ''Green Leaf''), (''Province'', PStr ''AB''),
              (''FullProvinceName'', PStr ''Alberta''), (''Address'', PNone),
              (''PostalCode'', PStr ''T2P 1J9''), (''Latitude'', PNum 51),
              (''Longitude'', PNum (-114))]
         ''FullProvinceName'' = Some (PStr ''Alberta'')
   \<and> map_of [(''StoreName'', PStr ''Green Leaf''), (''Province'', PStr ''AB''),
              (''FullProvinceName'', PStr ''Alberta''), (''Address'', PNone),
              (''PostalCode'', PStr ''T2P 1J9''), (''Latitude'', PNum 51),
              (''Longitude'', PNum (-114))]
         ''Province'' = Some (PStr ''AB'')
   \<and> fst (run_configs (\<lambda>t f. Table small_table)
            (\<lambda>n req. Json (ok_response 51 (-114) ''T2P 1J9'')) no_fmt 3
            [(''Alberta.xls'', ''XX'', ''xls'', alberta_mapping),
             (''Alberta.xls'', ''AB'', ''xls'', alberta_mapping)] [] fresh)
       = [\<lparr>columns = [''StoreName'', ''Province'', ''FullProvinceName'', ''Address'',
                      ''PostalCode'', ''Latitude'', ''Longitude''],
           rows = [[(''StoreName'', PStr ''Green Leaf''), (''Province'', PStr ''AB''),
                    (''FullProvinceName'', PStr ''Alberta''), (''Address'', PNone),
                    (''PostalCode'', PStr ''T2P 1J9''), (''Latitude'', PNum 51),
                    (''Longitude'', PNum (-114))]]\<rparr>]
   \<and> requests_made (snd (run_configs (\<lambda>t f. Table small_table)
            (\<lambda>n req. Json (ok_response 51 (-114) ''T2P 1J9'')) no_fmt 3
            [(''Alberta.xls'', ''XX'', ''xls'', alberta_mapping),
             (''Alberta.xls'', ''AB'', ''xls'', alberta_mapping)] [] fresh)) = 1
   \<and> fst (process_configs (\<lambda>t f. Table small_table)
            (\<lambda>n req. Json (ok_response 51 (-114) ''T2P 1J9'')) no_fmt 3
            [(''Alberta.xls'', ''XX'', ''xls'', alberta_mapping),
             (''Alberta.xls'', ''AB'', ''xls'', alberta_mapping)] fresh)
       = Inr \<lparr>columns = [''StoreName'', ''Province'', ''FullProvinceName'', ''Address'',
                         ''PostalCode'', ''Latitude'', ''Longitude''],
              rows = [[(''StoreName'', PStr ''Green Leaf''), (''Province'', PStr ''AB''),
                       (''FullProvinceName'', PStr ''Alberta''), (''Address'', PNone),
                       (''PostalCode'', PStr ''T2P 1J9''), (''Latitude'', PNum 51),
                       (''Longitude'', PNum (-114))]]\<rparr>"
proof -
  let ?F = "\<lambda>(t::string) (f::string). Table small_table"
  let ?R = "\<lambda>(n::nat) (req::request). Json (ok_response 51 (-114) ''T2P 1J9'')"
  let ?row = "[(''StoreName'', PStr ''Green Leaf''), (''Province'', PStr ''AB''),
               (''FullProvinceName'', PStr ''Alberta''), (''Address'', PNone),
               (''PostalCode'', PStr ''T2P 1J9''), (''Latitude'', PNum 51),
               (''Longitude'', PNum (-114))]"
  let ?D = "\<lparr>columns = [''StoreName'', ''Province'', ''FullProvinceName'', ''Address'',
                         ''PostalCode'', ''Latitude'', ''Longitude''],
              rows = [?row]\<rparr>"
  let ?bad = "(''Alberta.xls'', ''XX'', ''xls'', alberta_mapping)"
  let ?good = "(''Alberta.xls'', ''AB'', ''xls'', alberta_mapping)"
  have x: "map_of PROVINCE_FULL_NAMES ''XX'' = None" by (simp add: PROVINCE_FULL_NAMES_def)
  have a: "map_of PROVINCE_FULL_NAMES ''AB'' = Some ''Alberta''"
    by (simp add: PROVINCE_FULL_NAMES_def)
  have hx: "map_of PROVINCE_FULL_NAMES ''XX'' = None
      \<and> (''xls'' = ''xls'' \<or> ''xls'' = ''xlsx'' \<or> ''xls'' = ''csv'')
      \<and> ?F ''xls'' ''Alberta.xls'' = Table small_table"
    using x by simp
  have 2: "fst (process_province ?F ?R no_fmt 3 ''Alberta.xls'' ''XX'' ''xls'' alberta_mapping fresh)
             = Inl KeyError"
    using unknown_province_fails_alone
            [where code = "''XX''" and files = ?F and remote = ?R and fmt = no_fmt
               and max_retries = 3 and file_name = "''Alberta.xls''" and file_type = "''xls''"
               and m = alberta_mapping and s = fresh and df = small_table,
             THEN conjunct2, THEN conjunct1, rule_format, OF hx] .
  have e: "fst (process_province ?F ?R no_fmt 3 ''Alberta.xls'' ''AB'' ''xls'' alberta_mapping fresh)
             = Inr (Some ?D)"
    by code_simp
  then obtain s' where
    p: "process_province ?F ?R no_fmt 3 ''Alberta.xls'' ''AB'' ''xls'' alberta_mapping fresh
          = (Inr (Some ?D), s')"
    by (cases "process_province ?F ?R no_fmt 3 ''Alberta.xls'' ''AB'' ''xls'' alberta_mapping fresh")
       simp
  have ha: "map_of PROVINCE_FULL_NAMES ''AB'' = Some ''Alberta''
      \<and> process_province ?F ?R no_fmt 3 ''Alberta.xls'' ''AB'' ''xls'' alberta_mapping fresh
          = (Inr (Some ?D), s')"
    using a p by simp
  have 1: "\<forall>r\<in>set (rows ?D). map_of r ''FullProvinceName'' = Some (PStr ''Alberta'')
                            \<and> map_of r ''Province'' = Some (PStr ''AB'')"
    using unknown_province_fails_alone
            [where code = "''AB''" and name = "''Alberta''" and files = ?F and remote = ?R
               and fmt = no_fmt and max_retries = 3 and file_name = "''Alberta.xls''"
               and file_type = "''xls''" and m = alberta_mapping and s = fresh
               and df' = ?D and s' = s',
             THEN conjunct1] ha
    by blast
  have "?row \<in> set (rows ?D)" by simp
  with 1 have rws: "map_of ?row ''FullProvinceName'' = Some (PStr ''Alberta'')
                    \<and> map_of ?row ''Province'' = Some (PStr ''AB'')"
    by blast
  have ne: "\<not> df_empty ?D" by (simp add: df_empty_def)
  have h4: "map_of PROVINCE_FULL_NAMES ''XX'' = None
      \<and> fst (process_province ?F ?R no_fmt 3 ''Alberta.xls'' ''AB'' ''xls'' alberta_mapping fresh)
          = Inr (Some ?D)
      \<and> \<not> df_empty ?D"
    using x e ne by simp
  have "fst (run_configs ?F ?R no_fmt 3 [?bad, ?good] [] fresh)
          = [] @ ?D # fst (run_configs ?F ?R no_fmt 3 [] []
                             (snd (process_province ?F ?R no_fmt 3
                                     ''Alberta.xls'' ''AB'' ''xls'' alberta_mapping fresh)))"
    using unknown_province_fails_alone
            [where code = "''XX''" and files = ?F and remote = ?R and fmt = no_fmt
               and max_retries = 3 and file_name = "''Alberta.xls''" and file_type = "''xls''"
               and m = alberta_mapping and s = fresh
               and ?file_name2.0 = "''Alberta.xls''" and ?code2.0 = "''AB''"
               and ?file_type2.0 = "''xls''" and ?m2.0 = alberta_mapping
               and ?df2.0 = ?D and rest = "[]" and dfs = "[]",
             THEN conjunct2, THEN conjunct2, THEN conjunct2, rule_format, OF h4] .
  then have 4: "fst (run_configs ?F ?R no_fmt 3 [?bad, ?good] [] fresh) = [?D]"
    by simp
  note k = unknown_province_fails_alone
            [where code = "''XX''" and files = ?F and remote = ?R and fmt = no_fmt
               and max_retries = 3 and file_name = "''Alberta.xls''" and file_type = "''xls''"
               and m = alberta_mapping and s = fresh
               and rest = "[?good]" and dfs = "[]",
             THEN conjunct2, THEN conjunct2, THEN conjunct1, rule_format, OF x]
  have "requests_made (snd (run_configs ?F ?R no_fmt 3 [?good] [] fresh)) = 1"
    by code_simp
  then have 5: "requests_made (snd (run_configs ?F ?R no_fmt 3 [?bad, ?good] [] fresh)) = 1"
    using k by simp
  have "fst (process_configs ?F ?R no_fmt 3 [?good] fresh) = Inr ?D"
    by code_simp
  then have 6: "fst (process_configs ?F ?R no_fmt 3 [?bad, ?good] fresh) = Inr ?D"
    using k by simp
  show ?thesis
    apply (intro conjI)
            apply (rule x)
           apply (rule 2)
          apply (rule a)
         apply (rule e)
        apply (rule rws [THEN conjunct1])
       apply (rule rws [THEN conjunct2])
      apply (rule 4)
     apply (rule 5)
    apply (rule 6)
    done
qed

text \<open>The configurations wired into \<open>process_all_provinces\<close> only name provinces of the
  table.\<close>

lemma province_configs_known:
  "list_all (\<lambda>cfg. map_of PROVINCE_FULL_NAMES (fst (snd cfg)) \<noteq> None) province_configs"
  by (simp add: province_configs_def PROVINCE_FULL_NAMES_def)

end
